(* ===== verification/KG_Prelude.thy ===== *)
theory KG_Prelude
  imports Main "HOL-Library.Multiset" "HOL-Library.Char_ord" "HOL-Library.List_Lexorder"
begin

text \<open>
  What every component of the development shares: Go errors as values, three-way
  comparators and the stable sort of Go's \<^verbatim>\<open>sort\<close> package, and the laws a comparison
  function has to satisfy before a sort by it means anything. The order interfaces are the
  locales \<open>strict_weak\<close> and \<open>three_way\<close>; the components interpret them on the
  comparison functions the program sorts with.
\<close>

named_theorems go_simps \<open>equations that evaluate the Go library functions of the model\<close>

subsection \<open>Errors as values\<close>

text \<open>
  A Go \<^verbatim>\<open>error\<close> is its message together with what \<^verbatim>\<open>errors.Is\<close>, \<^verbatim>\<open>errors.As\<close>
  or \<^verbatim>\<open>apierrors.IsNotFound\<close> would find in its chain. \<^verbatim>\<open>fmt.Errorf("...: %w", err)\<close>
  prefixes the message and keeps the chain.
\<close>

datatype errkind =
    ErrPlain
  | ErrNotFound
  | ErrConflict
  | ErrHostKeyMismatch
  | ErrExit
  | ErrNotExist
  | ErrContext

record goerror =
  emsg :: string
  ekind :: errkind

type_synonym 'a result = "goerror + 'a"

definition errorf :: "string \<Rightarrow> goerror" where
  "errorf m = \<lparr>emsg = m, ekind = ErrPlain\<rparr>"

definition wrapf :: "string \<Rightarrow> goerror \<Rightarrow> goerror" where
  "wrapf prefix e = e\<lparr>emsg := prefix @ '': '' @ emsg e\<rparr>"

lemma errorf_sel [simp]: "emsg (errorf m) = m" "ekind (errorf m) = ErrPlain"
  by (simp_all add: errorf_def)

lemma wrapf_sel [simp]: "emsg (wrapf p e) = p @ '': '' @ emsg e" "ekind (wrapf p e) = ekind e"
  by (simp_all add: wrapf_def)

text \<open>Sequencing of fallible steps: the first error returns early.\<close>

definition rbind :: "'a result \<Rightarrow> ('a \<Rightarrow> 'b result) \<Rightarrow> 'b result" where
  "rbind r f = (case r of Inl e \<Rightarrow> Inl e | Inr a \<Rightarrow> f a)"

lemma rbind_simps [simp]: "rbind (Inl e) f = Inl e" "rbind (Inr a) f = f a"
  by (simp_all add: rbind_def)

lemma rbind_Inr_iff: "rbind r f = Inr b \<longleftrightarrow> (\<exists>a. r = Inr a \<and> f a = Inr b)"
  by (cases r) simp_all

fun mapR :: "('a \<Rightarrow> 'b result) \<Rightarrow> 'a list \<Rightarrow> 'b list result" where
  "mapR f [] = Inr []"
| "mapR f (x # xs) = rbind (f x) (\<lambda>y. rbind (mapR f xs) (\<lambda>ys. Inr (y # ys)))"

lemma mapR_Inr_length: "mapR f xs = Inr ys \<Longrightarrow> length ys = length xs"
  by (induction xs arbitrary: ys) (auto simp: rbind_Inr_iff)

lemma mapR_Inr_iff: "mapR f xs = Inr ys \<longleftrightarrow> list_all2 (\<lambda>x y. f x = Inr y) xs ys"
proof (induction xs arbitrary: ys)
  case Nil
  then show ?case by auto
next
  case (Cons x xs)
  then show ?case by (cases ys) (auto simp: rbind_Inr_iff)
qed

lemma mapR_Inl_iff: "(\<exists>e. mapR f xs = Inl e) \<longleftrightarrow> (\<exists>x\<in>set xs. \<exists>e. f x = Inl e)"
proof (induction xs)
  case Nil
  then show ?case by simp
next
  case (Cons x xs)
  then show ?case by (cases "f x"; cases "mapR f xs") auto
qed

subsection \<open>Strict weak orders and Go's stable sort\<close>

text \<open>
  \<^verbatim>\<open>sort.SliceStable(xs, lt)\<close> leaves the permutation of \<open>xs\<close> that is sorted by
  \<open>lt\<close> and keeps the order of elements that \<open>lt\<close> does not tell apart. Insertion from
  the right computes it; for a strict weak order that permutation is unique, so which
  stable algorithm the library runs does not matter.
\<close>

fun insertStable :: "('a \<Rightarrow> 'a \<Rightarrow> bool) \<Rightarrow> 'a \<Rightarrow> 'a list \<Rightarrow> 'a list" where
  "insertStable lt x [] = [x]"
| "insertStable lt x (y # ys) = (if lt y x then y # insertStable lt x ys else x # y # ys)"

definition sliceStable :: "('a \<Rightarrow> 'a \<Rightarrow> bool) \<Rightarrow> 'a list \<Rightarrow> 'a list" where
  "sliceStable lt xs = foldr (insertStable lt) xs []"

lemma sliceStable_simps [simp]:
  "sliceStable lt [] = []"
  "sliceStable lt (x # xs) = insertStable lt x (sliceStable lt xs)"
  by (simp_all add: sliceStable_def)

lemma mset_insertStable [simp]: "mset (insertStable lt x xs) = add_mset x (mset xs)"
  by (induction xs) auto

lemma mset_sliceStable [simp]: "mset (sliceStable lt xs) = mset xs"
  by (induction xs) auto

lemma set_sliceStable [simp]: "set (sliceStable lt xs) = set xs"
  using mset_sliceStable [of lt xs] by (metis set_mset_mset)

lemma length_sliceStable [simp]: "length (sliceStable lt xs) = length xs"
  using mset_sliceStable [of lt xs] by (metis size_mset)

lemma set_insertStable [simp]: "set (insertStable lt x xs) = insert x (set xs)"
  using mset_insertStable [of lt x xs] by (metis set_mset_mset set_mset_add_mset_insert)

locale strict_weak =
  fixes lt :: "'a \<Rightarrow> 'a \<Rightarrow> bool"
  assumes less_asym: "lt x y \<Longrightarrow> \<not> lt y x"
    and less_cotrans: "lt x z \<Longrightarrow> lt x y \<or> lt y z"
begin

lemma less_irrefl: "\<not> lt x x"
  using less_asym by blast

lemma less_trans: "lt x y \<Longrightarrow> lt y z \<Longrightarrow> lt x z"
  using less_cotrans less_asym by blast

lemma not_less_trans: "\<not> lt y x \<Longrightarrow> \<not> lt z y \<Longrightarrow> \<not> lt z x"
  using less_cotrans by blast

lemma sorted_insertStable:
  "sorted_wrt (\<lambda>a b. \<not> lt b a) xs \<Longrightarrow> sorted_wrt (\<lambda>a b. \<not> lt b a) (insertStable lt x xs)"
  by (induction xs) (auto dest: less_asym less_cotrans)

lemma sorted_sliceStable: "sorted_wrt (\<lambda>a b. \<not> lt b a) (sliceStable lt xs)"
  by (induction xs) (auto intro: sorted_insertStable)

lemma filter_insertStable:
  "(\<And>u v. lt u v \<Longrightarrow> \<not> (P u \<and> P v)) \<Longrightarrow>
     filter P (insertStable lt x xs) = (if P x then x # filter P xs else filter P xs)"
proof (induction xs)
  case Nil
  then show ?case by simp
next
  case (Cons y ys)
  then show ?case by (cases "P y"; cases "P x") auto
qed

text \<open>Stability: elements the order does not tell apart keep their order.\<close>

lemma stable_sliceStable:
  assumes "\<And>u v. lt u v \<Longrightarrow> \<not> (P u \<and> P v)"
  shows "filter P (sliceStable lt xs) = filter P xs"
  by (induction xs) (simp_all add: filter_insertStable [OF assms])

text \<open>The head of a sorted pool is a least element of it.\<close>

lemma sliceStable_least:
  assumes "sliceStable lt xs = y # ys" and "z \<in> set xs"
  shows "\<not> lt z y"
proof -
  from assms(2) have "z \<in> set (sliceStable lt xs)" by simp
  with assms(1) have "z = y \<or> z \<in> set ys" by simp
  moreover from sorted_sliceStable [of xs] assms(1) have "\<forall>w\<in>set ys. \<not> lt w y" by simp
  ultimately show ?thesis using less_irrefl by blast
qed

lemma strictly_sorted_unique:
  assumes "sorted_wrt lt xs" and "sorted_wrt lt ys" and "set xs = set ys"
  shows "xs = ys"
  using assms
proof (induction xs arbitrary: ys)
  case Nil
  then show ?case by simp
next
  case (Cons x xs)
  then obtain y ys' where ys: "ys = y # ys'" by (cases ys) auto
  have xy: "x = y"
  proof (rule ccontr)
    assume "x \<noteq> y"
    then have "x \<in> set ys'" "y \<in> set xs" using Cons.prems ys by auto
    then have "lt y x" "lt x y" using Cons.prems ys by auto
    then show False using less_asym by blast
  qed
  have "x \<notin> set xs" "x \<notin> set ys'" using Cons.prems ys xy less_irrefl by auto
  then have "set xs = set ys'" using Cons.prems(3) ys xy by auto
  then show ?case using Cons.IH [of ys'] Cons.prems ys xy by simp
qed

text \<open>
  Where the order tells all elements apart, the sorted list does not depend on the order
  the elements arrived in.
\<close>

lemma sliceStable_input_order:
  assumes "mset xs = mset ys" and "distinct xs"
    and comparable: "\<And>a b. a \<in> set xs \<Longrightarrow> b \<in> set xs \<Longrightarrow> a \<noteq> b \<Longrightarrow> lt a b \<or> lt b a"
  shows "sliceStable lt xs = sliceStable lt ys"
proof -
  have strict: "sorted_wrt lt (sliceStable lt zs)" if m: "mset zs = mset xs" for zs
  proof -
    have d: "distinct (sliceStable lt zs)"
      using assms(2) m by (metis mset_eq_imp_distinct_iff mset_sliceStable)
    have in_xs: "set (sliceStable lt zs) = set xs" using mset_eq_setD [OF m] by simp
    show ?thesis
      unfolding sorted_wrt_iff_nth_less
    proof (intro allI impI)
      fix i j assume ij: "i < j" "j < length (sliceStable lt zs)"
      let ?a = "sliceStable lt zs ! i" and ?b = "sliceStable lt zs ! j"
      have "?a \<noteq> ?b" using d ij by (simp add: nth_eq_iff_index_eq)
      moreover have "?a \<in> set xs" "?b \<in> set xs"
        using ij in_xs nth_mem [of i "sliceStable lt zs"] nth_mem [of j "sliceStable lt zs"] by auto
      ultimately have "lt ?a ?b \<or> lt ?b ?a" using comparable by blast
      moreover have "\<not> lt ?b ?a"
        using sorted_sliceStable [of zs] ij by (simp add: sorted_wrt_iff_nth_less)
      ultimately show "lt ?a ?b" by blast
    qed
  qed
  show ?thesis
  proof (rule strictly_sorted_unique)
    show "sorted_wrt lt (sliceStable lt xs)" by (rule strict) (rule refl)
    show "sorted_wrt lt (sliceStable lt ys)" by (rule strict) (rule assms(1) [symmetric])
    show "set (sliceStable lt xs) = set (sliceStable lt ys)"
      using mset_eq_setD [OF assms(1)] by simp
  qed
qed

end

subsection \<open>Three-way comparison functions\<close>

text \<open>
  A comparison function in Go's style: negative, zero or positive. The laws make it a total
  order whose ties are equalities, which is what gives a sort by it one possible result.
\<close>

locale three_way =
  fixes cmp :: "'a \<Rightarrow> 'a \<Rightarrow> int"
  assumes cmp_zero: "cmp x y = 0 \<longleftrightarrow> x = y"
    and cmp_flip: "cmp y x < 0 \<longleftrightarrow> 0 < cmp x y"
    and cmp_trans: "cmp x y < 0 \<Longrightarrow> cmp y z < 0 \<Longrightarrow> cmp x z < 0"
begin

lemma cmp_self [simp]: "cmp x x = 0"
  by (simp add: cmp_zero)

lemma cmp_total: "cmp x y < 0 \<or> x = y \<or> cmp y x < 0"
  using cmp_zero [of x y] cmp_flip [of y x] by linarith

lemma cmp_asym: "cmp x y < 0 \<Longrightarrow> \<not> cmp y x < 0"
  using cmp_flip [of y x] by linarith

text \<open>Sorting by a key that is compared three ways.\<close>

lemma strict_weak_on: "strict_weak (\<lambda>a b. cmp (f a) (f b) < 0)"
proof
  show "cmp (f x) (f y) < 0 \<Longrightarrow> \<not> cmp (f y) (f x) < 0" for x y
    by (rule cmp_asym)
  show "cmp (f x) (f z) < 0 \<Longrightarrow> cmp (f x) (f y) < 0 \<or> cmp (f y) (f z) < 0" for x y z
    using cmp_total [of "f x" "f y"] cmp_total [of "f y" "f z"] cmp_trans cmp_asym by metis
qed

end

text \<open>
  The lexicographic extension of a comparison to lists, shorter first where they agree: the
  shape of every loop that compares two sequences piece by piece.
\<close>

fun lex_cmp :: "('a \<Rightarrow> 'a \<Rightarrow> int) \<Rightarrow> 'a list \<Rightarrow> 'a list \<Rightarrow> int" where
  "lex_cmp cmp [] [] = 0"
| "lex_cmp cmp [] (y # ys) = -1"
| "lex_cmp cmp (x # xs) [] = 1"
| "lex_cmp cmp (x # xs) (y # ys) = (if cmp x y \<noteq> 0 then cmp x y else lex_cmp cmp xs ys)"

lemma lex_cmp_Nil: "lex_cmp cmp [] ys = (if ys = [] then 0 else -1)"
  by (cases ys) simp_all

context three_way
begin

lemma lex_cmp_zero: "lex_cmp cmp xs ys = 0 \<longleftrightarrow> xs = ys"
proof (induction xs arbitrary: ys)
  case Nil
  then show ?case by (cases ys) simp_all
next
  case (Cons x xs)
  then show ?case by (cases ys) (auto simp: cmp_zero)
qed

lemma lex_cmp_flip: "lex_cmp cmp ys xs < 0 \<longleftrightarrow> 0 < lex_cmp cmp xs ys"
proof (induction xs arbitrary: ys)
  case Nil
  then show ?case by (cases ys) simp_all
next
  case (Cons x xs)
  show ?case
  proof (cases ys)
    case Nil
    then show ?thesis by simp
  next
    case (Cons y ys')
    then show ?thesis
      using Cons.IH [of ys'] cmp_zero [of x y] cmp_zero [of y x] cmp_flip [of y x] by auto
  qed
qed

lemma lex_cmp_trans: "lex_cmp cmp xs ys < 0 \<Longrightarrow> lex_cmp cmp ys zs < 0 \<Longrightarrow> lex_cmp cmp xs zs < 0"
proof (induction xs arbitrary: ys zs)
  case Nil
  then show ?case by (cases ys; cases zs) simp_all
next
  case (Cons x xs)
  from Cons.prems obtain y ys' z zs' where ys: "ys = y # ys'" and zs: "zs = z # zs'"
    by (cases ys; cases zs) auto
  consider "cmp x y < 0" "cmp y z < 0" | "cmp x y < 0" "y = z" | "x = y" "cmp y z < 0"
    | "x = y" "y = z" "lex_cmp cmp xs ys' < 0" "lex_cmp cmp ys' zs' < 0"
    using Cons.prems ys zs cmp_zero by (auto split: if_splits)
  then show ?case
  proof cases
    case 1
    then have "cmp x z < 0" by (rule cmp_trans)
    then show ?thesis by (simp add: zs)
  next
    case 4
    then have "lex_cmp cmp xs zs' < 0" by (blast intro: Cons.IH)
    with 4 show ?thesis by (simp add: zs)
  qed (auto simp: zs)
qed

lemma lex_three_way: "three_way (lex_cmp cmp)"
proof
  show "lex_cmp cmp xs ys = 0 \<longleftrightarrow> xs = ys" for xs ys by (rule lex_cmp_zero)
  show "lex_cmp cmp ys xs < 0 \<longleftrightarrow> 0 < lex_cmp cmp xs ys" for xs ys by (rule lex_cmp_flip)
  show "lex_cmp cmp xs ys < 0 \<Longrightarrow> lex_cmp cmp ys zs < 0 \<Longrightarrow> lex_cmp cmp xs zs < 0" for xs ys zs
    by (rule lex_cmp_trans)
qed

end

sublocale three_way \<subseteq> ord: strict_weak "\<lambda>x y. cmp x y < 0"
  using strict_weak_on [of "\<lambda>x. x"] by simp

end
