(* ===== verification/KG_GoStrings.thy ===== *)
theory KG_GoStrings
  imports KG_Prelude
begin

text \<open>
  The functions of Go's \<^verbatim>\<open>strings\<close>, \<^verbatim>\<open>bytes\<close>, \<^verbatim>\<open>strconv\<close>, \<^verbatim>\<open>sort\<close> and \<^verbatim>\<open>fmt\<close>
  packages that the program calls, on byte strings (\<open>char list\<close>, one \<open>char\<close> per byte),
  with the facts the components need about them. White space is ASCII white space.
\<close>

subsection \<open>Prefixes and suffixes\<close>

fun hasPrefix :: "string \<Rightarrow> string \<Rightarrow> bool" where
  "hasPrefix s [] = True"
| "hasPrefix [] (p # ps) = False"
| "hasPrefix (c # s) (p # ps) = (c = p \<and> hasPrefix s ps)"

definition hasSuffix :: "string \<Rightarrow> string \<Rightarrow> bool" where
  "hasSuffix s q = hasPrefix (rev s) (rev q)"

definition trimPrefix :: "string \<Rightarrow> string \<Rightarrow> string" where
  "trimPrefix s p = (if hasPrefix s p then drop (length p) s else s)"

definition trimSuffix :: "string \<Rightarrow> string \<Rightarrow> string" where
  "trimSuffix s q = (if hasSuffix s q then take (length s - length q) s else s)"

lemma hasPrefix_iff: "hasPrefix s p \<longleftrightarrow> (\<exists>r. s = p @ r)"
  by (induction s p rule: hasPrefix.induct) auto

lemma hasPrefix_append [simp]: "hasPrefix (p @ r) p"
  by (auto simp: hasPrefix_iff)

lemma trimPrefix_append [simp]: "trimPrefix (p @ r) p = r"
  by (simp add: trimPrefix_def)

lemma hasSuffix_iff: "hasSuffix s q \<longleftrightarrow> (\<exists>r. s = r @ q)"
proof -
  have "(\<exists>r. rev s = rev q @ r) \<longleftrightarrow> (\<exists>r. s = r @ q)"
    by (metis rev_append rev_rev_ident)
  then show ?thesis by (simp add: hasSuffix_def hasPrefix_iff)
qed

subsection \<open>White space\<close>

definition isSpace :: "char \<Rightarrow> bool" where
  "isSpace c \<longleftrightarrow> c \<in> {CHR '' '', CHR 0x09, CHR 0x0A, CHR 0x0B, CHR 0x0C, CHR 0x0D}"

definition trimLeft :: "(char \<Rightarrow> bool) \<Rightarrow> string \<Rightarrow> string" where
  "trimLeft P s = dropWhile P s"

definition trimRight :: "(char \<Rightarrow> bool) \<Rightarrow> string \<Rightarrow> string" where
  "trimRight P s = rev (dropWhile P (rev s))"

definition trimSpace :: "string \<Rightarrow> string" where
  "trimSpace s = trimRight isSpace (trimLeft isSpace s)"

lemma trimSpace_Nil [simp]: "trimSpace [] = []"
  by (simp add: trimSpace_def trimLeft_def trimRight_def)

lemma dropWhile_head: "s = [] \<or> \<not> P (hd s) \<Longrightarrow> dropWhile P s = s"
  by (cases s) auto

lemma trimSpace_id:
  assumes "s = [] \<or> (\<not> isSpace (hd s) \<and> \<not> isSpace (last s))"
  shows "trimSpace s = s"
proof -
  have "dropWhile isSpace s = s"
    by (rule dropWhile_head) (use assms in blast)
  moreover have "dropWhile isSpace (rev s) = rev s"
    by (rule dropWhile_head) (use assms in \<open>auto simp: hd_rev\<close>)
  ultimately show ?thesis
    by (simp add: trimSpace_def trimLeft_def trimRight_def)
qed

lemma trimSpace_nonspace: "\<forall>c\<in>set s. \<not> isSpace c \<Longrightarrow> trimSpace s = s"
  by (rule trimSpace_id) (cases s; auto)

lemma trimSpace_idem [simp]: "trimSpace (trimSpace s) = trimSpace s"
proof (rule trimSpace_id)
  let ?u = "dropWhile isSpace (rev (dropWhile isSpace s))"
  have t: "trimSpace s = rev ?u"
    by (simp add: trimSpace_def trimLeft_def trimRight_def)
  obtain w where w: "rev (dropWhile isSpace s) = w @ ?u"
    by (metis takeWhile_dropWhile_id)
  then have d: "dropWhile isSpace s = rev ?u @ rev w"
    by (metis rev_append rev_rev_ident)
  have "?u \<noteq> [] \<Longrightarrow> \<not> isSpace (hd (rev ?u)) \<and> \<not> isSpace (hd ?u)"
    using hd_dropWhile [of isSpace s] hd_dropWhile [of isSpace "rev (dropWhile isSpace s)"] d
    by (metis Nil_is_append_conv Nil_is_rev_conv hd_append2)
  then show "trimSpace s = [] \<or> \<not> isSpace (hd (trimSpace s)) \<and> \<not> isSpace (last (trimSpace s))"
    unfolding t by (auto simp: last_rev)
qed

lemma trimSpace_end: "trimSpace v = v \<Longrightarrow> v \<noteq> [] \<Longrightarrow> \<not> isSpace (last v)"
proof
  assume v: "trimSpace v = v" "v \<noteq> []" "isSpace (last v)"
  have "trimSpace v = rev (dropWhile isSpace (rev (dropWhile isSpace v)))"
    by (simp add: trimSpace_def trimLeft_def trimRight_def)
  then have "rev v = dropWhile isSpace (rev (dropWhile isSpace v))"
    using v(1) by (metis rev_rev_ident)
  then show False
    using v(2,3) hd_dropWhile [of isSpace "rev (dropWhile isSpace v)"] by (metis Nil_is_rev_conv hd_rev)
qed

lemma length_trimSpace_le: "length (trimSpace s) \<le> length s"
  by (simp add: trimSpace_def trimLeft_def trimRight_def)
    (metis le_trans length_dropWhile_le length_rev)

text \<open>\<^verbatim>\<open>strings.Fields\<close>: the maximal runs of non-space characters.\<close>

function fields :: "string \<Rightarrow> string list" where
  "fields s =
     (let s' = dropWhile isSpace s in
      if s' = [] then []
      else takeWhile (\<lambda>c. \<not> isSpace c) s' # fields (dropWhile (\<lambda>c. \<not> isSpace c) s'))"
  by pat_completeness auto
termination
proof (relation "measure length", goal_cases)
  case (2 s x)
  have a: "length x \<le> length s"
    using 2 by (simp add: length_dropWhile_le)
  obtain c cs where x: "x = c # cs" using 2(2) by (meson neq_Nil_conv)
  have "\<not> isSpace c" using hd_dropWhile [of isSpace s] 2 x by (metis list.sel(1))
  then have "length (dropWhile (\<lambda>c. \<not> isSpace c) x) \<le> length cs"
    by (simp add: x length_dropWhile_le)
  then show ?case using a x by simp
qed simp

declare fields.simps [simp del]

subsection \<open>Comparison and sorting of strings\<close>

definition strCompare :: "string \<Rightarrow> string \<Rightarrow> int" where
  "strCompare a b = (if a < b then -1 else if a = b then 0 else 1)"

lemma strCompare_less_iff: "strCompare a b < 0 \<longleftrightarrow> a < b"
  by (simp add: strCompare_def)

interpretation str: three_way strCompare
  by unfold_locales (auto simp: strCompare_def split: if_splits)

text \<open>\<^verbatim>\<open>sort.Strings\<close>.\<close>

definition sortStrings :: "string list \<Rightarrow> string list" where
  "sortStrings xs = sliceStable (\<lambda>a b. a < b) xs"

lemma sortStrings_set [simp]: "set (sortStrings xs) = set xs"
  by (simp add: sortStrings_def)

lemma sortStrings_mset [simp]: "mset (sortStrings xs) = mset xs"
  by (simp add: sortStrings_def)

lemma sortStrings_sorted: "sorted (sortStrings xs)"
proof -
  have "sorted_wrt (\<lambda>a b. \<not> strCompare b a < 0) (sliceStable (\<lambda>a b. strCompare a b < 0) xs)"
    by (rule str.ord.sorted_sliceStable)
  then show ?thesis
    by (simp add: sortStrings_def strCompare_less_iff sorted_wrt_iff_nth_less not_less
        sorted_iff_nth_mono_less)
qed

lemma sortStrings_eq_sort: "sortStrings xs = sort xs"
  by (rule properties_for_sort [symmetric]) (simp_all add: sortStrings_sorted)

text \<open>The order in which a Go map is ranged over does not reach a sorted slice.\<close>

lemma sortStrings_perm: "mset xs = mset ys \<Longrightarrow> sortStrings xs = sortStrings ys"
  by (simp add: sortStrings_eq_sort) (metis mset_sort sort_key_id_if_sorted sorted_sort properties_for_sort)

subsection \<open>Joining, splitting, replacing\<close>

fun joinWith :: "string \<Rightarrow> string list \<Rightarrow> string" where
  "joinWith sep [] = []"
| "joinWith sep [x] = x"
| "joinWith sep (x # y # ys) = x @ sep @ joinWith sep (y # ys)"

fun splitOn :: "char \<Rightarrow> string \<Rightarrow> string list" where
  "splitOn c [] = [[]]"
| "splitOn c (x # xs) =
     (if x = c then [] # splitOn c xs
      else case splitOn c xs of [] \<Rightarrow> [[x]] | y # ys \<Rightarrow> (x # y) # ys)"

lemma splitOn_nonempty [simp]: "splitOn c s \<noteq> []"
  by (induction s) (auto split: list.splits)

lemma splitOn_free: "c \<notin> set x \<Longrightarrow> splitOn c x = [x]"
  by (induction x) auto

lemma splitOn_append: "c \<notin> set x \<Longrightarrow> splitOn c (x @ c # s) = x # splitOn c s"
  by (induction x) auto

lemma splitOn_joinWith:
  "xs \<noteq> [] \<Longrightarrow> \<forall>x\<in>set xs. c \<notin> set x \<Longrightarrow> splitOn c (joinWith [c] xs) = xs"
  by (induction "[c]" xs rule: joinWith.induct) (auto simp: splitOn_free splitOn_append)

text \<open>\<^verbatim>\<open>strings.Cut\<close> at a byte: what is before and after its first occurrence.\<close>

definition cutAt :: "char \<Rightarrow> string \<Rightarrow> (string \<times> string) option" where
  "cutAt c s =
     (if c \<in> set s then Some (takeWhile (\<lambda>x. x \<noteq> c) s, tl (dropWhile (\<lambda>x. x \<noteq> c) s)) else None)"

lemma cutAt_append: "c \<notin> set k \<Longrightarrow> cutAt c (k @ c # v) = Some (k, v)"
  by (induction k) (auto simp: cutAt_def)

text \<open>\<^verbatim>\<open>strings.ReplaceAll\<close> of a single byte.\<close>

definition replaceByte :: "char \<Rightarrow> string \<Rightarrow> string \<Rightarrow> string" where
  "replaceByte c r s = concat (map (\<lambda>x. if x = c then r else [x]) s)"

lemma replaceByte_simps [simp]:
  "replaceByte c r [] = []"
  "replaceByte c r (x # xs) = (if x = c then r else [x]) @ replaceByte c r xs"
  by (simp_all add: replaceByte_def)

text \<open>\<^verbatim>\<open>strings.LastIndex\<close> of a byte: \<open>None\<close> is Go's \<open>-1\<close>.\<close>

fun lastIndex :: "char \<Rightarrow> string \<Rightarrow> nat option" where
  "lastIndex c [] = None"
| "lastIndex c (x # xs) =
     (case lastIndex c xs of Some i \<Rightarrow> Some (Suc i) | None \<Rightarrow> if x = c then Some 0 else None)"

lemma lastIndex_None: "lastIndex c s = None \<longleftrightarrow> c \<notin> set s"
  by (induction s) (auto split: option.splits)

lemma lastIndex_append_free: "c \<notin> set b \<Longrightarrow> lastIndex c (a @ c # b) = Some (length a)"
proof (induction a)
  case Nil
  then have "lastIndex c b = None" by (simp add: lastIndex_None)
  then show ?case by simp
qed simp

definition toLower :: "string \<Rightarrow> string" where
  "toLower s = map (\<lambda>c. if CHR ''A'' \<le> c \<and> c \<le> CHR ''Z'' then char_of (of_char c + 32 :: nat) else c) s"

subsection \<open>Numbers\<close>

definition asciiDigit :: "char \<Rightarrow> bool" where
  "asciiDigit c \<longleftrightarrow> CHR ''0'' \<le> c \<and> c \<le> CHR ''9''"

definition digitVal :: "char \<Rightarrow> nat" where
  "digitVal c = of_char c - 48"

definition digitChar :: "nat \<Rightarrow> char" where
  "digitChar n = char_of (48 + n)"

definition decVal :: "string \<Rightarrow> nat" where
  "decVal s = foldl (\<lambda>a c. 10 * a + digitVal c) 0 s"

fun showNat :: "nat \<Rightarrow> string" where
  "showNat n = (if n < 10 then [digitChar n] else showNat (n div 10) @ [digitChar (n mod 10)])"

declare showNat.simps [simp del]

text \<open>\<^verbatim>\<open>strconv.Itoa\<close>, and the \<^verbatim>\<open>%d\<close> verb.\<close>

definition itoa :: "int \<Rightarrow> string" where
  "itoa i = (if i < 0 then CHR ''-'' # showNat (nat (- i)) else showNat (nat i))"

text \<open>
  \<^verbatim>\<open>strconv.ParseInt(s, 10, bits)\<close>: an optional sign, decimal digits and nothing else,
  and \<open>None\<close> for a syntax or a range error. \<^verbatim>\<open>strconv.Atoi\<close> is the 64-bit case.
\<close>

definition parseInt :: "nat \<Rightarrow> string \<Rightarrow> int option" where
  "parseInt bits s =
     (let neg = hasPrefix s ''-'';
          ds = (if neg \<or> hasPrefix s ''+'' then tl s else s);
          v = (if neg then - int (decVal ds) else int (decVal ds))
      in if ds = [] \<or> \<not> list_all asciiDigit ds then None
         else if - (2 ^ (bits - 1)) \<le> v \<and> v < 2 ^ (bits - 1) then Some v else None)"

lemma digitVal_digitChar [simp]: "n < 10 \<Longrightarrow> digitVal (digitChar n) = n"
  by (simp add: digitVal_def digitChar_def)

lemma asciiDigit_digitChar [simp]: "n < 10 \<Longrightarrow> asciiDigit (digitChar n)"
  by (simp add: asciiDigit_def digitChar_def less_eq_char_def)

lemma asciiDigit_iff: "asciiDigit c \<longleftrightarrow> (\<exists>n<10. c = digitChar n)"
proof
  assume "asciiDigit c"
  then have b: "48 \<le> (of_char c :: nat)" "(of_char c :: nat) \<le> 57"
    by (simp_all add: asciiDigit_def less_eq_char_def)
  then have "c = digitChar (of_char c - 48)"
    by (simp add: digitChar_def)
  moreover have "of_char c - 48 < (10::nat)" using b by linarith
  ultimately show "\<exists>n<10. c = digitChar n" by blast
qed auto

lemma digitVal_less: "asciiDigit c \<Longrightarrow> digitVal c < 10"
  by (auto simp: asciiDigit_iff)

lemma digitVal_inj: "asciiDigit c \<Longrightarrow> asciiDigit d \<Longrightarrow> digitVal c = digitVal d \<Longrightarrow> c = d"
  by (auto simp: asciiDigit_iff)

lemma digitVal_mono: "asciiDigit c \<Longrightarrow> asciiDigit d \<Longrightarrow> c < d \<longleftrightarrow> digitVal c < digitVal d"
  by (auto simp: asciiDigit_def digitVal_def less_char_def less_eq_char_def)

lemma decVal_Nil [simp]: "decVal [] = 0"
  by (simp add: decVal_def)

lemma decVal_snoc [simp]: "decVal (s @ [c]) = 10 * decVal s + digitVal c"
  by (simp add: decVal_def)

lemma showNat_nonempty [simp]: "showNat n \<noteq> []"
  by (subst showNat.simps) simp

lemma showNat_digits: "list_all asciiDigit (showNat n)"
proof (induction n rule: showNat.induct)
  case (1 n)
  then show ?case by (subst showNat.simps) auto
qed

lemma decVal_showNat [simp]: "decVal (showNat n) = n"
proof (induction n rule: showNat.induct)
  case (1 n)
  show ?case
  proof (cases "n < 10")
    case True
    then have "showNat n = [] @ [digitChar n]" by (subst showNat.simps) simp
    then show ?thesis using True by (simp only: decVal_snoc decVal_Nil) simp
  next
    case False
    with 1 show ?thesis by (subst showNat.simps) simp
  qed
qed

lemma showNat_head: "0 < n \<Longrightarrow> hd (showNat n) \<noteq> CHR ''0''"
proof (induction n rule: showNat.induct)
  case (1 n)
  show ?case
  proof (cases "n < 10")
    case True
    then have "digitVal (digitChar n) = n" by simp
    with True 1(2) have "digitChar n \<noteq> CHR ''0''" by (auto simp: digitVal_def)
    with True show ?thesis by (subst showNat.simps) simp
  next
    case False
    with 1 have "hd (showNat (n div 10)) \<noteq> CHR ''0''" by simp
    with False show ?thesis by (subst showNat.simps) simp
  qed
qed

lemma showNat_inj [simp]: "showNat m = showNat n \<longleftrightarrow> m = n"
  by (metis decVal_showNat)

lemma itoa_nonspace: "c \<in> set (itoa i) \<Longrightarrow> \<not> isSpace c"
proof -
  have "c \<in> set (showNat n) \<Longrightarrow> \<not> isSpace c" for n
    using showNat_digits [of n] by (auto simp: list_all_iff asciiDigit_def isSpace_def)
  then show "c \<in> set (itoa i) \<Longrightarrow> \<not> isSpace c"
    by (auto simp: itoa_def isSpace_def split: if_splits)
qed

lemma parseInt_itoa:
  assumes "- (2 ^ (bits - 1)) \<le> i" and "i < 2 ^ (bits - 1)"
  shows "parseInt bits (itoa i) = Some i"
proof (cases "i < 0")
  case True
  then show ?thesis
    using assms showNat_digits [of "nat (- i)"] by (simp add: parseInt_def itoa_def)
next
  case False
  obtain c cs where s: "showNat (nat i) = c # cs" by (cases "showNat (nat i)") auto
  have "asciiDigit c" using showNat_digits [of "nat i"] s by simp
  then have "c \<noteq> CHR ''-''" "c \<noteq> CHR ''+''" by (auto simp: asciiDigit_def less_eq_char_def)
  then have "\<not> hasPrefix (showNat (nat i)) ''-''" "\<not> hasPrefix (showNat (nat i)) ''+''"
    by (simp_all add: s)
  then show ?thesis
    using False assms showNat_digits [of "nat i"] by (simp add: parseInt_def itoa_def)
qed

subsection \<open>Quoting\<close>

definition hexDigit :: "nat \<Rightarrow> char" where
  "hexDigit n = (if n < 10 then char_of (48 + n) else char_of (87 + n))"

text \<open>
  The \<^verbatim>\<open>%q\<close> verb (\<^verbatim>\<open>strconv.Quote\<close>) on printable text: the quote and the backslash are
  escaped, control bytes are written as Go writes them, and other bytes are kept.
\<close>

definition goQuoteByte :: "char \<Rightarrow> string" where
  "goQuoteByte c =
     (if c = CHR 0x22 then [CHR 0x5C, CHR 0x22]
      else if c = CHR 0x5C then [CHR 0x5C, CHR 0x5C]
      else if c = CHR 0x07 then [CHR 0x5C, CHR ''a'']
      else if c = CHR 0x08 then [CHR 0x5C, CHR ''b'']
      else if c = CHR 0x0C then [CHR 0x5C, CHR ''f'']
      else if c = CHR 0x0A then [CHR 0x5C, CHR ''n'']
      else if c = CHR 0x0D then [CHR 0x5C, CHR ''r'']
      else if c = CHR 0x09 then [CHR 0x5C, CHR ''t'']
      else if c = CHR 0x0B then [CHR 0x5C, CHR ''v'']
      else if of_char c < (32::nat) \<or> c = CHR 0x7F
           then [CHR 0x5C, CHR ''x'', hexDigit (of_char c div 16), hexDigit (of_char c mod 16)]
      else [c])"

definition goQuote :: "string \<Rightarrow> string" where
  "goQuote s = CHR 0x22 # concat (map goQuoteByte s) @ [CHR 0x22]"

end
