(* ===== verification/KG_ApiTypes.thy ===== *)
theory KG_ApiTypes
  imports KG_GoStrings "HOL-Library.AList"
begin

text \<open>
  The objects the controllers read and write: the API types of
  \<^verbatim>\<open>api/v1alpha1\<close>, the fields of the Cluster API and core objects that kg uses, and the
  helpers of \<^verbatim>\<open>internal/controller/helpers.go\<close>. A pointer is an \<open>option\<close>, a map an
  association list, a struct a record with the fields in the source's order. What the
  Kubernetes libraries compute (conditions, finalizers, selectors, pausing) is the
  parameter \<open>k8sLib\<close>; the laws it is used under are \<open>conditionsLib\<close> and
  \<open>finalizersLib\<close>.
\<close>

subsection \<open>Constants of the API\<close>

definition ClusterFinalizer :: string where
  "ClusterFinalizer = ''hostcluster.infrastructure.kgenesis.io/finalizer''"

definition MachineFinalizer :: string where
  "MachineFinalizer = ''hostmachine.infrastructure.kgenesis.io/finalizer''"

definition HostFinalizer :: string where
  "HostFinalizer = ''host.infrastructure.kgenesis.io/finalizer''"

definition RoleLabel :: string where
  "RoleLabel = ''kgenesis.io/role''"

definition ClaimedByLabel :: string where
  "ClaimedByLabel = ''kgenesis.io/claimed-by''"

definition ClusterNameLabel :: string where
  "ClusterNameLabel = ''kgenesis.io/cluster-name''"

definition RoleControlPlane :: string where
  "RoleControlPlane = ''control-plane''"

definition RoleWorker :: string where
  "RoleWorker = ''worker''"

datatype conditionType =
    HostReachable
  | HostMachineProvisioned
  | HostMachineHostClaimed
  | HostReset
  | Ready
  | OtherCondition string

datatype conditionStatus = ConditionTrue | ConditionFalse | ConditionUnknown

datatype reason =
    ReasonWaitingForCluster
  | ReasonWaitingForBootstrapData
  | ReasonNoMatchingHost
  | ReasonHostClaimed
  | ReasonBootstrapFailed
  | ReasonBootstrapSucceeded
  | ReasonProbeFailed
  | ReasonProbeSucceeded
  | ReasonDeleting
  | ReasonResetSucceeded
  | ReasonResetIncomplete
  | ReasonHostUnreachable
  | MissingControlPlaneEndpoint
  | ControlPlaneEndpointSet
  | OtherReason string

lemma claim_labels_differ [simp]: "ClaimedByLabel \<noteq> ClusterNameLabel" "ClusterNameLabel \<noteq> ClaimedByLabel"
  by (simp_all add: ClaimedByLabel_def ClusterNameLabel_def)

subsection \<open>Object metadata, conditions\<close>

type_synonym labels = "(string \<times> string) list"

text \<open>
  \<^verbatim>\<open>metav1.ObjectMeta\<close>, the fields the program reads. An owner reference is its
  \<^verbatim>\<open>(apiVersion, kind, name)\<close>; a \<^verbatim>\<open>DeletionTimestamp\<close> that is zero is \<open>None\<close>.
\<close>

record objectMeta =
  mNamespace :: string
  mName :: string
  mUID :: string
  mResourceVersion :: string
  mGeneration :: int
  mLabels :: labels
  mAnnotations :: labels
  mFinalizers :: "string list"
  mOwnerRefs :: "(string \<times> string \<times> string) list"
  mDeletionTimestamp :: "int option"

record condition =
  cdType :: conditionType
  cdStatus :: conditionStatus
  cdReason :: reason
  cdMessage :: string
  cdObservedGeneration :: int

text \<open>\<^verbatim>\<open>types.NamespacedName\<close> and its \<^verbatim>\<open>String\<close>.\<close>

type_synonym objectKey = "string \<times> string"

definition keyString :: "objectKey \<Rightarrow> string" where
  "keyString k = fst k @ ''/'' @ snd k"

text \<open>\<^verbatim>\<open>m[key]\<close> of a \<^verbatim>\<open>map[string]string\<close>: the zero value when the key is absent.\<close>

definition mapGet :: "labels \<Rightarrow> string \<Rightarrow> string" where
  "mapGet m k = (case map_of m k of Some v \<Rightarrow> v | None \<Rightarrow> [])"

lemma mapGet_update: "mapGet (AList.update k v m) k' = (if k = k' then v else mapGet m k')"
  by (simp add: mapGet_def update_conv')

lemma mapGet_delete: "mapGet (AList.delete k m) k' = (if k = k' then [] else mapGet m k')"
  by (simp add: mapGet_def delete_conv')

subsection \<open>Host\<close>

datatype hostPhase =
    HostPhaseUnset
  | HostPhasePending
  | HostPhaseAvailable
  | HostPhaseClaimed
  | HostPhaseProvisioned
  | HostPhaseUnreachable
  | HostPhaseReleasing

record hostSpec =
  hsAddress :: string
  hsPort :: int
  hsUser :: string
  hsSSHSecretRef :: string
  hsHostKeyPolicy :: string
  hsPublicKey :: string
  hsUnhealthy :: bool

record hostSystemInfo =
  siHostname :: string
  siOSImage :: string
  siKernelVersion :: string
  siArchitecture :: string
  siCPUCores :: int
  siMemoryMB :: int
  siContainerRuntime :: string

record objectReference =
  orAPIVersion :: string
  orKind :: string
  orNamespace :: string
  orName :: string
  orUID :: string

record hostStatus =
  stPhase :: hostPhase
  stClaimRef :: "objectReference option"
  stObservedPublicKey :: string
  stLastProbeTime :: "int option"
  stSystemInfo :: "hostSystemInfo option"
  stConditions :: "condition list"

record host =
  hMeta :: objectMeta
  hSpec :: hostSpec
  hStatus :: hostStatus

definition HostKeyPolicyStrict :: string where "HostKeyPolicyStrict = ''Strict''"
definition HostKeyPolicyTOFU :: string where "HostKeyPolicyTOFU = ''TOFU''"
definition HostKeyPolicyInsecure :: string where "HostKeyPolicyInsecure = ''Insecure''"

abbreviation hName :: "host \<Rightarrow> string" where
  "hName h \<equiv> mName (hMeta h)"

abbreviation hLabel :: "host \<Rightarrow> string \<Rightarrow> string" where
  "hLabel h l \<equiv> mapGet (mLabels (hMeta h)) l"

subsection \<open>HostMachine, HostCluster\<close>

text \<open>A \<^verbatim>\<open>matchExpressions\<close> entry: key, operator, values.\<close>

record hostSelector =
  slMatchLabels :: labels
  slMatchExpressions :: "(string \<times> string \<times> string list) list"

record hostMachineSpec =
  hmsProviderID :: "string option"
  hmsHostSelector :: "hostSelector option"

datatype addressType = MachineInternalIP | MachineHostName

record hostMachineStatus =
  hmtProvisioned :: "bool option"
  hmtHostRef :: "string option"
  hmtAddresses :: "(addressType \<times> string) list"
  hmtBootstrapDataChecksum :: string
  hmtConditions :: "condition list"

record hostMachine =
  hmMeta :: objectMeta
  hmSpec :: hostMachineSpec
  hmStatus :: hostMachineStatus

text \<open>A template stamps HostMachines: its body is a HostMachine's metadata and spec.\<close>

record hostMachineTemplate =
  tmMeta :: objectMeta
  tmLabels :: labels
  tmSpec :: hostMachineSpec

record hostCluster =
  hcMeta :: objectMeta
  hcEndpointHost :: string
  hcEndpointPort :: int
  hcProvisioned :: "bool option"
  hcConditions :: "condition list"

subsection \<open>Cluster API and core objects, as far as kg reads them\<close>

record machine =
  mcMeta :: objectMeta
  mcDataSecretName :: "string option"
  mcInfraKind :: string
  mcInfraName :: string

record cluster =
  clMeta :: objectMeta
  clPaused :: "bool option"
  clInfraKind :: string
  clInfraName :: string
  clInfraProvisioned :: "bool option"

record secret =
  scMeta :: objectMeta
  scData :: "(string \<times> string) list"

subsection \<open>The Kubernetes libraries, as a parameter\<close>

record k8sLib =
  isPausedMachine :: "cluster \<Rightarrow> hostMachine \<Rightarrow> bool"
  isPausedCluster :: "cluster \<Rightarrow> hostCluster \<Rightarrow> bool"
  labelSelectorAsSelector :: "hostSelector \<Rightarrow> (labels \<Rightarrow> bool) result"
  setStatusCondition :: "condition list \<Rightarrow> condition \<Rightarrow> condition list"
  containsFinalizer :: "string list \<Rightarrow> string \<Rightarrow> bool"
  addFinalizer :: "string list \<Rightarrow> string \<Rightarrow> string list"
  removeFinalizer :: "string list \<Rightarrow> string \<Rightarrow> string list"

definition findCondition :: "condition list \<Rightarrow> conditionType \<Rightarrow> condition option" where
  "findCondition cs t = find (\<lambda>c. cdType c = t) cs"

text \<open>
  \<^verbatim>\<open>meta.SetStatusCondition\<close>: the condition of that type is the one given, the
  conditions of the other types stay.
\<close>

definition conditionsLib :: "k8sLib \<Rightarrow> bool" where
  "conditionsLib K \<longleftrightarrow> (\<forall>cs c t. findCondition (setStatusCondition K cs c) t =
     (if t = cdType c then Some c else findCondition cs t))"

text \<open>\<^verbatim>\<open>controllerutil\<close>: a finalizer is there after it is added, gone after it is removed.\<close>

definition finalizersLib :: "k8sLib \<Rightarrow> bool" where
  "finalizersLib K \<longleftrightarrow>
     (\<forall>fs f g. containsFinalizer K (addFinalizer K fs f) g = (f = g \<or> containsFinalizer K fs g)) \<and>
     (\<forall>fs f g. containsFinalizer K (removeFinalizer K fs f) g = (f \<noteq> g \<and> containsFinalizer K fs g))"

text \<open>An instance of the library that computes.\<close>

definition exampleK8s :: k8sLib where
  "exampleK8s = \<lparr>
     isPausedMachine = (\<lambda>c m. clPaused c = Some True),
     isPausedCluster = (\<lambda>c m. clPaused c = Some True),
     labelSelectorAsSelector = (\<lambda>sel. Inr (\<lambda>ls. list_all (\<lambda>(k, v). map_of ls k = Some v) (slMatchLabels sel))),
     setStatusCondition = (\<lambda>cs c. c # filter (\<lambda>d. cdType d \<noteq> cdType c) cs),
     containsFinalizer = (\<lambda>fs f. f \<in> set fs),
     addFinalizer = (\<lambda>fs f. List.insert f fs),
     removeFinalizer = (\<lambda>fs f. filter (\<lambda>g. g \<noteq> f) fs)\<rparr>"

lemma exampleK8s_ok: "conditionsLib exampleK8s" "finalizersLib exampleK8s"
proof -
  have "find (\<lambda>d. cdType d = u) (filter (\<lambda>d. cdType d \<noteq> t) cs) = find (\<lambda>d. cdType d = u) cs" if "u \<noteq> t" for u t cs
    using that by (induction cs) auto
  then show "conditionsLib exampleK8s"
    by (auto simp: conditionsLib_def exampleK8s_def findCondition_def)
  show "finalizersLib exampleK8s"
    by (auto simp: finalizersLib_def exampleK8s_def)
qed

subsection \<open>helpers.go\<close>

definition conditionMessageLimit :: nat where
  "conditionMessageLimit = 512"

definition setCondition ::
  "k8sLib \<Rightarrow> condition list \<Rightarrow> conditionType \<Rightarrow> conditionStatus \<Rightarrow> reason \<Rightarrow> string \<Rightarrow> int \<Rightarrow> condition list" where
  "setCondition K conditions condType status rsn message generation =
     setStatusCondition K conditions
       \<lparr>cdType = condType, cdStatus = status, cdReason = rsn, cdMessage = message,
        cdObservedGeneration = generation\<rparr>"

definition truncateMsg :: "string \<Rightarrow> nat \<Rightarrow> string" where
  "truncateMsg s limit = (if length s \<le> limit then s else take (limit - 3) s @ ''...'')"

lemma length_truncateMsg: "3 \<le> limit \<Longrightarrow> length (truncateMsg s limit) \<le> limit"
  by (auto simp: truncateMsg_def)

lemma findCondition_setCondition:
  assumes "conditionsLib K"
  shows "findCondition (setCondition K cs t s r m g) t' =
    (if t' = t then Some \<lparr>cdType = t, cdStatus = s, cdReason = r, cdMessage = m, cdObservedGeneration = g\<rparr>
     else findCondition cs t')"
  using assms by (simp add: conditionsLib_def setCondition_def)

text \<open>\<^verbatim>\<open>ptrTo\<close> reads an optional flag.\<close>

definition ptrTo :: "bool option \<Rightarrow> bool" where
  "ptrTo b \<longleftrightarrow> b = Some True"

text \<open>\<^verbatim>\<open>client.IgnoreNotFound\<close>: what a reconcile returns when its own object is gone.\<close>

definition ignoreNotFound :: "goerror \<Rightarrow> goerror option" where
  "ignoreNotFound e = (if ekind e = ErrNotFound then None else Some e)"

end
