(* ===== verification/KG_Prog.thy ===== *)
theory KG_Prog
  imports KG_ApiTypes
begin

text \<open>
  Programs that talk to the outside. The controllers and the provisioner do their work
  through calls to the API server and to a host over SSH; everything between two calls is a
  pure computation on values the program holds. \<open>cmd\<close> is that structure: a program
  returns, or makes one call and goes on with the reply; \<open>prog\<close> are the programs of the
  controllers and of the SSH layer, and the command line has its own set of calls. \<open>replay\<close> runs a program against a
  recorded list of calls and replies, so a statement about every such list is a statement
  about every behaviour of the API server, of the hosts and of the other controllers that
  interleave with the program. \<open>cutoff\<close> is a run that stops after any call, as a crash or a
  restart stops it.
\<close>

subsection \<open>Calls and replies\<close>

text \<open>
  \<^verbatim>\<open>ssh.NewClientConn\<close> hands the server's key to the host key callback during the key
  exchange and authenticates the user only after the callback returned nil, so it is two
  calls here: \<open>KeyExchange\<close> and \<open>UserAuth\<close>. A connection is an opaque number. \<open>Exec\<close> is one
  \<^verbatim>\<open>session.Run\<close> with the session opened for it.
\<close>

record sshAuth =
  auUser :: string
  auSigner :: "string option"
  auPassword :: "string option"

datatype req =
    GetHost objectKey
  | GetHostMachine objectKey
  | GetHostCluster objectKey
  | GetSecret objectKey
  | GetOwnerMachine objectMeta
  | GetOwnerCluster objectMeta
  | GetClusterFromMetadata objectMeta
  | ListHosts string
  | ListMachines string string
  | UpdateHost host
  | UpdateHostStatus host
  | NewPatchHelper
  | PatchHost host host
  | PatchHostMachine hostMachine hostMachine
  | PatchHostCluster hostCluster hostCluster
  | Now
  | DialTCP string
  | KeyExchange nat
  | UserAuth nat sshAuth
  | Exec nat string "string option"
  | CloseConn nat

text \<open>
  How a remote command ended: the session could not be opened, the context ended first, or
  the command came back, with the exit status 0, with another exit status (and the text of the
  library's error for it), or without one.
\<close>

datatype runEnd = RunOk | RunExit int string | RunErr goerror

datatype execReply =
    NoSession goerror
  | CtxDone string string goerror
  | Done string string runEnd

datatype resp =
    RHost "host result"
  | RHostMachine "hostMachine result"
  | RHostCluster "hostCluster result"
  | RSecret "secret result"
  | RMachine "machine option result"
  | RCluster "cluster option result"
  | RHosts "host list result"
  | RMachines "machine list result"
  | RUnit "unit result"
  | RTime int
  | RConn "nat result"
  | RKey "string result"
  | RExec execReply

subsection \<open>Programs\<close>

text \<open>\<open>Stuck\<close> is a reply of the wrong type, which Go's types rule out.\<close>

datatype ('q, 'r, 'a) cmd =
    Ret 'a
  | Stuck
  | Call 'q "'r \<Rightarrow> ('q, 'r, 'a) cmd"

type_synonym 'a prog = "(req, resp, 'a) cmd"

primrec bind :: "('q, 'r, 'a) cmd \<Rightarrow> ('a \<Rightarrow> ('q, 'r, 'b) cmd) \<Rightarrow> ('q, 'r, 'b) cmd" where
  "bind (Ret a) f = f a"
| "bind Stuck f = Stuck"
| "bind (Call q k) f = Call q (\<lambda>r. bind (k r) f)"

text \<open>Go on with a value, return early with an error.\<close>

definition bindE :: "('q, 'r, 'a result) cmd \<Rightarrow> ('a \<Rightarrow> ('q, 'r, 'b result) cmd) \<Rightarrow> ('q, 'r, 'b result) cmd" where
  "bindE p f = bind p (\<lambda>r. case r of Inl e \<Rightarrow> Ret (Inl e) | Inr a \<Rightarrow> f a)"

subsubsection \<open>The calls, typed\<close>

definition getHost :: "objectKey \<Rightarrow> host result prog" where
  "getHost k = Call (GetHost k) (\<lambda>r. case r of RHost x \<Rightarrow> Ret x | _ \<Rightarrow> Stuck)"

definition getHostMachine :: "objectKey \<Rightarrow> hostMachine result prog" where
  "getHostMachine k = Call (GetHostMachine k) (\<lambda>r. case r of RHostMachine x \<Rightarrow> Ret x | _ \<Rightarrow> Stuck)"

definition getHostCluster :: "objectKey \<Rightarrow> hostCluster result prog" where
  "getHostCluster k = Call (GetHostCluster k) (\<lambda>r. case r of RHostCluster x \<Rightarrow> Ret x | _ \<Rightarrow> Stuck)"

definition getSecret :: "objectKey \<Rightarrow> secret result prog" where
  "getSecret k = Call (GetSecret k) (\<lambda>r. case r of RSecret x \<Rightarrow> Ret x | _ \<Rightarrow> Stuck)"

definition getOwnerMachine :: "objectMeta \<Rightarrow> machine option result prog" where
  "getOwnerMachine m = Call (GetOwnerMachine m) (\<lambda>r. case r of RMachine x \<Rightarrow> Ret x | _ \<Rightarrow> Stuck)"

definition getOwnerCluster :: "objectMeta \<Rightarrow> cluster option result prog" where
  "getOwnerCluster m = Call (GetOwnerCluster m) (\<lambda>r. case r of RCluster x \<Rightarrow> Ret x | _ \<Rightarrow> Stuck)"

definition getClusterFromMetadata :: "objectMeta \<Rightarrow> cluster option result prog" where
  "getClusterFromMetadata m = Call (GetClusterFromMetadata m) (\<lambda>r. case r of RCluster x \<Rightarrow> Ret x | _ \<Rightarrow> Stuck)"

definition listHosts :: "string \<Rightarrow> host list result prog" where
  "listHosts ns = Call (ListHosts ns) (\<lambda>r. case r of RHosts x \<Rightarrow> Ret x | _ \<Rightarrow> Stuck)"

definition listMachines :: "string \<Rightarrow> string \<Rightarrow> machine list result prog" where
  "listMachines ns cl = Call (ListMachines ns cl) (\<lambda>r. case r of RMachines x \<Rightarrow> Ret x | _ \<Rightarrow> Stuck)"

text \<open>
  \<^verbatim>\<open>Update\<close> and \<^verbatim>\<open>Status().Update\<close> decode the server's answer into the object they were
  given: the reply carries the object as it is in memory afterwards.
\<close>

definition updateHost :: "host \<Rightarrow> host result prog" where
  "updateHost h = Call (UpdateHost h) (\<lambda>r. case r of RHost x \<Rightarrow> Ret x | _ \<Rightarrow> Stuck)"

definition updateHostStatus :: "host \<Rightarrow> host result prog" where
  "updateHostStatus h = Call (UpdateHostStatus h) (\<lambda>r. case r of RHost x \<Rightarrow> Ret x | _ \<Rightarrow> Stuck)"

definition newPatchHelper :: "unit result prog" where
  "newPatchHelper = Call NewPatchHelper (\<lambda>r. case r of RUnit x \<Rightarrow> Ret x | _ \<Rightarrow> Stuck)"

definition patchHost :: "host \<Rightarrow> host \<Rightarrow> unit result prog" where
  "patchHost a b = Call (PatchHost a b) (\<lambda>r. case r of RUnit x \<Rightarrow> Ret x | _ \<Rightarrow> Stuck)"

definition patchHostMachine :: "hostMachine \<Rightarrow> hostMachine \<Rightarrow> unit result prog" where
  "patchHostMachine a b = Call (PatchHostMachine a b) (\<lambda>r. case r of RUnit x \<Rightarrow> Ret x | _ \<Rightarrow> Stuck)"

definition patchHostCluster :: "hostCluster \<Rightarrow> hostCluster \<Rightarrow> unit result prog" where
  "patchHostCluster a b = Call (PatchHostCluster a b) (\<lambda>r. case r of RUnit x \<Rightarrow> Ret x | _ \<Rightarrow> Stuck)"

definition timeNow :: "int prog" where
  "timeNow = Call Now (\<lambda>r. case r of RTime x \<Rightarrow> Ret x | _ \<Rightarrow> Stuck)"

definition dialTCP :: "string \<Rightarrow> nat result prog" where
  "dialTCP a = Call (DialTCP a) (\<lambda>r. case r of RConn x \<Rightarrow> Ret x | _ \<Rightarrow> Stuck)"

definition keyExchange :: "nat \<Rightarrow> string result prog" where
  "keyExchange c = Call (KeyExchange c) (\<lambda>r. case r of RKey x \<Rightarrow> Ret x | _ \<Rightarrow> Stuck)"

definition userAuth :: "nat \<Rightarrow> sshAuth \<Rightarrow> unit result prog" where
  "userAuth c a = Call (UserAuth c a) (\<lambda>r. case r of RUnit x \<Rightarrow> Ret x | _ \<Rightarrow> Stuck)"

definition execCmd :: "nat \<Rightarrow> string \<Rightarrow> string option \<Rightarrow> execReply prog" where
  "execCmd c cmd stdin = Call (Exec c cmd stdin) (\<lambda>r. case r of RExec x \<Rightarrow> Ret x | _ \<Rightarrow> Stuck)"

definition closeConn :: "nat \<Rightarrow> unit prog" where
  "closeConn c = Call (CloseConn c) (\<lambda>r. case r of RUnit x \<Rightarrow> Ret () | _ \<Rightarrow> Stuck)"

lemmas call_defs =
  getHost_def getHostMachine_def getHostCluster_def getSecret_def getOwnerMachine_def
  getOwnerCluster_def getClusterFromMetadata_def listHosts_def listMachines_def updateHost_def
  updateHostStatus_def newPatchHelper_def patchHost_def patchHostMachine_def
  patchHostCluster_def timeNow_def dialTCP_def keyExchange_def userAuth_def execCmd_def
  closeConn_def

subsection \<open>Running a program against a record of calls\<close>

type_synonym trace = "(req \<times> resp) list"

fun replay :: "('q, 'r, 'a) cmd \<Rightarrow> ('q \<times> 'r) list \<Rightarrow> 'a option" where
  "replay (Ret a) [] = Some a"
| "replay (Call q k) ((q', r) # evs) = (if q = q' then replay (k r) evs else None)"
| "replay _ _ = None"

text \<open>The program makes the calls of the record and possibly more.\<close>

fun cutoff :: "('q, 'r, 'a) cmd \<Rightarrow> ('q \<times> 'r) list \<Rightarrow> bool" where
  "cutoff p [] \<longleftrightarrow> True"
| "cutoff (Call q k) ((q', r) # evs) \<longleftrightarrow> q = q' \<and> cutoff (k r) evs"
| "cutoff _ (_ # _) \<longleftrightarrow> False"

lemma replay_Ret [simp]: "replay (Ret a) evs = Some b \<longleftrightarrow> evs = [] \<and> a = b"
  by (cases evs) auto

lemma replay_Stuck [simp]: "replay Stuck evs = None"
  by (cases evs) auto

lemma replay_Call:
  "replay (Call q k) evs = Some b \<longleftrightarrow> (\<exists>r rest. evs = (q, r) # rest \<and> replay (k r) rest = Some b)"
  by (cases evs) (auto split: if_splits)

lemma replay_Call_split:
  "(\<exists>e1 e2 a. (q', r) # es = e1 @ e2 \<and> replay (Call q k) e1 = Some a \<and> P a e2) \<longleftrightarrow>
   q = q' \<and> (\<exists>e1 e2 a. es = e1 @ e2 \<and> replay (k r) e1 = Some a \<and> P a e2)"
  (is "?l \<longleftrightarrow> q = q' \<and> ?r")
proof
  assume ?l
  then show "q = q' \<and> ?r" by (fastforce simp: replay_Call Cons_eq_append_conv)
next
  assume r: "q = q' \<and> ?r"
  then obtain e1 e2 a where "es = e1 @ e2" "replay (k r) e1 = Some a" "P a e2" by blast
  then have "(q', r) # es = ((q', r) # e1) @ e2 \<and> replay (Call q k) ((q', r) # e1) = Some a \<and> P a e2"
    using r by simp
  then show ?l by blast
qed

lemma replay_bind:
  "replay (bind p f) evs = Some b \<longleftrightarrow>
   (\<exists>e1 e2 a. evs = e1 @ e2 \<and> replay p e1 = Some a \<and> replay (f a) e2 = Some b)"
proof (induction p arbitrary: evs)
  case (Call q k)
  show ?case
  proof (cases evs)
    case (Cons e es)
    obtain q' r where e: "e = (q', r)" by (cases e)
    have ih: "replay (bind (k r) f) es = Some b \<longleftrightarrow>
      (\<exists>e1 e2 a. es = e1 @ e2 \<and> replay (k r) e1 = Some a \<and> replay (f a) e2 = Some b)"
      using Call by blast
    show ?thesis
      unfolding Cons e replay_Call_split using ih by auto
  qed (simp add: replay_Call)
qed simp_all

lemma replay_bindE:
  "replay (bindE p f) evs = Some b \<longleftrightarrow>
   (\<exists>e. replay p evs = Some (Inl e) \<and> b = Inl e) \<or>
   (\<exists>e1 e2 a. evs = e1 @ e2 \<and> replay p e1 = Some (Inr a) \<and> replay (f a) e2 = Some b)"
  (is "?l \<longleftrightarrow> ?r")
proof
  assume ?l
  then obtain e1 e2 r where e: "evs = e1 @ e2" "replay p e1 = Some r"
    "replay (case r of Inl e \<Rightarrow> Ret (Inl e) | Inr a \<Rightarrow> f a) e2 = Some b"
    unfolding bindE_def replay_bind by blast
  then show ?r by (cases r) auto
next
  have "?l" if "evs = e1 @ e2" "replay p e1 = Some r"
      "replay (case r of Inl e \<Rightarrow> Ret (Inl e) | Inr a \<Rightarrow> f a) e2 = Some b" for e1 e2 r
    using that unfolding bindE_def replay_bind by blast
  from this [of _ "[]" "Inl _"] this [of _ _ "Inr _"]
  show "?r \<Longrightarrow> ?l" by auto
qed

lemma cutoff_bind:
  "cutoff (bind p f) evs \<longleftrightarrow>
   cutoff p evs \<or> (\<exists>e1 e2 a. evs = e1 @ e2 \<and> replay p e1 = Some a \<and> cutoff (f a) e2)"
proof (induction p arbitrary: evs)
  case (Ret a)
  then show ?case by (cases evs) auto
next
  case Stuck
  then show ?case by (cases evs) auto
next
  case (Call q k)
  show ?case
  proof (cases evs)
    case (Cons e es)
    obtain q' r where e: "e = (q', r)" by (cases e)
    have ih: "cutoff (bind (k r) f) es \<longleftrightarrow> cutoff (k r) es \<or>
      (\<exists>e1 e2 a. es = e1 @ e2 \<and> replay (k r) e1 = Some a \<and> cutoff (f a) e2)"
      using Call by blast
    show ?thesis
      unfolding Cons e replay_Call_split using ih by auto
  qed simp
qed

lemma cutoff_bindE:
  "cutoff (bindE p f) evs \<longleftrightarrow>
   cutoff p evs \<or> (\<exists>e1 e2 a. evs = e1 @ e2 \<and> replay p e1 = Some (Inr a) \<and> cutoff (f a) e2)"
proof -
  have p: "replay p e1 = Some r \<Longrightarrow> cutoff p e1" for e1 r
    by (induction p e1 rule: replay.induct) (auto split: if_splits)
  have r: "cutoff (case r of Inl e \<Rightarrow> Ret (Inl e) | Inr a \<Rightarrow> f a) e2 \<longleftrightarrow>
      (case r of Inl e \<Rightarrow> e2 = [] | Inr a \<Rightarrow> cutoff (f a) e2)" for r e2
    by (cases r; cases e2) auto
  show ?thesis
    unfolding bindE_def cutoff_bind r by (auto split: sum.split_asm dest: p)
qed

lemma replay_cutoff: "replay p evs = Some a \<Longrightarrow> cutoff p evs"
proof (induction p evs rule: replay.induct)
  case (2 q k q' r evs)
  then show ?case by (auto split: if_splits)
qed simp_all

lemma bind_assoc: "bind (bind p f) g = bind p (\<lambda>x. bind (f x) g)"
  by (induction p) auto

lemma bindE_simps [simp]:
  "bindE (Ret (Inl e)) f = Ret (Inl e)"
  "bindE (Ret (Inr a)) f = f a"
  by (simp_all add: bindE_def)

lemma cutoff_one:
  assumes "p = Call q k" and "\<And>r. (\<exists>a. k r = Ret a) \<or> k r = Stuck"
  shows "cutoff p evs \<longleftrightarrow> evs = [] \<or> (\<exists>r. evs = [(q, r)])"
proof (cases evs)
  case (Cons e es)
  have "cutoff (k r) es \<longleftrightarrow> es = []" for r
    using assms(2) [of r] by (cases es) auto
  then show ?thesis using Cons assms(1) by (cases e) auto
qed simp

lemma replay_typed [simp]:
  "replay (case r of RHost x \<Rightarrow> Ret x | _ \<Rightarrow> Stuck) evs = Some b1 \<longleftrightarrow> evs = [] \<and> r = RHost b1"
  "replay (case r of RHostMachine x \<Rightarrow> Ret x | _ \<Rightarrow> Stuck) evs = Some b2 \<longleftrightarrow> evs = [] \<and> r = RHostMachine b2"
  "replay (case r of RHostCluster x \<Rightarrow> Ret x | _ \<Rightarrow> Stuck) evs = Some b3 \<longleftrightarrow> evs = [] \<and> r = RHostCluster b3"
  "replay (case r of RSecret x \<Rightarrow> Ret x | _ \<Rightarrow> Stuck) evs = Some b4 \<longleftrightarrow> evs = [] \<and> r = RSecret b4"
  "replay (case r of RMachine x \<Rightarrow> Ret x | _ \<Rightarrow> Stuck) evs = Some b5 \<longleftrightarrow> evs = [] \<and> r = RMachine b5"
  "replay (case r of RCluster x \<Rightarrow> Ret x | _ \<Rightarrow> Stuck) evs = Some b6 \<longleftrightarrow> evs = [] \<and> r = RCluster b6"
  "replay (case r of RHosts x \<Rightarrow> Ret x | _ \<Rightarrow> Stuck) evs = Some b7 \<longleftrightarrow> evs = [] \<and> r = RHosts b7"
  "replay (case r of RMachines x \<Rightarrow> Ret x | _ \<Rightarrow> Stuck) evs = Some b8 \<longleftrightarrow> evs = [] \<and> r = RMachines b8"
  "replay (case r of RUnit x \<Rightarrow> Ret x | _ \<Rightarrow> Stuck) evs = Some b9 \<longleftrightarrow> evs = [] \<and> r = RUnit b9"
  "replay (case r of RTime x \<Rightarrow> Ret x | _ \<Rightarrow> Stuck) evs = Some b10 \<longleftrightarrow> evs = [] \<and> r = RTime b10"
  "replay (case r of RConn x \<Rightarrow> Ret x | _ \<Rightarrow> Stuck) evs = Some b11 \<longleftrightarrow> evs = [] \<and> r = RConn b11"
  "replay (case r of RKey x \<Rightarrow> Ret x | _ \<Rightarrow> Stuck) evs = Some b12 \<longleftrightarrow> evs = [] \<and> r = RKey b12"
  "replay (case r of RExec x \<Rightarrow> Ret x | _ \<Rightarrow> Stuck) evs = Some b13 \<longleftrightarrow> evs = [] \<and> r = RExec b13"
  "replay (case r of RUnit x \<Rightarrow> Ret () | _ \<Rightarrow> Stuck) evs = Some v \<longleftrightarrow> evs = [] \<and> (\<exists>u. r = RUnit u)"
  by (cases r; auto)+

lemma replay_calls [simp]:
  "replay (getHost k) evs = Some x0 \<longleftrightarrow> evs = [(GetHost k, RHost x0)]"
  "replay (getHostMachine k) evs = Some x1 \<longleftrightarrow> evs = [(GetHostMachine k, RHostMachine x1)]"
  "replay (getHostCluster k) evs = Some x2 \<longleftrightarrow> evs = [(GetHostCluster k, RHostCluster x2)]"
  "replay (getSecret k) evs = Some x3 \<longleftrightarrow> evs = [(GetSecret k, RSecret x3)]"
  "replay (getOwnerMachine m) evs = Some x4 \<longleftrightarrow> evs = [(GetOwnerMachine m, RMachine x4)]"
  "replay (getOwnerCluster m) evs = Some x5 \<longleftrightarrow> evs = [(GetOwnerCluster m, RCluster x5)]"
  "replay (getClusterFromMetadata m) evs = Some x6 \<longleftrightarrow> evs = [(GetClusterFromMetadata m, RCluster x6)]"
  "replay (listHosts ns) evs = Some x7 \<longleftrightarrow> evs = [(ListHosts ns, RHosts x7)]"
  "replay (listMachines ns cl) evs = Some x8 \<longleftrightarrow> evs = [(ListMachines ns cl, RMachines x8)]"
  "replay (updateHost h) evs = Some x9 \<longleftrightarrow> evs = [(UpdateHost h, RHost x9)]"
  "replay (updateHostStatus h) evs = Some x10 \<longleftrightarrow> evs = [(UpdateHostStatus h, RHost x10)]"
  "replay (newPatchHelper) evs = Some x11 \<longleftrightarrow> evs = [(NewPatchHelper, RUnit x11)]"
  "replay (patchHost h h') evs = Some x12 \<longleftrightarrow> evs = [(PatchHost h h', RUnit x12)]"
  "replay (patchHostMachine hm hm') evs = Some x13 \<longleftrightarrow> evs = [(PatchHostMachine hm hm', RUnit x13)]"
  "replay (patchHostCluster hc hc') evs = Some x14 \<longleftrightarrow> evs = [(PatchHostCluster hc hc', RUnit x14)]"
  "replay (timeNow) evs = Some x15 \<longleftrightarrow> evs = [(Now, RTime x15)]"
  "replay (dialTCP a) evs = Some x16 \<longleftrightarrow> evs = [(DialTCP a, RConn x16)]"
  "replay (keyExchange n) evs = Some x17 \<longleftrightarrow> evs = [(KeyExchange n, RKey x17)]"
  "replay (userAuth n au) evs = Some x18 \<longleftrightarrow> evs = [(UserAuth n au, RUnit x18)]"
  "replay (execCmd n cmd inp) evs = Some x19 \<longleftrightarrow> evs = [(Exec n cmd inp, RExec x19)]"
  "replay (closeConn n) evs = Some v \<longleftrightarrow> (\<exists>u. evs = [(CloseConn n, RUnit u)])"
  by (auto simp: call_defs replay_Call)

lemma cutoff_calls [simp]:
  "cutoff (getHost k) evs \<longleftrightarrow> evs = [] \<or> (\<exists>r. evs = [(GetHost k, r)])"
  "cutoff (getHostMachine k) evs \<longleftrightarrow> evs = [] \<or> (\<exists>r. evs = [(GetHostMachine k, r)])"
  "cutoff (getHostCluster k) evs \<longleftrightarrow> evs = [] \<or> (\<exists>r. evs = [(GetHostCluster k, r)])"
  "cutoff (getSecret k) evs \<longleftrightarrow> evs = [] \<or> (\<exists>r. evs = [(GetSecret k, r)])"
  "cutoff (getOwnerMachine m) evs \<longleftrightarrow> evs = [] \<or> (\<exists>r. evs = [(GetOwnerMachine m, r)])"
  "cutoff (getOwnerCluster m) evs \<longleftrightarrow> evs = [] \<or> (\<exists>r. evs = [(GetOwnerCluster m, r)])"
  "cutoff (getClusterFromMetadata m) evs \<longleftrightarrow> evs = [] \<or> (\<exists>r. evs = [(GetClusterFromMetadata m, r)])"
  "cutoff (listHosts ns) evs \<longleftrightarrow> evs = [] \<or> (\<exists>r. evs = [(ListHosts ns, r)])"
  "cutoff (listMachines ns cl) evs \<longleftrightarrow> evs = [] \<or> (\<exists>r. evs = [(ListMachines ns cl, r)])"
  "cutoff (updateHost h) evs \<longleftrightarrow> evs = [] \<or> (\<exists>r. evs = [(UpdateHost h, r)])"
  "cutoff (updateHostStatus h) evs \<longleftrightarrow> evs = [] \<or> (\<exists>r. evs = [(UpdateHostStatus h, r)])"
  "cutoff (newPatchHelper) evs \<longleftrightarrow> evs = [] \<or> (\<exists>r. evs = [(NewPatchHelper, r)])"
  "cutoff (patchHost h h') evs \<longleftrightarrow> evs = [] \<or> (\<exists>r. evs = [(PatchHost h h', r)])"
  "cutoff (patchHostMachine hm hm') evs \<longleftrightarrow> evs = [] \<or> (\<exists>r. evs = [(PatchHostMachine hm hm', r)])"
  "cutoff (patchHostCluster hc hc') evs \<longleftrightarrow> evs = [] \<or> (\<exists>r. evs = [(PatchHostCluster hc hc', r)])"
  "cutoff (timeNow) evs \<longleftrightarrow> evs = [] \<or> (\<exists>r. evs = [(Now, r)])"
  "cutoff (dialTCP a) evs \<longleftrightarrow> evs = [] \<or> (\<exists>r. evs = [(DialTCP a, r)])"
  "cutoff (keyExchange n) evs \<longleftrightarrow> evs = [] \<or> (\<exists>r. evs = [(KeyExchange n, r)])"
  "cutoff (userAuth n au) evs \<longleftrightarrow> evs = [] \<or> (\<exists>r. evs = [(UserAuth n au, r)])"
  "cutoff (execCmd n cmd inp) evs \<longleftrightarrow> evs = [] \<or> (\<exists>r. evs = [(Exec n cmd inp, r)])"
  "cutoff (closeConn n) evs \<longleftrightarrow> evs = [] \<or> (\<exists>r. evs = [(CloseConn n, r)])"
  by (rule cutoff_one, simp add: call_defs, force split: resp.split)+

text \<open>One call at a time: the forms in which runs of the handlers are taken apart.\<close>

lemma cutoff_Ret [simp]: "cutoff (Ret a) evs \<longleftrightarrow> evs = []"
  by (cases evs) auto

lemma cutoff_Stuck [simp]: "cutoff Stuck evs \<longleftrightarrow> evs = []"
  by (cases evs) auto

lemma cutoff_Call:
  "cutoff (Call q k) evs \<longleftrightarrow> evs = [] \<or> (\<exists>r rest. evs = (q, r) # rest \<and> cutoff (k r) rest)"
  by (cases evs) auto

lemma cutoff_typed [simp]:
  "cutoff (bind (case r of RHost x \<Rightarrow> Ret x | _ \<Rightarrow> Stuck) f0) evs \<longleftrightarrow> (if \<exists>x. r = RHost x then \<exists>x. r = RHost x \<and> cutoff (f0 x) evs else evs = [])"
  "cutoff (bind (case r of RHostMachine x \<Rightarrow> Ret x | _ \<Rightarrow> Stuck) f1) evs \<longleftrightarrow> (if \<exists>x. r = RHostMachine x then \<exists>x. r = RHostMachine x \<and> cutoff (f1 x) evs else evs = [])"
  "cutoff (bind (case r of RHostCluster x \<Rightarrow> Ret x | _ \<Rightarrow> Stuck) f2) evs \<longleftrightarrow> (if \<exists>x. r = RHostCluster x then \<exists>x. r = RHostCluster x \<and> cutoff (f2 x) evs else evs = [])"
  "cutoff (bind (case r of RSecret x \<Rightarrow> Ret x | _ \<Rightarrow> Stuck) f3) evs \<longleftrightarrow> (if \<exists>x. r = RSecret x then \<exists>x. r = RSecret x \<and> cutoff (f3 x) evs else evs = [])"
  "cutoff (bind (case r of RMachine x \<Rightarrow> Ret x | _ \<Rightarrow> Stuck) f4) evs \<longleftrightarrow> (if \<exists>x. r = RMachine x then \<exists>x. r = RMachine x \<and> cutoff (f4 x) evs else evs = [])"
  "cutoff (bind (case r of RCluster x \<Rightarrow> Ret x | _ \<Rightarrow> Stuck) f5) evs \<longleftrightarrow> (if \<exists>x. r = RCluster x then \<exists>x. r = RCluster x \<and> cutoff (f5 x) evs else evs = [])"
  "cutoff (bind (case r of RHosts x \<Rightarrow> Ret x | _ \<Rightarrow> Stuck) f6) evs \<longleftrightarrow> (if \<exists>x. r = RHosts x then \<exists>x. r = RHosts x \<and> cutoff (f6 x) evs else evs = [])"
  "cutoff (bind (case r of RMachines x \<Rightarrow> Ret x | _ \<Rightarrow> Stuck) f7) evs \<longleftrightarrow> (if \<exists>x. r = RMachines x then \<exists>x. r = RMachines x \<and> cutoff (f7 x) evs else evs = [])"
  "cutoff (bind (case r of RUnit x \<Rightarrow> Ret x | _ \<Rightarrow> Stuck) f8) evs \<longleftrightarrow> (if \<exists>x. r = RUnit x then \<exists>x. r = RUnit x \<and> cutoff (f8 x) evs else evs = [])"
  "cutoff (bind (case r of RTime x \<Rightarrow> Ret x | _ \<Rightarrow> Stuck) f9) evs \<longleftrightarrow> (if \<exists>x. r = RTime x then \<exists>x. r = RTime x \<and> cutoff (f9 x) evs else evs = [])"
  "cutoff (bind (case r of RConn x \<Rightarrow> Ret x | _ \<Rightarrow> Stuck) f10) evs \<longleftrightarrow> (if \<exists>x. r = RConn x then \<exists>x. r = RConn x \<and> cutoff (f10 x) evs else evs = [])"
  "cutoff (bind (case r of RKey x \<Rightarrow> Ret x | _ \<Rightarrow> Stuck) f11) evs \<longleftrightarrow> (if \<exists>x. r = RKey x then \<exists>x. r = RKey x \<and> cutoff (f11 x) evs else evs = [])"
  "cutoff (bind (case r of RExec x \<Rightarrow> Ret x | _ \<Rightarrow> Stuck) f12) evs \<longleftrightarrow> (if \<exists>x. r = RExec x then \<exists>x. r = RExec x \<and> cutoff (f12 x) evs else evs = [])"
  "cutoff (bind (case r of RUnit x \<Rightarrow> Ret () | _ \<Rightarrow> Stuck) g) evs \<longleftrightarrow> (if \<exists>x. r = RUnit x then cutoff (g ()) evs else evs = [])"
  by (cases r; simp)+

lemma replay_bind_one:
  assumes "\<And>evs x. replay p evs = Some x \<longleftrightarrow> evs = [(q, R x)]"
  shows "replay (bind p f) evs = Some b \<longleftrightarrow> (\<exists>x rest. evs = (q, R x) # rest \<and> replay (f x) rest = Some b)"
  unfolding replay_bind assms by (metis append_Cons append_Nil)

lemma replay_steps:
  "replay (bind (getHost k) f0) evs = Some b \<longleftrightarrow> (\<exists>x rest. evs = (GetHost k, RHost x) # rest \<and> replay (f0 x) rest = Some b)"
  "replay (bind (getHostMachine k) f1) evs = Some b \<longleftrightarrow> (\<exists>x rest. evs = (GetHostMachine k, RHostMachine x) # rest \<and> replay (f1 x) rest = Some b)"
  "replay (bind (getHostCluster k) f2) evs = Some b \<longleftrightarrow> (\<exists>x rest. evs = (GetHostCluster k, RHostCluster x) # rest \<and> replay (f2 x) rest = Some b)"
  "replay (bind (getSecret k) f3) evs = Some b \<longleftrightarrow> (\<exists>x rest. evs = (GetSecret k, RSecret x) # rest \<and> replay (f3 x) rest = Some b)"
  "replay (bind (getOwnerMachine m) f4) evs = Some b \<longleftrightarrow> (\<exists>x rest. evs = (GetOwnerMachine m, RMachine x) # rest \<and> replay (f4 x) rest = Some b)"
  "replay (bind (getOwnerCluster m) f5) evs = Some b \<longleftrightarrow> (\<exists>x rest. evs = (GetOwnerCluster m, RCluster x) # rest \<and> replay (f5 x) rest = Some b)"
  "replay (bind (getClusterFromMetadata m) f6) evs = Some b \<longleftrightarrow> (\<exists>x rest. evs = (GetClusterFromMetadata m, RCluster x) # rest \<and> replay (f6 x) rest = Some b)"
  "replay (bind (listHosts ns) f7) evs = Some b \<longleftrightarrow> (\<exists>x rest. evs = (ListHosts ns, RHosts x) # rest \<and> replay (f7 x) rest = Some b)"
  "replay (bind (listMachines ns cl) f8) evs = Some b \<longleftrightarrow> (\<exists>x rest. evs = (ListMachines ns cl, RMachines x) # rest \<and> replay (f8 x) rest = Some b)"
  "replay (bind (updateHost h) f9) evs = Some b \<longleftrightarrow> (\<exists>x rest. evs = (UpdateHost h, RHost x) # rest \<and> replay (f9 x) rest = Some b)"
  "replay (bind (updateHostStatus h) f10) evs = Some b \<longleftrightarrow> (\<exists>x rest. evs = (UpdateHostStatus h, RHost x) # rest \<and> replay (f10 x) rest = Some b)"
  "replay (bind (newPatchHelper) f11) evs = Some b \<longleftrightarrow> (\<exists>x rest. evs = (NewPatchHelper, RUnit x) # rest \<and> replay (f11 x) rest = Some b)"
  "replay (bind (patchHost h h') f12) evs = Some b \<longleftrightarrow> (\<exists>x rest. evs = (PatchHost h h', RUnit x) # rest \<and> replay (f12 x) rest = Some b)"
  "replay (bind (patchHostMachine hm hm') f13) evs = Some b \<longleftrightarrow> (\<exists>x rest. evs = (PatchHostMachine hm hm', RUnit x) # rest \<and> replay (f13 x) rest = Some b)"
  "replay (bind (patchHostCluster hc hc') f14) evs = Some b \<longleftrightarrow> (\<exists>x rest. evs = (PatchHostCluster hc hc', RUnit x) # rest \<and> replay (f14 x) rest = Some b)"
  "replay (bind (timeNow) f15) evs = Some b \<longleftrightarrow> (\<exists>x rest. evs = (Now, RTime x) # rest \<and> replay (f15 x) rest = Some b)"
  "replay (bind (dialTCP a) f16) evs = Some b \<longleftrightarrow> (\<exists>x rest. evs = (DialTCP a, RConn x) # rest \<and> replay (f16 x) rest = Some b)"
  "replay (bind (keyExchange n) f17) evs = Some b \<longleftrightarrow> (\<exists>x rest. evs = (KeyExchange n, RKey x) # rest \<and> replay (f17 x) rest = Some b)"
  "replay (bind (userAuth n au) f18) evs = Some b \<longleftrightarrow> (\<exists>x rest. evs = (UserAuth n au, RUnit x) # rest \<and> replay (f18 x) rest = Some b)"
  "replay (bind (execCmd n cmd inp) f19) evs = Some b \<longleftrightarrow> (\<exists>x rest. evs = (Exec n cmd inp, RExec x) # rest \<and> replay (f19 x) rest = Some b)"
  "replay (bind (closeConn n) g) evs = Some b \<longleftrightarrow> (\<exists>x rest. evs = (CloseConn n, RUnit x) # rest \<and> replay (g ()) rest = Some b)"
  by (rule replay_bind_one, simp)+ (auto simp: call_defs replay_Call split: resp.split_asm)

lemma cutoff_closeConn:
  "cutoff (bind (closeConn n) g) evs \<longleftrightarrow> evs = [] \<or> (\<exists>r. evs = [(CloseConn n, r)]) \<or>
    (\<exists>x rest. evs = (CloseConn n, RUnit x) # rest \<and> cutoff (g ()) rest)"
proof -
  have "cutoff (bind (case r of RUnit x \<Rightarrow> Ret () | _ \<Rightarrow> Stuck) g) es \<longleftrightarrow>
      es = [] \<or> (\<exists>x. r = RUnit x) \<and> cutoff (g ()) es" for r es
    by (cases r) auto
  then show ?thesis by (auto simp: closeConn_def cutoff_Call simp del: cutoff_typed)
qed

lemma cutoff_bind_one:
  assumes "p = Call q k"
    and "\<And>r evs. cutoff (bind (k r) f) evs \<longleftrightarrow> (if \<exists>x. r = R x then \<exists>x. r = R x \<and> cutoff (f x) evs else evs = [])"
  shows "cutoff (bind p f) evs \<longleftrightarrow> evs = [] \<or> (\<exists>r. evs = [(q, r)]) \<or>
    (\<exists>x rest. evs = (q, R x) # rest \<and> cutoff (f x) rest)"
proof -
  have "cutoff (bind (k r) f) es \<longleftrightarrow> es = [] \<or> (\<exists>x. r = R x \<and> cutoff (f x) es)" for r es
    using assms(2) [of r es] by (cases "\<exists>x. r = R x") auto
  then show ?thesis by (auto simp: assms(1) cutoff_Call)
qed

lemma cutoff_steps:
  "cutoff (bind (getHost k) f0) evs \<longleftrightarrow> evs = [] \<or> (\<exists>r. evs = [(GetHost k, r)]) \<or> (\<exists>x rest. evs = (GetHost k, RHost x) # rest \<and> cutoff (f0 x) rest)"
  "cutoff (bind (getHostMachine k) f1) evs \<longleftrightarrow> evs = [] \<or> (\<exists>r. evs = [(GetHostMachine k, r)]) \<or> (\<exists>x rest. evs = (GetHostMachine k, RHostMachine x) # rest \<and> cutoff (f1 x) rest)"
  "cutoff (bind (getHostCluster k) f2) evs \<longleftrightarrow> evs = [] \<or> (\<exists>r. evs = [(GetHostCluster k, r)]) \<or> (\<exists>x rest. evs = (GetHostCluster k, RHostCluster x) # rest \<and> cutoff (f2 x) rest)"
  "cutoff (bind (getSecret k) f3) evs \<longleftrightarrow> evs = [] \<or> (\<exists>r. evs = [(GetSecret k, r)]) \<or> (\<exists>x rest. evs = (GetSecret k, RSecret x) # rest \<and> cutoff (f3 x) rest)"
  "cutoff (bind (getOwnerMachine m) f4) evs \<longleftrightarrow> evs = [] \<or> (\<exists>r. evs = [(GetOwnerMachine m, r)]) \<or> (\<exists>x rest. evs = (GetOwnerMachine m, RMachine x) # rest \<and> cutoff (f4 x) rest)"
  "cutoff (bind (getOwnerCluster m) f5) evs \<longleftrightarrow> evs = [] \<or> (\<exists>r. evs = [(GetOwnerCluster m, r)]) \<or> (\<exists>x rest. evs = (GetOwnerCluster m, RCluster x) # rest \<and> cutoff (f5 x) rest)"
  "cutoff (bind (getClusterFromMetadata m) f6) evs \<longleftrightarrow> evs = [] \<or> (\<exists>r. evs = [(GetClusterFromMetadata m, r)]) \<or> (\<exists>x rest. evs = (GetClusterFromMetadata m, RCluster x) # rest \<and> cutoff (f6 x) rest)"
  "cutoff (bind (listHosts ns) f7) evs \<longleftrightarrow> evs = [] \<or> (\<exists>r. evs = [(ListHosts ns, r)]) \<or> (\<exists>x rest. evs = (ListHosts ns, RHosts x) # rest \<and> cutoff (f7 x) rest)"
  "cutoff (bind (listMachines ns cl) f8) evs \<longleftrightarrow> evs = [] \<or> (\<exists>r. evs = [(ListMachines ns cl, r)]) \<or> (\<exists>x rest. evs = (ListMachines ns cl, RMachines x) # rest \<and> cutoff (f8 x) rest)"
  "cutoff (bind (updateHost h) f9) evs \<longleftrightarrow> evs = [] \<or> (\<exists>r. evs = [(UpdateHost h, r)]) \<or> (\<exists>x rest. evs = (UpdateHost h, RHost x) # rest \<and> cutoff (f9 x) rest)"
  "cutoff (bind (updateHostStatus h) f10) evs \<longleftrightarrow> evs = [] \<or> (\<exists>r. evs = [(UpdateHostStatus h, r)]) \<or> (\<exists>x rest. evs = (UpdateHostStatus h, RHost x) # rest \<and> cutoff (f10 x) rest)"
  "cutoff (bind (newPatchHelper) f11) evs \<longleftrightarrow> evs = [] \<or> (\<exists>r. evs = [(NewPatchHelper, r)]) \<or> (\<exists>x rest. evs = (NewPatchHelper, RUnit x) # rest \<and> cutoff (f11 x) rest)"
  "cutoff (bind (patchHost h h') f12) evs \<longleftrightarrow> evs = [] \<or> (\<exists>r. evs = [(PatchHost h h', r)]) \<or> (\<exists>x rest. evs = (PatchHost h h', RUnit x) # rest \<and> cutoff (f12 x) rest)"
  "cutoff (bind (patchHostMachine hm hm') f13) evs \<longleftrightarrow> evs = [] \<or> (\<exists>r. evs = [(PatchHostMachine hm hm', r)]) \<or> (\<exists>x rest. evs = (PatchHostMachine hm hm', RUnit x) # rest \<and> cutoff (f13 x) rest)"
  "cutoff (bind (patchHostCluster hc hc') f14) evs \<longleftrightarrow> evs = [] \<or> (\<exists>r. evs = [(PatchHostCluster hc hc', r)]) \<or> (\<exists>x rest. evs = (PatchHostCluster hc hc', RUnit x) # rest \<and> cutoff (f14 x) rest)"
  "cutoff (bind (timeNow) f15) evs \<longleftrightarrow> evs = [] \<or> (\<exists>r. evs = [(Now, r)]) \<or> (\<exists>x rest. evs = (Now, RTime x) # rest \<and> cutoff (f15 x) rest)"
  "cutoff (bind (dialTCP a) f16) evs \<longleftrightarrow> evs = [] \<or> (\<exists>r. evs = [(DialTCP a, r)]) \<or> (\<exists>x rest. evs = (DialTCP a, RConn x) # rest \<and> cutoff (f16 x) rest)"
  "cutoff (bind (keyExchange n) f17) evs \<longleftrightarrow> evs = [] \<or> (\<exists>r. evs = [(KeyExchange n, r)]) \<or> (\<exists>x rest. evs = (KeyExchange n, RKey x) # rest \<and> cutoff (f17 x) rest)"
  "cutoff (bind (userAuth n au) f18) evs \<longleftrightarrow> evs = [] \<or> (\<exists>r. evs = [(UserAuth n au, r)]) \<or> (\<exists>x rest. evs = (UserAuth n au, RUnit x) # rest \<and> cutoff (f18 x) rest)"
  "cutoff (bind (execCmd n cmd inp) f19) evs \<longleftrightarrow> evs = [] \<or> (\<exists>r. evs = [(Exec n cmd inp, r)]) \<or> (\<exists>x rest. evs = (Exec n cmd inp, RExec x) # rest \<and> cutoff (f19 x) rest)"
  "cutoff (bind (closeConn n) g) evs \<longleftrightarrow> evs = [] \<or> (\<exists>r. evs = [(CloseConn n, r)]) \<or> (\<exists>x rest. evs = (CloseConn n, RUnit x) # rest \<and> cutoff (g ()) rest)"
  by (rule cutoff_bind_one, simp add: call_defs, simp)+ (rule cutoff_closeConn)

text \<open>Branches on a reply become disjunctions, so that a run splits into its cases.\<close>

lemma cutoff_cases:
  "cutoff (case x of Inl e \<Rightarrow> f e | Inr a \<Rightarrow> g a) evs \<longleftrightarrow>
    (\<exists>e. x = Inl e \<and> cutoff (f e) evs) \<or> (\<exists>a. x = Inr a \<and> cutoff (g a) evs)"
  "cutoff (case y of None \<Rightarrow> p | Some b \<Rightarrow> h b) evs \<longleftrightarrow>
    y = None \<and> cutoff p evs \<or> (\<exists>b. y = Some b \<and> cutoff (h b) evs)"
  "cutoff (if c then p else q) evs \<longleftrightarrow> c \<and> cutoff p evs \<or> \<not> c \<and> cutoff q evs"
  "cutoff (case z of (u, v) \<Rightarrow> w u v) evs \<longleftrightarrow> (\<exists>u v. z = (u, v) \<and> cutoff (w u v) evs)"
  by (simp_all split: sum.split option.split prod.split)

lemma replay_cases:
  "replay (case x of Inl e \<Rightarrow> f e | Inr a \<Rightarrow> g a) evs = Some r \<longleftrightarrow>
    (\<exists>e. x = Inl e \<and> replay (f e) evs = Some r) \<or> (\<exists>a. x = Inr a \<and> replay (g a) evs = Some r)"
  "replay (case y of None \<Rightarrow> p | Some b \<Rightarrow> h b) evs = Some r \<longleftrightarrow>
    y = None \<and> replay p evs = Some r \<or> (\<exists>b. y = Some b \<and> replay (h b) evs = Some r)"
  "replay (if c then p else q) evs = Some r \<longleftrightarrow> c \<and> replay p evs = Some r \<or> \<not> c \<and> replay q evs = Some r"
  "replay (case z of (u, v) \<Rightarrow> w u v) evs = Some r \<longleftrightarrow> (\<exists>u v. z = (u, v) \<and> replay (w u v) evs = Some r)"
  by (simp_all split: sum.split option.split prod.split)

lemmas cutoff_run = cutoff_steps cutoff_cases
lemmas replay_run = replay_steps replay_cases

text \<open>A property of every call a program can make, whatever the replies.\<close>

primrec calls :: "('q \<Rightarrow> bool) \<Rightarrow> ('q, 'r, 'a) cmd \<Rightarrow> bool" where
  "calls P (Ret a) \<longleftrightarrow> True"
| "calls P Stuck \<longleftrightarrow> True"
| "calls P (Call q k) \<longleftrightarrow> P q \<and> (\<forall>r. calls P (k r))"

lemma calls_bind: "calls P p \<Longrightarrow> (\<And>a. calls P (f a)) \<Longrightarrow> calls P (bind p f)"
  by (induction p) auto

lemma calls_bindE: "calls P p \<Longrightarrow> (\<And>a. calls P (f a)) \<Longrightarrow> calls P (bindE p f)"
  unfolding bindE_def by (intro calls_bind) (auto split: sum.split)

lemma calls_cutoff: "calls P p \<Longrightarrow> cutoff p evs \<Longrightarrow> e \<in> set evs \<Longrightarrow> P (fst e)"
proof (induction evs arbitrary: p)
  case (Cons a evs)
  then show ?case by (cases p; cases a) auto
qed simp

lemma calls_replay: "calls P p \<Longrightarrow> replay p evs = Some x \<Longrightarrow> e \<in> set evs \<Longrightarrow> P (fst e)"
  by (rule calls_cutoff [OF _ replay_cutoff])

end
