(* ===== verification/KG_Shell.thy ===== *)
theory KG_Shell
  imports KG_GoStrings
begin

text \<open>
  The text kg hands to a shell on a host, and what a shell reads back from it: the quoting
  helpers of \<^verbatim>\<open>internal/ssh/client.go\<close>, the base64 payload of
  \<^verbatim>\<open>internal/cloudinit/cloudinit.go\<close>, and reference readers for both (POSIX word
  splitting of quoted text, reading of a here-document, base64 decoding). The lemmas are
  round trips: whatever goes in comes out, for every byte string.
\<close>

subsection \<open>Quoting\<close>

definition shellQuote :: "string \<Rightarrow> string" where
  "shellQuote s = CHR 0x27 # replaceByte (CHR 0x27) [CHR 0x27, CHR 0x5C, CHR 0x27, CHR 0x27] s @ [CHR 0x27]"

definition dirOf :: "string \<Rightarrow> string" where
  "dirOf path =
     (case lastIndex (CHR ''/'') path of
        None \<Rightarrow> ''/''
      | Some i \<Rightarrow> if i = 0 then ''/'' else take i path)"

definition writeFileCommand :: "string \<Rightarrow> string \<Rightarrow> string" where
  "writeFileCommand path mode =
     ''mkdir -p '' @ shellQuote (dirOf path) @ '' && cat > '' @ shellQuote path @
     '' && chmod '' @ shellQuote mode @ '' '' @ shellQuote path"

text \<open>
  How a POSIX shell reads one word made of single-quoted text, backslash escapes and plain
  characters: \<open>SPlain\<close> outside quotes, \<open>SQuote\<close> inside single quotes, \<open>SEsc\<close> after a
  backslash. A blank or an operator character ends the word; running out inside a quote or
  after a backslash is an unterminated word.
\<close>

datatype shmode = SPlain | SQuote | SEsc

definition wordEnd :: "char \<Rightarrow> bool" where
  "wordEnd c \<longleftrightarrow> isSpace c \<or> c \<in> set '';&|<>()''"

fun shWord :: "shmode \<Rightarrow> string \<Rightarrow> (string \<times> string) option" where
  "shWord SPlain [] = Some ([], [])"
| "shWord SPlain (c # cs) =
     (if wordEnd c then Some ([], c # cs)
      else if c = CHR 0x27 then shWord SQuote cs
      else if c = CHR 0x5C then shWord SEsc cs
      else map_option (\<lambda>(w, r). (c # w, r)) (shWord SPlain cs))"
| "shWord SQuote [] = None"
| "shWord SQuote (c # cs) =
     (if c = CHR 0x27 then shWord SPlain cs
      else map_option (\<lambda>(w, r). (c # w, r)) (shWord SQuote cs))"
| "shWord SEsc [] = None"
| "shWord SEsc (c # cs) = map_option (\<lambda>(w, r). (c # w, r)) (shWord SPlain cs)"

lemma shWord_quoted:
  "shWord SQuote (replaceByte (CHR 0x27) [CHR 0x27, CHR 0x5C, CHR 0x27, CHR 0x27] s @ CHR 0x27 # rest) =
     map_option (\<lambda>(w, r). (s @ w, r)) (shWord SPlain rest)"
proof (induction s)
  case Nil
  then show ?case by (cases "shWord SPlain rest") auto
next
  case (Cons c s)
  then show ?case
    by (cases "shWord SPlain rest") (auto simp: wordEnd_def isSpace_def)
qed

lemma shWord_shellQuote_append:
  "shWord SPlain (shellQuote s @ rest) = map_option (\<lambda>(w, r). (s @ w, r)) (shWord SPlain rest)"
proof -
  have "shWord SPlain (shellQuote s @ rest) =
      shWord SQuote (replaceByte (CHR 0x27) [CHR 0x27, CHR 0x5C, CHR 0x27, CHR 0x27] s @ CHR 0x27 # rest)"
    by (simp add: shellQuote_def wordEnd_def isSpace_def)
  then show ?thesis by (simp only: shWord_quoted)
qed

lemma shWord_at_end: "rest = [] \<or> wordEnd (hd rest) \<Longrightarrow> shWord SPlain rest = Some ([], rest)"
  by (cases rest) auto

text \<open>A quoted string followed by the end of a word reads back as exactly that string.\<close>

lemma shWord_shellQuote:
  "rest = [] \<or> wordEnd (hd rest) \<Longrightarrow> shWord SPlain (shellQuote s @ rest) = Some (s, rest)"
  by (simp add: shWord_shellQuote_append shWord_at_end)

text \<open>Reading the words of a simple command separated by single blanks.\<close>

fun shArgs :: "nat \<Rightarrow> string \<Rightarrow> string list option" where
  "shArgs 0 s = None"
| "shArgs (Suc n) s =
     (case shWord SPlain s of
        None \<Rightarrow> None
      | Some (w, []) \<Rightarrow> Some [w]
      | Some (w, c # r) \<Rightarrow> if c = CHR '' '' then map_option (\<lambda>ws. w # ws) (shArgs n r) else None)"

lemma shArgs_joined:
  "argv \<noteq> [] \<Longrightarrow> length argv \<le> n \<Longrightarrow> shArgs n (joinWith '' '' (map shellQuote argv)) = Some argv"
proof (induction argv arbitrary: n)
  case Nil
  then show ?case by simp
next
  case (Cons a argv)
  then obtain m where n: "n = Suc m" by (cases n) auto
  show ?case
  proof (cases argv)
    case Nil
    then show ?thesis using shWord_shellQuote [of "[]" a] by (simp add: n)
  next
    case (Cons b bs)
    let ?rest = "joinWith '' '' (map shellQuote argv)"
    have "shWord SPlain (shellQuote a @ CHR '' '' # ?rest) = Some (a, CHR '' '' # ?rest)"
      by (rule shWord_shellQuote) (simp add: wordEnd_def isSpace_def)
    moreover have "shArgs m ?rest = Some argv"
      using Cons.IH [of m] Cons Cons.prems n by simp
    ultimately show ?thesis using Cons by (simp add: n)
  qed
qed

subsection \<open>Base64\<close>

text \<open>\<^verbatim>\<open>base64.StdEncoding\<close>: the standard alphabet with padding.\<close>

definition b64alphabet :: string where
  "b64alphabet = ''ABCDEFGHIJKLMNOPQRSTUVWXYZabcdefghijklmnopqrstuvwxyz0123456789+/''"

definition b64char :: "nat \<Rightarrow> char" where
  "b64char n = b64alphabet ! n"

definition byteVal :: "char \<Rightarrow> nat" where
  "byteVal c = of_char c"

definition byteOf :: "nat \<Rightarrow> char" where
  "byteOf n = char_of n"

fun indexOf :: "char \<Rightarrow> string \<Rightarrow> nat option" where
  "indexOf c [] = None"
| "indexOf c (x # xs) = (if x = c then Some 0 else map_option Suc (indexOf c xs))"

definition b64val :: "char \<Rightarrow> nat option" where
  "b64val c = indexOf c b64alphabet"

fun b64encode :: "string \<Rightarrow> string" where
  "b64encode [] = []"
| "b64encode [a] = [b64char (byteVal a div 4), b64char (byteVal a mod 4 * 16), CHR ''='', CHR ''='']"
| "b64encode [a, b] =
     [b64char (byteVal a div 4), b64char (byteVal a mod 4 * 16 + byteVal b div 16),
      b64char (byteVal b mod 16 * 4), CHR ''='']"
| "b64encode (a # b # c # r) =
     [b64char (byteVal a div 4), b64char (byteVal a mod 4 * 16 + byteVal b div 16),
      b64char (byteVal b mod 16 * 4 + byteVal c div 64), b64char (byteVal c mod 64)] @ b64encode r"

fun b64decodeQuads :: "string \<Rightarrow> string option" where
  "b64decodeQuads [] = Some []"
| "b64decodeQuads (a # b # c # d # r) =
     (if c = CHR ''='' \<and> d = CHR ''='' \<and> r = [] then
        (case (b64val a, b64val b) of
           (Some x, Some y) \<Rightarrow> Some [byteOf (x * 4 + y div 16)]
         | _ \<Rightarrow> None)
      else if d = CHR ''='' \<and> r = [] then
        (case (b64val a, b64val b, b64val c) of
           (Some x, Some y, Some z) \<Rightarrow> Some [byteOf (x * 4 + y div 16), byteOf (y mod 16 * 16 + z div 4)]
         | _ \<Rightarrow> None)
      else
        (case (b64val a, b64val b, b64val c, b64val d, b64decodeQuads r) of
           (Some x, Some y, Some z, Some w, Some s) \<Rightarrow>
             Some (byteOf (x * 4 + y div 16) # byteOf (y mod 16 * 16 + z div 4) #
                   byteOf (z mod 4 * 64 + w) # s)
         | _ \<Rightarrow> None))"
| "b64decodeQuads s = None"

text \<open>\<^verbatim>\<open>DecodeString\<close> and \<^verbatim>\<open>base64 -d\<close> skip line breaks.\<close>

definition b64decode :: "string \<Rightarrow> string option" where
  "b64decode s = b64decodeQuads (filter (\<lambda>c. c \<noteq> CHR 0x0A \<and> c \<noteq> CHR 0x0D) s)"

lemma b64val_b64char [simp]: "n < 64 \<Longrightarrow> b64val (b64char n) = Some n"
proof -
  have "list_all (\<lambda>n. b64val (b64char n) = Some n) [0..<64]" by code_simp
  then show "n < 64 \<Longrightarrow> b64val (b64char n) = Some n" by (simp add: list_all_iff)
qed

lemma b64char_in: "n < 64 \<Longrightarrow> b64char n \<in> set b64alphabet"
proof -
  assume "n < 64"
  moreover have "length b64alphabet = 64" by code_simp
  ultimately show ?thesis unfolding b64char_def by (simp only: nth_mem)
qed

lemma b64char_not_pad [simp]: "n < 64 \<Longrightarrow> b64char n \<noteq> CHR ''=''"
  using b64char_in [of n] by (auto simp: b64alphabet_def)

lemma byteVal_less [simp]: "byteVal c < 256"
  by (simp add: byteVal_def)

lemma byteOf_byteVal [simp]: "byteOf (byteVal c) = c"
  by (simp add: byteOf_def byteVal_def)

lemma byteVal_parts [simp]:
  "byteVal a div 4 < 64" "byteVal a mod 4 * 16 < 64" "byteVal b mod 16 * 4 < 64"
  "byteVal a mod 4 * 16 + byteVal b div 16 < 64" "byteVal b mod 16 * 4 + byteVal c div 64 < 64"
  using byteVal_less [of a] byteVal_less [of b] byteVal_less [of c] by linarith+

lemma digits_split:
  "y < (16::nat) \<Longrightarrow> (x * 16 + y) div 16 = x" "y < 16 \<Longrightarrow> (x * 16 + y) mod 16 = y"
  "z < (4::nat) \<Longrightarrow> (x * 4 + z) div 4 = x" "z < 4 \<Longrightarrow> (x * 4 + z) mod 4 = z"
  by simp_all

lemma quad_bytes:
  "y < 16 \<Longrightarrow> byteVal a div 4 * 4 + (byteVal a mod 4 * 16 + y) div 16 = byteVal a"
  "z < 4 \<Longrightarrow> (k * 16 + byteVal b div 16) mod 16 * 16 + (byteVal b mod 16 * 4 + z) div 4 = byteVal b"
  "(k * 4 + byteVal c div 64) mod 4 * 64 + byteVal c mod 64 = byteVal c"
proof -
  show "y < 16 \<Longrightarrow> byteVal a div 4 * 4 + (byteVal a mod 4 * 16 + y) div 16 = byteVal a"
    by (simp only: digits_split div_mult_mod_eq)
  have "byteVal b div 16 < 16" using byteVal_less [of b] by linarith
  then show "z < 4 \<Longrightarrow> (k * 16 + byteVal b div 16) mod 16 * 16 + (byteVal b mod 16 * 4 + z) div 4 = byteVal b"
    by (simp only: digits_split div_mult_mod_eq)
  have "byteVal c div 64 < 4" using byteVal_less [of c] by linarith
  then show "(k * 4 + byteVal c div 64) mod 4 * 64 + byteVal c mod 64 = byteVal c"
    by (simp only: digits_split div_mult_mod_eq)
qed

lemma quad_bytes_padded:
  "byteVal a div 4 * 4 + (byteVal a mod 4 * 16) div 16 = byteVal a"
  "(k * 16 + byteVal b div 16) mod 16 * 16 + (byteVal b mod 16 * 4) div 4 = byteVal b"
  using quad_bytes(1) [of 0 a] quad_bytes(2) [of 0 k b] by simp_all

lemma byteVal_quarters [simp]: "byteVal b div 16 < 16" "byteVal c div 64 < 4"
  using byteVal_less [of b] byteVal_less [of c] by linarith+

lemma b64decodeQuads_b64encode: "b64decodeQuads (b64encode s) = Some s"
proof (induction s rule: b64encode.induct)
  case (2 a)
  then show ?case by (simp add: quad_bytes_padded del: One_nat_def)
next
  case (3 a b)
  then show ?case by (simp add: quad_bytes quad_bytes_padded)
next
  case (4 a b c r)
  then show ?case by (simp add: quad_bytes)
qed simp

lemma b64encode_chars: "set (b64encode s) \<subseteq> insert (CHR ''='') (set b64alphabet)"
  by (induction s rule: b64encode.induct) (auto simp: b64char_in)

lemma b64_no_break:
  "c \<in> set (b64encode s) \<Longrightarrow> c \<noteq> CHR 0x0A \<and> c \<noteq> CHR 0x0D \<and> c \<noteq> CHR ''_''"
  using b64encode_chars [of s] by (auto simp: b64alphabet_def)

lemma b64decode_b64encode: "b64decode (b64encode s) = Some s"
proof -
  have "filter (\<lambda>c. c \<noteq> CHR 0x0A \<and> c \<noteq> CHR 0x0D) (b64encode s) = b64encode s"
    by (rule filter_True) (use b64_no_break in blast)
  then show ?thesis by (simp add: b64decode_def b64decodeQuads_b64encode)
qed

end
