(* ===== verification/KG_Ssh.thy ===== *)
theory KG_Ssh
  imports KG_Prog KG_Shell
begin

text \<open>
  The SSH transport, \<^verbatim>\<open>internal/ssh/client.go\<close>: dialling a host under a host key policy,
  running a command, writing a file. The key formats are the \<^verbatim>\<open>golang.org/x/crypto/ssh\<close>
  library's and a parameter, \<open>sshLib\<close>; a key is its wire form. The theorems show that the
  credentials leave the machine only after the presented key passed the policy, and how a
  command's end becomes a Go error.
\<close>

subsection \<open>Configuration and the library\<close>

definition PolicyStrict :: string where "PolicyStrict = ''Strict''"
definition PolicyTOFU :: string where "PolicyTOFU = ''TOFU''"
definition PolicyInsecure :: string where "PolicyInsecure = ''Insecure''"

record config =
  cfAddress :: string
  cfPort :: int
  cfUser :: string
  cfPrivateKey :: string
  cfPassphrase :: string
  cfPassword :: string
  cfPolicy :: string
  cfKnownPublicKey :: string

record sshClient =
  scConn :: nat
  scHostKey :: string

record sshLib =
  parsePrivateKey :: "string \<Rightarrow> string result"
  parsePrivateKeyWithPassphrase :: "string \<Rightarrow> string \<Rightarrow> string result"
  marshalAuthorizedKey :: "string \<Rightarrow> string"
  parseAuthorizedKey :: "string \<Rightarrow> string option"
  handshakeFailed :: "goerror \<Rightarrow> goerror"

text \<open>
  What is documented of the library: a key written as an \<^verbatim>\<open>authorized_keys\<close> line parses
  back to itself, with or without the newline, and is not empty; an error of the host key
  callback comes back wrapped.
\<close>

definition authorizedKeysLib :: "sshLib \<Rightarrow> bool" where
  "authorizedKeysLib L \<longleftrightarrow>
     (\<forall>k. parseAuthorizedKey L (trimSpace (marshalAuthorizedKey L k)) = Some k \<and>
          trimSpace (marshalAuthorizedKey L k) \<noteq> []) \<and>
     (\<forall>e. ekind (handshakeFailed L e) = ekind e)"

text \<open>\<^verbatim>\<open>net.JoinHostPort\<close>: an address with a colon goes into brackets.\<close>

definition joinHostPort :: "string \<Rightarrow> string \<Rightarrow> string" where
  "joinHostPort host port =
     (if CHR '':'' \<in> set host then ''['' @ host @ '']:'' @ port else host @ '':'' @ port)"

subsection \<open>Dialling\<close>

definition authMethods :: "sshLib \<Rightarrow> config \<Rightarrow> sshAuth result" where
  "authMethods L cfg =
     rbind (if cfPrivateKey cfg \<noteq> [] then
              (case (if cfPassphrase cfg \<noteq> []
                     then parsePrivateKeyWithPassphrase L (cfPrivateKey cfg) (cfPassphrase cfg)
                     else parsePrivateKey L (cfPrivateKey cfg)) of
                 Inl e \<Rightarrow> Inl (wrapf ''parse private key'' e)
               | Inr signer \<Rightarrow> Inr (Some signer))
            else Inr None)
       (\<lambda>signer.
          let password = (if cfPassword cfg \<noteq> [] then Some (cfPassword cfg) else None)
          in if signer = None \<and> password = None
             then Inl (errorf ''no ssh credential: neither private key nor password was provided'')
             else Inr \<lparr>auUser = cfUser cfg, auSigner = signer, auPassword = password\<rparr>)"

definition sameAuthorizedKey :: "sshLib \<Rightarrow> string \<Rightarrow> string \<Rightarrow> bool" where
  "sameAuthorizedKey L a b =
     (case (parseAuthorizedKey L a, parseAuthorizedKey L b) of
        (Some ka, Some kb) \<Rightarrow> ka = kb
      | _ \<Rightarrow> trimSpace a = trimSpace b)"

definition abbreviate :: "string \<Rightarrow> string" where
  "abbreviate authorizedKey =
     (let fs = KG_GoStrings.fields authorizedKey
      in if length fs < 2 then authorizedKey
         else let blob = fs ! 1
              in if length blob \<le> 20 then fs ! 0 @ '' '' @ blob
                 else fs ! 0 @ '' '' @ take 10 blob @ ''...'' @ drop (length blob - 10) blob)"

definition mismatch :: "string \<Rightarrow> goerror" where
  "mismatch m = \<lparr>emsg = ''ssh host key mismatch'' @ m, ekind = ErrHostKeyMismatch\<rparr>"

text \<open>The callback's verdict on the key in \<^verbatim>\<open>authorized_keys\<close> format.\<close>

definition hostKeyCallback :: "sshLib \<Rightarrow> config \<Rightarrow> string \<Rightarrow> string \<Rightarrow> unit result" where
  "hostKeyCallback L cfg hostname presented =
     (let compareKeys =
            (if \<not> sameAuthorizedKey L (cfKnownPublicKey cfg) presented
             then Inl (mismatch ('' for '' @ hostname @ '': expected '' @ abbreviate (cfKnownPublicKey cfg)
                                 @ '', got '' @ abbreviate presented))
             else Inr ())
      in if cfPolicy cfg = PolicyInsecure then Inr ()
         else if cfPolicy cfg = PolicyStrict then
           (if cfKnownPublicKey cfg = []
            then Inl (mismatch ('': policy is Strict but no public key is configured for '' @ hostname))
            else compareKeys)
         else if cfPolicy cfg = PolicyTOFU then
           (if cfKnownPublicKey cfg = [] then Inr () else compareKeys)
         else Inl (errorf (''unknown host key policy '' @ goQuote (cfPolicy cfg))))"

definition dialPort :: "config \<Rightarrow> int" where
  "dialPort cfg = (if cfPort cfg = 0 then 22 else cfPort cfg)"

text \<open>
  \<^verbatim>\<open>Dial\<close>. The dial timeout and the connection's deadlines bound how long a call may
  take; what they cause is an error reply of the call.
\<close>

definition Dial :: "sshLib \<Rightarrow> config \<Rightarrow> sshClient result prog" where
  "Dial L cfg =
     (case authMethods L cfg of
        Inl e \<Rightarrow> Ret (Inl e)
      | Inr auth \<Rightarrow>
          let addr = joinHostPort (cfAddress cfg) (itoa (dialPort cfg));
              giveUp = (\<lambda>conn e. bind (closeConn conn) (\<lambda>_.
                 Ret (Inl (if ekind e = ErrHostKeyMismatch then e
                           else wrapf (''ssh handshake with '' @ addr) e))))
          in bind (dialTCP addr) (\<lambda>d. case d of
               Inl e \<Rightarrow> Ret (Inl (wrapf (''dial '' @ addr) e))
             | Inr conn \<Rightarrow>
                 bind (keyExchange conn) (\<lambda>x. case x of
                   Inl e \<Rightarrow> giveUp conn e
                 | Inr key \<Rightarrow>
                     let presented = trimSpace (marshalAuthorizedKey L key)
                     in case hostKeyCallback L cfg addr presented of
                          Inl e \<Rightarrow> giveUp conn (handshakeFailed L e)
                        | Inr _ \<Rightarrow>
                            bind (userAuth conn auth) (\<lambda>a. case a of
                              Inl e \<Rightarrow> giveUp conn e
                            | Inr _ \<Rightarrow> Ret (Inr \<lparr>scConn = conn, scHostKey = presented\<rparr>)))))"

subsection \<open>Commands\<close>

record sshResult =
  rsStdout :: string
  rsStderr :: string
  rsExitCode :: int

definition exitErrorMsg :: "string \<Rightarrow> sshResult \<Rightarrow> string" where
  "exitErrorMsg command res =
     (let msg0 = trimSpace (rsStderr res);
          msg = (if msg0 = [] then trimSpace (rsStdout res) else msg0);
          line = ''command '' @ goQuote command @ '' exited '' @ itoa (rsExitCode res)
      in if msg = [] then line else line @ '': '' @ msg)"

text \<open>
  \<^verbatim>\<open>run\<close> returns a result and an error side by side: \<open>runReply\<close> is what it makes of the
  way the command ended.
\<close>

definition runReply :: "string \<Rightarrow> execReply \<Rightarrow> sshResult \<times> goerror option" where
  "runReply cmd x = (case x of
      NoSession e \<Rightarrow> (\<lparr>rsStdout = [], rsStderr = [], rsExitCode = 0\<rparr>, Some (wrapf ''open session'' e))
    | CtxDone out err e \<Rightarrow> (\<lparr>rsStdout = out, rsStderr = err, rsExitCode = 0\<rparr>, Some e)
    | Done out err end' \<Rightarrow>
        let res = \<lparr>rsStdout = out, rsStderr = err, rsExitCode = 0\<rparr>
        in case end' of
             RunOk \<Rightarrow> (res, None)
           | RunExit code _ \<Rightarrow>
               let res = res\<lparr>rsExitCode := code\<rparr>
               in (res, Some \<lparr>emsg = exitErrorMsg cmd res, ekind = ErrExit\<rparr>)
           | RunErr e \<Rightarrow> (res, Some (wrapf (''run '' @ goQuote cmd) e)))"

definition runCmd :: "sshClient \<Rightarrow> string \<Rightarrow> string option \<Rightarrow> (sshResult \<times> goerror option) prog" where
  "runCmd c cmd stdin = bind (execCmd (scConn c) cmd stdin) (\<lambda>x. Ret (runReply cmd x))"

definition Run :: "sshClient \<Rightarrow> string \<Rightarrow> (sshResult \<times> goerror option) prog" where
  "Run c cmd = runCmd c cmd None"

definition RunWithInput :: "sshClient \<Rightarrow> string \<Rightarrow> string \<Rightarrow> (sshResult \<times> goerror option) prog" where
  "RunWithInput c cmd stdin = runCmd c cmd (Some stdin)"

text \<open>
  \<^verbatim>\<open>WriteFile\<close> streams the content to a remote \<^verbatim>\<open>cat\<close>. Here a non-zero exit is the
  library's own \<^verbatim>\<open>ExitError\<close>, which is not the one \<^verbatim>\<open>errors.As\<close> looks for elsewhere.
\<close>

definition writeReply :: "string \<Rightarrow> execReply \<Rightarrow> unit result" where
  "writeReply path x = (case x of
      NoSession e \<Rightarrow> Inl (wrapf ''open session'' e)
    | CtxDone _ _ e \<Rightarrow> Inl e
    | Done _ err end' \<Rightarrow>
        (let failed = (\<lambda>e. Inl (e\<lparr>emsg := ''write '' @ path @ '': '' @ emsg e @ '': '' @ trimSpace err\<rparr>))
         in case end' of
              RunOk \<Rightarrow> Inr ()
            | RunExit _ m \<Rightarrow> failed (errorf m)
            | RunErr e \<Rightarrow> failed e))"

definition WriteFile :: "sshClient \<Rightarrow> string \<Rightarrow> string \<Rightarrow> string \<Rightarrow> unit result prog" where
  "WriteFile c path content mode =
     bind (execCmd (scConn c) (writeFileCommand path mode) (Some content)) (\<lambda>x. Ret (writeReply path x))"

subsection \<open>Lemmas\<close>

lemma replay_runCmd:
  "replay (runCmd c cmd inp) evs = Some x \<longleftrightarrow>
   (\<exists>r. evs = [(Exec (scConn c) cmd inp, RExec r)] \<and> x = runReply cmd r)"
  by (auto simp: runCmd_def replay_bind)

lemma replay_WriteFile:
  "replay (WriteFile c path content mode) evs = Some x \<longleftrightarrow>
   (\<exists>r. evs = [(Exec (scConn c) (writeFileCommand path mode) (Some content), RExec r)] \<and> x = writeReply path r)"
  by (auto simp: WriteFile_def replay_bind)

lemma runReply_ok:
  "runReply cmd r = (res, None) \<longleftrightarrow> r = Done (rsStdout res) (rsStderr res) RunOk \<and> rsExitCode res = 0"
  by (cases r; cases res) (auto simp: runReply_def Let_def split: runEnd.split)

lemma writeReply_ok: "writeReply path r = Inr u \<longleftrightarrow> (\<exists>out err. r = Done out err RunOk)"
  by (cases r) (auto simp: writeReply_def Let_def split: runEnd.split)

lemma replay_bind_Run:
  "replay (bind (Run c cmd) f) evs = Some b \<longleftrightarrow>
   (\<exists>r rest. evs = (Exec (scConn c) cmd None, RExec r) # rest \<and> replay (f (runReply cmd r)) rest = Some b)"
  by (simp add: Run_def runCmd_def bind_assoc replay_steps)

lemma cutoff_bind_Run:
  "cutoff (bind (Run c cmd) f) evs \<longleftrightarrow> evs = [] \<or> (\<exists>r. evs = [(Exec (scConn c) cmd None, r)]) \<or>
   (\<exists>r rest. evs = (Exec (scConn c) cmd None, RExec r) # rest \<and> cutoff (f (runReply cmd r)) rest)"
  by (simp add: Run_def runCmd_def bind_assoc cutoff_steps)

lemma replay_bindE_WriteFile:
  "replay (bindE (WriteFile c path content mode) f) evs = Some b \<longleftrightarrow>
   (\<exists>r rest. evs = (Exec (scConn c) (writeFileCommand path mode) (Some content), RExec r) # rest \<and>
     ((\<exists>e. writeReply path r = Inl e \<and> rest = [] \<and> b = Inl e) \<or>
      (\<exists>u. writeReply path r = Inr u \<and> replay (f u) rest = Some b)))"
  by (auto simp: WriteFile_def bindE_def bind_assoc replay_run)

lemma cutoff_bindE_WriteFile:
  "cutoff (bindE (WriteFile c path content mode) f) evs \<longleftrightarrow>
   evs = [] \<or> (\<exists>r. evs = [(Exec (scConn c) (writeFileCommand path mode) (Some content), r)]) \<or>
   (\<exists>r rest u. evs = (Exec (scConn c) (writeFileCommand path mode) (Some content), RExec r) # rest \<and>
     writeReply path r = Inr u \<and> cutoff (f u) rest)"
  by (auto simp: WriteFile_def bindE_def bind_assoc cutoff_run)

lemmas replay_ssh = replay_bind_Run replay_bindE_WriteFile
lemmas cutoff_ssh = cutoff_bind_Run cutoff_bindE_WriteFile

text \<open>What a policy accepts.\<close>

definition keyAccepted :: "sshLib \<Rightarrow> config \<Rightarrow> string \<Rightarrow> bool" where
  "keyAccepted L cfg key \<longleftrightarrow>
     cfPolicy cfg = PolicyInsecure \<or>
     cfPolicy cfg = PolicyTOFU \<and> cfKnownPublicKey cfg = [] \<or>
     (cfPolicy cfg = PolicyStrict \<or> cfPolicy cfg = PolicyTOFU) \<and> cfKnownPublicKey cfg \<noteq> [] \<and>
       (case parseAuthorizedKey L (cfKnownPublicKey cfg) of
          Some known \<Rightarrow> known = key
        | None \<Rightarrow> trimSpace (cfKnownPublicKey cfg) = trimSpace (marshalAuthorizedKey L key))"

lemma hostKeyCallback_accepts:
  assumes "authorizedKeysLib L"
  shows "hostKeyCallback L cfg hostname (trimSpace (marshalAuthorizedKey L key)) = Inr u
    \<longleftrightarrow> keyAccepted L cfg key"
  using assms
  by (auto simp: hostKeyCallback_def keyAccepted_def authorizedKeysLib_def sameAuthorizedKey_def
      trimSpace_idem PolicyInsecure_def PolicyStrict_def PolicyTOFU_def Let_def split: option.splits)

definition dialAddr :: "config \<Rightarrow> string" where
  "dialAddr cfg = joinHostPort (cfAddress cfg) (itoa (dialPort cfg))"

text \<open>The calls of a dial that got as far as the user's authentication.\<close>

lemma cutoff_Dial:
  assumes "cutoff (Dial L cfg) evs" "(UserAuth conn au, r) \<in> set evs"
  shows "\<exists>key rest. authMethods L cfg = Inr au \<and>
     evs = (DialTCP (dialAddr cfg), RConn (Inr conn)) # (KeyExchange conn, RKey (Inr key)) #
           (UserAuth conn au, r) # rest \<and>
     hostKeyCallback L cfg (dialAddr cfg) (trimSpace (marshalAuthorizedKey L key)) = Inr ()"
  using assms
  by (auto simp: Dial_def Let_def cutoff_run dialAddr_def)

lemma replay_Dial_ok:
  assumes "replay (Dial L cfg) evs = Some (Inr c)"
  shows "\<exists>key au. authMethods L cfg = Inr au \<and>
     evs = [(DialTCP (dialAddr cfg), RConn (Inr (scConn c))), (KeyExchange (scConn c), RKey (Inr key)),
            (UserAuth (scConn c) au, RUnit (Inr ()))] \<and>
     scHostKey c = trimSpace (marshalAuthorizedKey L key) \<and>
     hostKeyCallback L cfg (dialAddr cfg) (scHostKey c) = Inr ()"
  using assms
  by (cases c) (auto simp: Dial_def Let_def replay_run dialAddr_def)

text \<open>A dial makes no other calls than those of opening and closing a connection.\<close>

lemma cutoff_Dial_calls:
  assumes "cutoff (Dial L cfg) evs" "e \<in> set evs"
  shows "(\<exists>a. fst e = DialTCP a) \<or> (\<exists>n. fst e = KeyExchange n) \<or> (\<exists>n au. fst e = UserAuth n au) \<or>
    (\<exists>n. fst e = CloseConn n)"
  using assms by (auto simp: Dial_def Let_def cutoff_run)

lemma hostKeyCallback_rejects:
  assumes "hostKeyCallback L cfg hostname presented = Inl e"
    and "cfPolicy cfg = PolicyStrict \<or> cfPolicy cfg = PolicyTOFU"
  shows "ekind e = ErrHostKeyMismatch"
  using assms
  by (auto simp: hostKeyCallback_def mismatch_def PolicyInsecure_def PolicyStrict_def PolicyTOFU_def Let_def
      split: if_splits)

lemma Dial_policy:
  assumes "authorizedKeysLib L" and "cutoff (Dial L cfg) evs" and "evs = pre @ (UserAuth conn au, r) # post"
  shows "authMethods L cfg = Inr au \<and>
    (\<exists>key. (KeyExchange conn, RKey (Inr key)) \<in> set pre \<and> keyAccepted L cfg key)"
proof -
  obtain key rest where "authMethods L cfg = Inr au"
    and e: "evs = (DialTCP (dialAddr cfg), RConn (Inr conn)) # (KeyExchange conn, RKey (Inr key)) #
           (UserAuth conn au, r) # rest"
    and "hostKeyCallback L cfg (dialAddr cfg) (trimSpace (marshalAuthorizedKey L key)) = Inr ()"
    using cutoff_Dial [OF assms(2), of conn au r] assms(3) by auto
  moreover have "(KeyExchange conn, RKey (Inr key)) \<in> set pre"
    using e assms(3) by (auto simp: append_eq_Cons_conv)
  ultimately show ?thesis
    using hostKeyCallback_accepts [OF assms(1)] by blast
qed

subsection \<open>Properties\<close>

text \<open>
  C11. The credentials reach only a host whose key the policy accepts: in every run of
  \<open>Dial\<close>, finished or cut off, the user's authentication comes after a key exchange on the
  same connection in which the server presented a key that the policy accepts (any key
  under Insecure, any key on first contact under TOFU, and otherwise the configured key),
  and it uses the credentials of the configuration.
\<close>

theorem Dial_verifies_before_auth:
  assumes "authorizedKeysLib L" and "cutoff (Dial L cfg) evs" and "evs = pre @ (UserAuth conn au, r) # post"
  shows "authMethods L cfg = Inr au \<and>
    (\<exists>key. (KeyExchange conn, RKey (Inr key)) \<in> set pre \<and> keyAccepted L cfg key)"
  using assms by (rule Dial_policy)

text \<open>
  A host whose key the policy does not accept gets nothing: the dial ends in an error,
  which under Strict and TOFU is the host key mismatch that is not retried, without any
  attempt to authenticate, and with the connection closed.
\<close>

theorem Dial_refuses_changed_key:
  assumes "authorizedKeysLib L" and "replay (Dial L cfg) evs = Some out"
    and "(KeyExchange conn, RKey (Inr key)) \<in> set evs" and "\<not> keyAccepted L cfg key"
  shows "\<exists>e. out = Inl e \<and>
    (cfPolicy cfg = PolicyStrict \<or> cfPolicy cfg = PolicyTOFU \<longrightarrow> ekind e = ErrHostKeyMismatch) \<and>
    (\<forall>n au r. (UserAuth n au, r) \<notin> set evs) \<and> (\<exists>r. (CloseConn conn, r) \<in> set evs)"
proof -
  have "hostKeyCallback L cfg (dialAddr cfg) (trimSpace (marshalAuthorizedKey L key)) \<noteq> Inr ()"
    using hostKeyCallback_accepts [OF assms(1)] assms(4) by blast
  then obtain e where e: "hostKeyCallback L cfg (dialAddr cfg) (trimSpace (marshalAuthorizedKey L key)) = Inl e"
    by (metis (full_types) old.unit.exhaust sum.exhaust)
  have k: "ekind (handshakeFailed L e) = ekind e"
    using assms(1) by (simp add: authorizedKeysLib_def)
  show ?thesis
    using assms(2,3) e hostKeyCallback_rejects [OF e] k
    by (auto simp: Dial_def Let_def replay_run dialAddr_def)
qed

subsection \<open>A concrete library\<close>

definition exampleSshLib :: sshLib where
  "exampleSshLib = \<lparr>
     parsePrivateKey = Inr,
     parsePrivateKeyWithPassphrase = (\<lambda>k p. Inr k),
     marshalAuthorizedKey = (\<lambda>k. ''ssh-ed25519 A'' @ k @ ''Z''),
     parseAuthorizedKey = (\<lambda>s. if hasPrefix s ''ssh-ed25519 A'' then Some (butlast (drop 13 s)) else None),
     handshakeFailed = wrapf ''ssh: handshake failed''\<rparr>"

lemma exampleSshLib_ok: "authorizedKeysLib exampleSshLib"
proof -
  have "trimSpace (''ssh-ed25519 A'' @ k @ ''Z'') = ''ssh-ed25519 A'' @ k @ ''Z''" for k
    by (rule trimSpace_id) (simp add: isSpace_def)
  then show ?thesis
    by (simp add: authorizedKeysLib_def exampleSshLib_def hasPrefix_iff)
qed

definition exampleConfig :: config where
  "exampleConfig = \<lparr>cfAddress = ''10.0.0.5'', cfPort = 0, cfUser = ''root'', cfPrivateKey = ''pem'',
     cfPassphrase = [], cfPassword = [], cfPolicy = PolicyTOFU, cfKnownPublicKey = ''ssh-ed25519 AkeyZ''\<rparr>"

definition exampleAuth :: sshAuth where
  "exampleAuth = \<lparr>auUser = ''root'', auSigner = Some ''pem'', auPassword = None\<rparr>"

definition exampleDial :: trace where
  "exampleDial = [(DialTCP ''10.0.0.5:22'', RConn (Inr 7)), (KeyExchange 7, RKey (Inr ''key''))]"

theorem Dial_verifies_before_auth_witness:
  "authMethods exampleSshLib exampleConfig = Inr exampleAuth \<and>
   (\<exists>key. (KeyExchange 7, RKey (Inr key)) \<in> set exampleDial \<and> keyAccepted exampleSshLib exampleConfig key)"
proof -
  have c: "cutoff (Dial exampleSshLib exampleConfig) (exampleDial @ [(UserAuth 7 exampleAuth, RUnit (Inr ()))])"
    by code_simp
  show ?thesis
    using Dial_verifies_before_auth [OF exampleSshLib_ok c, of exampleDial 7 exampleAuth "RUnit (Inr ())" "[]"]
    by simp
qed

theorem Dial_refuses_changed_key_witness:
  "\<exists>e out. replay (Dial exampleSshLib exampleConfig)
      [(DialTCP ''10.0.0.5:22'', RConn (Inr 7)), (KeyExchange 7, RKey (Inr ''other'')), (CloseConn 7, RUnit (Inr ()))]
      = Some out \<and> out = Inl e \<and> ekind e = ErrHostKeyMismatch"
proof -
  let ?evs = "[(DialTCP ''10.0.0.5:22'', RConn (Inr 7)), (KeyExchange 7, RKey (Inr ''other'')),
    (CloseConn 7, RUnit (Inr ()))]"
  have "replay (Dial exampleSshLib exampleConfig) ?evs \<noteq> None"
    by code_simp
  then obtain out where o: "replay (Dial exampleSshLib exampleConfig) ?evs = Some out" by blast
  have "\<not> keyAccepted exampleSshLib exampleConfig ''other''"
    by code_simp
  moreover have "cfPolicy exampleConfig = PolicyTOFU" by (simp add: exampleConfig_def)
  ultimately show ?thesis
    using Dial_refuses_changed_key [OF exampleSshLib_ok o, of 7 "''other''"] o by auto
qed

end
