(* ===== verification/KG_Connection.thy ===== *)
theory KG_Connection
  imports KG_Ssh
begin

text \<open>
  \<^verbatim>\<open>internal/controller/connection.go\<close>: from a Host and its credential Secret to an SSH
  connection, with the key that a TOFU host presented first pinned into the Host. The
  theorem is the point of that policy: once a key is pinned, a connection that gets as far as
  the credentials is one to a host with that key.
\<close>

definition SecretKeyPrivateKey :: string where "SecretKeyPrivateKey = ''private_key''"
definition SecretKeyPassphrase :: string where "SecretKeyPassphrase = ''passphrase''"
definition SecretKeyPassword :: string where "SecretKeyPassword = ''password''"

definition configOf :: "host \<Rightarrow> secret \<Rightarrow> config" where
  "configOf h s = \<lparr>
     cfAddress = hsAddress (hSpec h),
     cfPort = hsPort (hSpec h),
     cfUser = hsUser (hSpec h),
     cfPrivateKey = mapGet (scData s) SecretKeyPrivateKey,
     cfPassphrase = mapGet (scData s) SecretKeyPassphrase,
     cfPassword = mapGet (scData s) SecretKeyPassword,
     cfPolicy = hsHostKeyPolicy (hSpec h),
     cfKnownPublicKey =
       (if hsHostKeyPolicy (hSpec h) = PolicyStrict then hsPublicKey (hSpec h)
        else if hsHostKeyPolicy (hSpec h) = PolicyTOFU then stObservedPublicKey (hStatus h)
        else [])\<rparr>"

definition sshConfigFor :: "host \<Rightarrow> config result prog" where
  "sshConfigFor h =
     (let key = (mNamespace (hMeta h), hsSSHSecretRef (hSpec h))
      in bind (getSecret key) (\<lambda>r. case r of
           Inl e \<Rightarrow> Ret (Inl (wrapf (''get ssh secret '' @ keyString key) e))
         | Inr s \<Rightarrow>
             let cfg = configOf h s
             in if cfPrivateKey cfg = [] \<and> cfPassword cfg = []
                then Ret (Inl (errorf (''secret '' @ keyString key @ '' has neither '' @ goQuote SecretKeyPrivateKey
                       @ '' nor '' @ goQuote SecretKeyPassword)))
                else Ret (Inr cfg)))"

text \<open>\<^verbatim>\<open>connect\<close> changes the Host it is given: the Host comes back beside the connection.\<close>

definition pinKey :: "host \<Rightarrow> string \<Rightarrow> host" where
  "pinKey h key =
     (if hsHostKeyPolicy (hSpec h) = HostKeyPolicyTOFU \<and> stObservedPublicKey (hStatus h) = []
      then h\<lparr>hStatus := (hStatus h)\<lparr>stObservedPublicKey := key\<rparr>\<rparr>
      else h)"

definition connect :: "sshLib \<Rightarrow> host \<Rightarrow> (sshClient \<times> host) result prog" where
  "connect L h =
     bindE (sshConfigFor h) (\<lambda>cfg.
     bindE (Dial L cfg) (\<lambda>conn.
     Ret (Inr (conn, pinKey h (scHostKey conn)))))"

subsection \<open>Lemmas\<close>

lemma configOf_sel [simp]:
  "cfPolicy (configOf h s) = hsHostKeyPolicy (hSpec h)"
  "cfAddress (configOf h s) = hsAddress (hSpec h)"
  by (simp_all add: configOf_def)

lemma pinKey_keeps [simp]:
  "hMeta (pinKey h k) = hMeta h" "hSpec (pinKey h k) = hSpec h"
  "stPhase (hStatus (pinKey h k)) = stPhase (hStatus h)"
  "stClaimRef (hStatus (pinKey h k)) = stClaimRef (hStatus h)"
  "stConditions (hStatus (pinKey h k)) = stConditions (hStatus h)"
  "stSystemInfo (hStatus (pinKey h k)) = stSystemInfo (hStatus h)"
  "stLastProbeTime (hStatus (pinKey h k)) = stLastProbeTime (hStatus h)"
  by (simp_all add: pinKey_def)

lemma replay_sshConfigFor:
  "replay (sshConfigFor h) evs = Some (Inr cfg) \<Longrightarrow>
   \<exists>s. evs = [(GetSecret (mNamespace (hMeta h), hsSSHSecretRef (hSpec h)), RSecret (Inr s))] \<and> cfg = configOf h s"
  by (auto simp: sshConfigFor_def Let_def replay_run)

lemma sshConfigFor_calls:
  "cutoff (sshConfigFor h) evs \<Longrightarrow>
   evs = [] \<or> (\<exists>r. evs = [(GetSecret (mNamespace (hMeta h), hsSSHSecretRef (hSpec h)), r)])"
  by (auto simp: sshConfigFor_def Let_def cutoff_run)

text \<open>The calls of a connection: the Secret, then those of a dial.\<close>

lemma cutoff_connect:
  assumes "cutoff (connect L h) evs"
  obtains (config) "cutoff (sshConfigFor h) evs"
    | (dial) s e2 where
      "evs = (GetSecret (mNamespace (hMeta h), hsSSHSecretRef (hSpec h)), RSecret (Inr s)) # e2"
      "cutoff (Dial L (configOf h s)) e2"
proof -
  note cases = that
  have dial: thesis
    if e: "evs = e1 @ e2" "replay (sshConfigFor h) e1 = Some (Inr cfg)" "cutoff (Dial L cfg) e2" for e1 e2 cfg
    using replay_sshConfigFor [OF e(2)] e cases(2) by auto
  have "cutoff (bindE (Dial L cfg) (\<lambda>conn. Ret (Inr (conn, pinKey h (scHostKey conn))))) e2 \<Longrightarrow>
      cutoff (Dial L cfg) e2" for cfg e2
    by (auto simp: cutoff_bindE dest: replay_cutoff)
  then show thesis
    using assms cases(1) dial unfolding connect_def cutoff_bindE [of "sshConfigFor h"] by blast
qed

lemma replay_connect:
  assumes "replay (connect L h) evs = Some (Inr (c, h'))"
  obtains s e2 where
    "evs = (GetSecret (mNamespace (hMeta h), hsSSHSecretRef (hSpec h)), RSecret (Inr s)) # e2"
    "replay (Dial L (configOf h s)) e2 = Some (Inr c)" "h' = pinKey h (scHostKey c)"
  using assms
  by (auto simp: connect_def replay_bindE dest!: replay_sshConfigFor)

text \<open>A connection makes no calls that write to the API server or run a command.\<close>

definition connectReq :: "req \<Rightarrow> bool" where
  "connectReq q = (case q of GetSecret _ \<Rightarrow> True | DialTCP _ \<Rightarrow> True | KeyExchange _ \<Rightarrow> True
     | UserAuth _ _ \<Rightarrow> True | CloseConn _ \<Rightarrow> True | _ \<Rightarrow> False)"

lemma connect_calls: "cutoff (connect L h) evs \<Longrightarrow> e \<in> set evs \<Longrightarrow> connectReq (fst e)"
  by (erule cutoff_connect)
    (auto dest!: sshConfigFor_calls cutoff_Dial_calls [where e = e] simp: connectReq_def)

subsection \<open>Property\<close>

text \<open>
  C12. Trust on first use. A connection to a TOFU host that has no pinned key leaves the key
  it saw pinned in the Host. From then on, whatever else changed in the Host, every
  connection attempt under that pinned key that gets as far as sending the credentials is
  to a server that presented that same key.
\<close>

theorem connect_trust_on_first_use:
  assumes "authorizedKeysLib L"
    and "hsHostKeyPolicy (hSpec h) = HostKeyPolicyTOFU" "stObservedPublicKey (hStatus h) = []"
    and "replay (connect L h) evs = Some (Inr (c, h'))"
    and "hsHostKeyPolicy (hSpec g) = HostKeyPolicyTOFU"
    and "stObservedPublicKey (hStatus g) = stObservedPublicKey (hStatus h')"
    and "cutoff (connect L g) evs'" "evs' = pre @ (UserAuth n au, r) # post"
  shows "\<exists>key. (KeyExchange (scConn c), RKey (Inr key)) \<in> set evs \<and> (KeyExchange n, RKey (Inr key)) \<in> set pre"
proof -
  from assms(4) obtain s e2 where e: "evs = (GetSecret (mNamespace (hMeta h), hsSSHSecretRef (hSpec h)), RSecret (Inr s)) # e2"
    "replay (Dial L (configOf h s)) e2 = Some (Inr c)" and h': "h' = pinKey h (scHostKey c)"
    by (rule replay_connect)
  obtain key where k: "(KeyExchange (scConn c), RKey (Inr key)) \<in> set evs"
    "scHostKey c = trimSpace (marshalAuthorizedKey L key)"
    using replay_Dial_ok [OF e(2)] e(1) by auto
  have pinned: "stObservedPublicKey (hStatus g) = trimSpace (marshalAuthorizedKey L key)"
    using assms(2,3,6) h' k(2) by (simp add: pinKey_def)
  have u: "(UserAuth n au, r) \<in> set evs'" using assms(8) by simp
  from assms(7) show ?thesis
  proof (cases rule: cutoff_connect)
    case config
    then show ?thesis using sshConfigFor_calls [OF config] u by auto
  next
    case (dial s' e2')
    obtain pre' where p: "pre = (GetSecret (mNamespace (hMeta g), hsSSHSecretRef (hSpec g)), RSecret (Inr s')) # pre'"
      "e2' = pre' @ (UserAuth n au, r) # post"
      using dial(1) assms(8) by (auto simp: append_eq_Cons_conv)
    obtain key' where k': "(KeyExchange n, RKey (Inr key')) \<in> set pre'" "keyAccepted L (configOf g s') key'"
      using Dial_policy [OF assms(1) dial(2) p(2)] by blast
    have "parseAuthorizedKey L (trimSpace (marshalAuthorizedKey L key)) = Some key"
      "trimSpace (marshalAuthorizedKey L key) \<noteq> []"
      using assms(1) by (simp_all add: authorizedKeysLib_def)
    then have "key' = key"
      using k'(2) pinned assms(5)
      by (auto simp: keyAccepted_def configOf_def HostKeyPolicyTOFU_def PolicyTOFU_def PolicyInsecure_def PolicyStrict_def)
    then show ?thesis using k(1) k'(1) p(1) by auto
  qed
qed

subsection \<open>A concrete host\<close>

definition exampleMeta :: "string \<Rightarrow> objectMeta" where
  "exampleMeta name = \<lparr>mNamespace = ''default'', mName = name, mUID = ''uid-'' @ name, mResourceVersion = ''1'',
     mGeneration = 1, mLabels = [], mAnnotations = [], mFinalizers = [], mOwnerRefs = [],
     mDeletionTimestamp = None\<rparr>"

definition exampleTofuHost :: host where
  "exampleTofuHost = \<lparr>hMeta = exampleMeta ''kg-worker-1'',
     hSpec = \<lparr>hsAddress = ''10.0.0.5'', hsPort = 22, hsUser = ''root'', hsSSHSecretRef = ''ssh'',
       hsHostKeyPolicy = HostKeyPolicyTOFU, hsPublicKey = [], hsUnhealthy = False\<rparr>,
     hStatus = \<lparr>stPhase = HostPhaseAvailable, stClaimRef = None, stObservedPublicKey = [], stLastProbeTime = None,
       stSystemInfo = None, stConditions = []\<rparr>\<rparr>"

definition exampleSecret :: secret where
  "exampleSecret = \<lparr>scMeta = exampleMeta ''ssh'', scData = [(''private_key'', ''pem'')]\<rparr>"

definition exampleConnect :: "nat \<Rightarrow> trace" where
  "exampleConnect n = [(GetSecret (''default'', ''ssh''), RSecret (Inr exampleSecret)),
     (DialTCP ''10.0.0.5:22'', RConn (Inr n)), (KeyExchange n, RKey (Inr ''key''))]"

theorem connect_trust_on_first_use_witness:
  "\<exists>c h'. replay (connect exampleSshLib exampleTofuHost)
       (exampleConnect 7 @ [(UserAuth 7 exampleAuth, RUnit (Inr ()))]) = Some (Inr (c, h')) \<and>
     (\<exists>key. (KeyExchange (scConn c), RKey (Inr key)) \<in> set (exampleConnect 7 @ [(UserAuth 7 exampleAuth, RUnit (Inr ()))]) \<and>
            (KeyExchange 8, RKey (Inr key)) \<in> set (exampleConnect 8))"
proof -
  let ?evs = "exampleConnect 7 @ [(UserAuth 7 exampleAuth, RUnit (Inr ()))]"
  let ?c = "\<lparr>scConn = 7, scHostKey = ''ssh-ed25519 AkeyZ''\<rparr>"
  let ?h = "pinKey exampleTofuHost ''ssh-ed25519 AkeyZ''"
  have r: "replay (connect exampleSshLib exampleTofuHost) ?evs = Some (Inr (?c, ?h))"
    by code_simp
  have c: "cutoff (connect exampleSshLib ?h) (exampleConnect 8 @ (UserAuth 8 exampleAuth, RUnit (Inr ())) # [])"
    by code_simp
  have p: "hsHostKeyPolicy (hSpec exampleTofuHost) = HostKeyPolicyTOFU" "stObservedPublicKey (hStatus exampleTofuHost) = []"
    by (simp_all add: exampleTofuHost_def)
  have "\<exists>key. (KeyExchange (scConn ?c), RKey (Inr key)) \<in> set ?evs \<and> (KeyExchange 8, RKey (Inr key)) \<in> set (exampleConnect 8)"
    by (rule connect_trust_on_first_use [OF exampleSshLib_ok p r _ refl c refl]) (simp add: p)
  then show ?thesis using r by blast
qed

end
