(* ===== verification/KG_Sha256.thy ===== *)
theory KG_Sha256
  imports KG_GoStrings
begin

text \<open>
  Go's \<^verbatim>\<open>crypto/sha256\<close> and \<^verbatim>\<open>encoding/hex\<close>, as far as \<^verbatim>\<open>provisioner.Checksum\<close> and the
  cluster registry use them: the digest of FIPS 180-4 on a byte string, and its lower case
  hexadecimal text. Words of 32 bits are integers below \<open>2 ^ 32\<close>; a rotation by \<open>n\<close> is
  written with the modulus \<open>2 ^ n\<close>.
\<close>

unbundle bit_operations_syntax

definition shaK :: "int list" where
  "shaK = [
    1116352408, 1899447441, 3049323471, 3921009573, 961987163, 1508970993, 2453635748,
    2870763221, 3624381080, 310598401, 607225278, 1426881987, 1925078388, 2162078206,
    2614888103, 3248222580, 3835390401, 4022224774, 264347078, 604807628, 770255983,
    1249150122, 1555081692, 1996064986, 2554220882, 2821834349, 2952996808, 3210313671,
    3336571891, 3584528711, 113926993, 338241895, 666307205, 773529912, 1294757372,
    1396182291, 1695183700, 1986661051, 2177026350, 2456956037, 2730485921, 2820302411,
    3259730800, 3345764771, 3516065817, 3600352804, 4094571909, 275423344, 430227734,
    506948616, 659060556, 883997877, 958139571, 1322822218, 1537002063, 1747873779,
    1955562222, 2024104815, 2227730452, 2361852424, 2428436474, 2756734187, 3204031479,
    3329325298]"

definition shaInit :: "int list" where
  "shaInit = [
    1779033703, 3144134277, 1013904242, 2773480762, 1359893119, 2600822924, 528734635,
    1541459225]"

definition add32 :: "int \<Rightarrow> int \<Rightarrow> int" where
  "add32 x y = (x + y) mod 4294967296"

definition rotr :: "int \<Rightarrow> int \<Rightarrow> int" where
  "rotr m x = x div m + (x mod m) * (4294967296 div m)"

definition sigma0 :: "int \<Rightarrow> int" where
  "sigma0 x = rotr 128 x XOR rotr 262144 x XOR (x div 8)"

definition sigma1 :: "int \<Rightarrow> int" where
  "sigma1 x = rotr 131072 x XOR rotr 524288 x XOR (x div 1024)"

definition Sigma0 :: "int \<Rightarrow> int" where
  "Sigma0 x = rotr 4 x XOR rotr 8192 x XOR rotr 4194304 x"

definition Sigma1 :: "int \<Rightarrow> int" where
  "Sigma1 x = rotr 64 x XOR rotr 2048 x XOR rotr 33554432 x"

definition shaCh :: "int \<Rightarrow> int \<Rightarrow> int \<Rightarrow> int" where
  "shaCh e f g = (e AND f) XOR ((4294967295 - e) AND g)"

definition shaMaj :: "int \<Rightarrow> int \<Rightarrow> int \<Rightarrow> int" where
  "shaMaj a b c = (a AND b) XOR (a AND c) XOR (b AND c)"

text \<open>The message schedule, newest word first, and the compression of one block.\<close>

definition nextWord :: "int list \<Rightarrow> int" where
  "nextWord ws = add32 (add32 (sigma1 (ws ! 1)) (ws ! 6)) (add32 (sigma0 (ws ! 14)) (ws ! 15))"

fun schedule :: "nat \<Rightarrow> int list \<Rightarrow> int list" where
  "schedule 0 ws = ws"
| "schedule (Suc n) ws = schedule n (nextWord ws # ws)"

fun shaRound :: "int list \<Rightarrow> int \<times> int \<Rightarrow> int list" where
  "shaRound [a, b, c, d, e, f, g, h] (k, w) =
     (\<lambda>t1 t2. [add32 t1 t2, a, b, c, add32 d t1, e, f, g])
       (add32 (add32 h (Sigma1 e)) (add32 (shaCh e f g) (add32 k w)))
       (add32 (Sigma0 a) (shaMaj a b c))"
| "shaRound xs _ = xs"

definition shaBlock :: "int list \<Rightarrow> int list \<Rightarrow> int list" where
  "shaBlock hs ws =
     map2 add32 hs (foldl shaRound hs (zip shaK (rev (schedule 48 (rev ws)))))"

definition byteInt :: "char \<Rightarrow> int" where
  "byteInt c = of_char c"

fun toWords :: "int list \<Rightarrow> int list" where
  "toWords (a # b # c # d # bs) = (((a * 256 + b) * 256 + c) * 256 + d) # toWords bs"
| "toWords _ = []"

text \<open>The \<open>n\<close> low bytes of a number, the most significant one first.\<close>

fun bigEndian :: "nat \<Rightarrow> int \<Rightarrow> int list" where
  "bigEndian 0 x = []"
| "bigEndian (Suc n) x = bigEndian n (x div 256) @ [x mod 256]"

definition shaPad :: "string \<Rightarrow> int list" where
  "shaPad s = map byteInt s @ 128 # replicate ((119 - length s mod 64) mod 64) 0
     @ bigEndian 8 (8 * int (length s))"

fun shaBlocks :: "nat \<Rightarrow> int list \<Rightarrow> int list \<Rightarrow> int list" where
  "shaBlocks 0 hs ws = hs"
| "shaBlocks (Suc n) hs ws = shaBlocks n (shaBlock hs (take 16 ws)) (drop 16 ws)"

text \<open>The padded message has \<open>(length s + 8) div 64 + 1\<close> blocks of sixteen words.\<close>

definition sum256 :: "string \<Rightarrow> int list" where
  "sum256 s = concat (map (\<lambda>w. bigEndian 4 w)
     (shaBlocks ((length s + 8) div 64 + 1) shaInit (toWords (shaPad s))))"

definition hexEncode :: "int list \<Rightarrow> string" where
  "hexEncode bs = concat (map (\<lambda>b. [hexDigit (nat (b div 16)), hexDigit (nat (b mod 16))]) bs)"

definition sha256Hex :: "string \<Rightarrow> string" where
  "sha256Hex s = hexEncode (sum256 s)"

subsection \<open>The shape of a checksum\<close>

lemma length_shaRound [simp]: "length (shaRound xs kw) = length xs"
  by (induction xs kw rule: shaRound.induct) simp_all

lemma length_foldl_shaRound [simp]: "length (foldl shaRound hs kws) = length hs"
  by (induction kws arbitrary: hs) simp_all

lemma length_shaBlocks [simp]: "length (shaBlocks n hs ws) = length hs"
  by (induction n hs ws rule: shaBlocks.induct) (simp_all add: shaBlock_def)

lemma length_bigEndian [simp]: "length (bigEndian n x) = n"
  by (induction n x rule: bigEndian.induct) simp_all

lemma bigEndian_range: "b \<in> set (bigEndian n x) \<Longrightarrow> 0 \<le> b \<and> b < 256"
  by (induction n x rule: bigEndian.induct) auto

lemma length_concat_map:
  "(\<And>x. x \<in> set xs \<Longrightarrow> length (f x) = n) \<Longrightarrow> length (concat (map f xs)) = n * length xs"
  by (induction xs) auto

declare shaBlocks.simps [simp del]

lemma length_sum256 [simp]: "length (sum256 s) = 32"
proof -
  have "length (shaBlocks n shaInit ws) = 8" for n ws
    by (simp add: shaInit_def)
  then show ?thesis by (simp add: sum256_def length_concat_map)
qed

lemma length_sha256Hex [simp]: "length (sha256Hex s) = 64"
  by (simp add: sha256Hex_def hexEncode_def length_concat_map)

lemma hexDigit_nonspace: "n < 16 \<Longrightarrow> \<not> isSpace (hexDigit n)"
proof -
  have "list_all (\<lambda>n. \<not> isSpace (hexDigit n)) [0..<16]"
    by code_simp
  then show "n < 16 \<Longrightarrow> \<not> isSpace (hexDigit n)"
    by (simp add: list_all_iff)
qed

lemma sha256Hex_nonspace:
  assumes "c \<in> set (sha256Hex s)"
  shows "\<not> isSpace c"
proof -
  obtain b where "0 \<le> b" "b < 256" and c: "c = hexDigit (nat (b div 16)) \<or> c = hexDigit (nat (b mod 16))"
    using assms by (auto simp: sha256Hex_def hexEncode_def sum256_def dest!: bigEndian_range)
  then have "nat (b div 16) < 16" "nat (b mod 16) < 16"
    by auto
  then show ?thesis using c hexDigit_nonspace by blast
qed

lemma trimSpace_sha256Hex [simp]: "trimSpace (sha256Hex s) = sha256Hex s"
  using sha256Hex_nonspace by (blast intro: trimSpace_nonspace)

text \<open>A test vector of FIPS 180-4.\<close>

lemma sha256Hex_abc: "sha256Hex ''abc'' = ''ba7816bf8f01cfea414140de5dae2223b00361a396177a9cb410ff61f20015ad''"
  by code_simp

end
