(* ===== verification/KG_Provisioner.thy ===== *)
theory KG_Provisioner
  imports KG_Ssh KG_Sha256
begin

text \<open>
  The provisioner, \<^verbatim>\<open>internal/provisioner\<close>: the bootstrap run that is detached on a host and
  reports through files, and the probe that reads the host's facts. The programs are
  sequences of remote commands; what the commands do to the host's files is the parameter
  of \<open>posixHost\<close>. The theorems show what \<open>Status\<close> says of the files, that an interrupted
  \<open>Start\<close> never reads as a run, that what a probe prints is what \<open>Probe\<close> reports, and the
  one window in which a failed launch reads as a running one.
\<close>

subsection \<open>Paths, phases, state\<close>

definition stateDir :: string where "stateDir = ''/var/lib/kgenesis''"
definition scriptPath :: string where "scriptPath = stateDir @ ''/bootstrap.sh''"
definition runnerPath :: string where "runnerPath = stateDir @ ''/run.sh''"
definition checksumPath :: string where "checksumPath = stateDir @ ''/checksum''"
definition exitCodePath :: string where "exitCodePath = stateDir @ ''/exit-code''"
definition LogPath :: string where "LogPath = ''/var/log/kgenesis-bootstrap.log''"

datatype phase = PhaseIdle | PhaseRunning | PhaseSucceeded | PhaseFailed

record state =
  ssPhase :: phase
  ssChecksum :: string
  ssExitCode :: int
  ssLogTail :: string

definition plainState :: "phase \<Rightarrow> string \<Rightarrow> state" where
  "plainState p recorded = \<lparr>ssPhase = p, ssChecksum = recorded, ssExitCode = 0, ssLogTail = []\<rparr>"

definition Checksum :: "string \<Rightarrow> string" where
  "Checksum data = sha256Hex data"

subsection \<open>Reading the state\<close>

definition readCommand :: "string \<Rightarrow> string" where
  "readCommand path = ''if [ -f '' @ goQuote path @ '' ]; then cat '' @ goQuote path @ ''; fi''"

definition readFile :: "sshClient \<Rightarrow> string \<Rightarrow> string result prog" where
  "readFile c path = bind (Run c (readCommand path)) (\<lambda>(res, err). case err of
      Some e \<Rightarrow> Ret (Inl (wrapf (''read '' @ path) e))
    | None \<Rightarrow> Ret (Inr (trimSpace (rsStdout res))))"

definition logTailLines :: nat where "logTailLines = 40"

definition tailCommand :: string where
  "tailCommand = ''if [ -f '' @ goQuote LogPath @ '' ]; then tail -n '' @ showNat logTailLines @ '' ''
     @ goQuote LogPath @ ''; fi''"

definition tailLog :: "sshClient \<Rightarrow> string result prog" where
  "tailLog c = bind (Run c tailCommand) (\<lambda>(res, err). case err of
      Some e \<Rightarrow> Ret (Inl (wrapf (''read '' @ LogPath) e))
    | None \<Rightarrow> Ret (Inr (trimSpace (rsStdout res))))"

definition Status :: "sshClient \<Rightarrow> string \<Rightarrow> state result prog" where
  "Status c desiredChecksum =
     bindE (readFile c checksumPath) (\<lambda>recorded.
       if recorded = [] \<or> recorded \<noteq> desiredChecksum then Ret (Inr (plainState PhaseIdle recorded))
       else bindE (readFile c exitCodePath) (\<lambda>exitCode.
         if exitCode = [] then Ret (Inr (plainState PhaseRunning recorded))
         else case parseInt 64 exitCode of
             None \<Rightarrow> Ret (Inl (errorf (''host wrote an unreadable exit code '' @ goQuote exitCode
                                   @ '' to '' @ exitCodePath)))
           | Some code \<Rightarrow>
               if code = 0 then Ret (Inr (plainState PhaseSucceeded recorded))
               else bindE (tailLog c) (\<lambda>logTail.
                 Ret (Inr \<lparr>ssPhase = PhaseFailed, ssChecksum = recorded, ssExitCode = code,
                           ssLogTail = logTail\<rparr>))))"

subsection \<open>Starting a run\<close>

definition requiredCommands :: "string list" where
  "requiredCommands = [''bash'', ''base64'', ''install'', ''setsid'', ''systemctl'', ''kubeadm'', ''kubelet'']"

text \<open>The loop over the required commands, with the ones found missing so far.\<close>

fun probeCommands :: "sshClient \<Rightarrow> string list \<Rightarrow> string list \<Rightarrow> string list result prog" where
  "probeCommands c missing [] = Ret (Inr missing)"
| "probeCommands c missing (cmd # cmds) =
     bind (Run c (''command -v '' @ cmd)) (\<lambda>(res, err). case err of
         None \<Rightarrow> probeCommands c missing cmds
       | Some e \<Rightarrow>
           if ekind e = ErrExit then probeCommands c (missing @ [cmd]) cmds
           else Ret (Inl (wrapf (''probe for '' @ cmd) e)))"

definition preflight :: "sshClient \<Rightarrow> unit result prog" where
  "preflight c = bind (Run c ''id -u'') (\<lambda>(res, err). case err of
      Some e \<Rightarrow> Ret (Inl (wrapf ''check privileges'' e))
    | None \<Rightarrow>
        if trimSpace (rsStdout res) \<noteq> ''0''
        then Ret (Inl (errorf (''kg needs to connect as root; the ssh user resolved to uid ''
                               @ trimSpace (rsStdout res))))
        else bindE (probeCommands c [] requiredCommands) (\<lambda>missing.
          if missing \<noteq> []
          then Ret (Inl (errorf (''host is missing required command(s): '' @ joinWith '', '' missing)))
          else Ret (Inr ())))"

definition prepareCommand :: string where
  "prepareCommand = ''install -d -m 0700 '' @ stateDir @ '' && rm -f '' @ exitCodePath @ '' '' @ checksumPath"

definition runnerScript :: "string \<Rightarrow> string" where
  "runnerScript checksum = joinWith [CHR 0x0A] [
     ''#!/usr/bin/env bash'',
     ''# Generated by kg. Runs the bootstrap script and records its outcome.'',
     ''exec >>'' @ LogPath @ '' 2>&1'',
     ''echo '' @ [CHR 0x22] @ ''=== kg bootstrap started $(date -Is) checksum='' @ checksum @ '' ==='' @ [CHR 0x22],
     ''set +e'',
     ''bash '' @ scriptPath,
     ''code=$?'',
     ''set -e'',
     ''echo '' @ [CHR 0x22] @ ''=== kg bootstrap finished $(date -Is) exit=${code} ==='' @ [CHR 0x22],
     ''printf '' @ [CHR 0x27] @ ''%s'' @ [CHR 0x27] @ '' '' @ [CHR 0x22] @ ''${code}'' @ [CHR 0x22] @ '' > '' @ exitCodePath,
     []]"

definition launchCommand :: string where
  "launchCommand = ''setsid nohup '' @ runnerPath @ '' </dev/null >/dev/null 2>&1 & disown; true''"

text \<open>\<open>Start\<close> once the preflight passed: clear the old outcome, upload, launch.\<close>

definition startSteps :: "sshClient \<Rightarrow> string \<Rightarrow> string \<Rightarrow> unit result prog" where
  "startSteps c script checksum =
     bind (Run c prepareCommand) (\<lambda>(_, err). case err of
       Some e \<Rightarrow> Ret (Inl (wrapf (''prepare '' @ stateDir) e))
     | None \<Rightarrow>
         bindE (WriteFile c scriptPath script ''0700'') (\<lambda>_.
         bindE (WriteFile c runnerPath (runnerScript checksum) ''0700'') (\<lambda>_.
         bindE (WriteFile c checksumPath checksum ''0600'') (\<lambda>_.
         bind (Run c launchCommand) (\<lambda>(_, err). case err of
           Some e \<Rightarrow> Ret (Inl (wrapf ''launch bootstrap'' e))
         | None \<Rightarrow> Ret (Inr ()))))))"

definition Start :: "sshClient \<Rightarrow> string \<Rightarrow> string \<Rightarrow> unit result prog" where
  "Start c script checksum = bindE (preflight c) (\<lambda>_. startSteps c script checksum)"

subsection \<open>Reset\<close>

definition resetScript :: string where
  "resetScript = joinWith [CHR 0x0A] (
     [
     ''#!/usr/bin/env bash'',
     ''# Generated by kg. Undoes a kubeadm bootstrap so the host can be reused.'',
     ''set -uo pipefail'',
     [],
     ''# kube-vip puts the control plane VIP on an interface itself, and kubeadm reset'',
     ''# knows nothing about it. The address has to be read before reset removes the'',
     ''# static pod that names it. Left behind, this host keeps answering for an'',
     ''# endpoint it no longer serves, and the next node joining through that VIP'',
     ''# reaches this one instead of the control plane.'',
     ''vip='',
     ''if [ -f /etc/kubernetes/manifests/kube-vip.yaml ]; then'',
     ''  vip='' @ [CHR 0x22] @ ''$(awk '' @ [CHR 0x27] @ ''/name: address/ { getline; gsub(/['' @ [CHR 0x22] @ ''[:space:]]/, '' @ [CHR 0x22, CHR 0x22] @ '', $0); sub(/^value:/, '' @ [CHR 0x22, CHR 0x22] @ '', $0); print; exit }'' @ [CHR 0x27] @ '' '' @ [CHR 0x5C],
     ''    /etc/kubernetes/manifests/kube-vip.yaml)'' @ [CHR 0x22],
     ''fi'',
     [],
     ''if command -v kubeadm >/dev/null 2>&1; then'',
     ''  # The last etcd member can wait for a quorum that is already gone.'',
     ''  # Reserve time for local cleanup even when kubeadm cannot finish.'',
     ''  timeout --kill-after=5s 60s kubeadm reset --force || true'',
     ''fi'',
     [],
     ''if [ -n '' @ [CHR 0x22] @ ''${vip}'' @ [CHR 0x22] @ '' ] && command -v ip >/dev/null 2>&1; then'',
     ''  ip -o -4 addr show | awk -v vip='' @ [CHR 0x22] @ ''${vip}'' @ [CHR 0x22] @ '' '' @ [CHR 0x27] @ ''$4 ~ '' @ [CHR 0x22] @ ''^'' @ [CHR 0x22] @ ''vip'' @ [CHR 0x22] @ ''/'' @ [CHR 0x22] @ '' { print $2, $4 }'' @ [CHR 0x27] @ '' |'',
     ''    while read -r iface addr; do'',
     ''      ip addr del '' @ [CHR 0x22] @ ''${addr}'' @ [CHR 0x22] @ '' dev '' @ [CHR 0x22] @ ''${iface}'' @ [CHR 0x22] @ '' 2>/dev/null || true'',
     ''    done'',
     ''fi'',
     [],
     ''systemctl stop kubelet 2>/dev/null || true'',
     [],
     ''if command -v crictl >/dev/null 2>&1; then'',
     ''  crictl rm --force --all 2>/dev/null || true'',
     ''fi'',
     [],
     ''if command -v ip >/dev/null 2>&1; then'',
     ''  for link in cni0 flannel.1 kube-ipvs0 cilium_host cilium_net cilium_vxlan; do'',
     ''    ip link delete '' @ [CHR 0x22] @ ''${link}'' @ [CHR 0x22] @ '' 2>/dev/null || true'',
     ''  done'',
     ''fi'',
     [],
     ''rm -rf /etc/cni/net.d /var/lib/cni /etc/kubernetes /var/lib/etcd'',
     ''# An interrupted kubeadm reset can leave client certificates from the old CA.'',
     ''# Never let a new join reuse that identity. Do not traverse pod volume mounts.'',
     ''rm -rf /var/lib/kubelet/pki'',
     ''rm -f /var/lib/kubelet/config.yaml /var/lib/kubelet/kubeadm-flags.env'',
     ''rm -f /var/lib/kubelet/instance-config.yaml'',
     ''rm -rf /run/kubeadm /run/cluster-api''] @ [
     ''rm -rf '' @ stateDir,
     [],
     ''if command -v iptables >/dev/null 2>&1; then'',
     ''  iptables -F 2>/dev/null || true'',
     ''  iptables -t nat -F 2>/dev/null || true'',
     ''  iptables -t mangle -F 2>/dev/null || true'',
     ''fi'',
     [],
     ''exit 0'',
     []])"

definition resetPath :: string where "resetPath = ''/tmp/kgenesis-reset.sh''"

definition resetCommand :: string where
  "resetCommand = ''bash '' @ resetPath @ '' && rm -f '' @ resetPath"

definition Reset :: "sshClient \<Rightarrow> unit result prog" where
  "Reset c =
     bindE (WriteFile c resetPath resetScript ''0700'') (\<lambda>_.
     bind (Run c resetCommand) (\<lambda>(_, err). case err of
       Some e \<Rightarrow> Ret (Inl (wrapf ''reset host'' e))
     | None \<Rightarrow> Ret (Inr ())))"

subsection \<open>Probe\<close>

record systemInfo =
  inHostname :: string
  inOSImage :: string
  inKernelVersion :: string
  inArchitecture :: string
  inCPUCores :: int
  inMemoryMB :: int
  inContainerRuntime :: string
  inKubeadmVersion :: string

definition probeScript :: string where
  "probeScript = joinWith [CHR 0x0A] [
     [],
     ''echo '' @ [CHR 0x22] @ ''hostname=$(hostname 2>/dev/null || echo)'' @ [CHR 0x22],
     ''echo '' @ [CHR 0x22] @ ''kernel=$(uname -r 2>/dev/null || echo)'' @ [CHR 0x22],
     ''echo '' @ [CHR 0x22] @ ''arch=$(uname -m 2>/dev/null || echo)'' @ [CHR 0x22],
     ''echo '' @ [CHR 0x22] @ ''cpu=$(nproc 2>/dev/null || echo)'' @ [CHR 0x22],
     ''echo '' @ [CHR 0x22] @ ''memkb=$(awk '' @ [CHR 0x27] @ ''/^MemTotal:/ {print $2}'' @ [CHR 0x27] @ '' /proc/meminfo 2>/dev/null || echo)'' @ [CHR 0x22],
     ''if [ -r /etc/os-release ]; then'',
     ''  . /etc/os-release'',
     ''  echo '' @ [CHR 0x22] @ ''os=${PRETTY_NAME:-${NAME:-}}'' @ [CHR 0x22],
     ''else'',
     ''  echo '' @ [CHR 0x22] @ ''os='' @ [CHR 0x22],
     ''fi'',
     ''runtime='',
     ''for candidate in containerd crio dockerd; do'',
     ''  if command -v '' @ [CHR 0x22] @ ''$candidate'' @ [CHR 0x22] @ '' >/dev/null 2>&1; then'',
     ''    # Each of these prints its own name, and around the version whatever else'',
     ''    # it feels like: a source path, a build revision, a trailing comma. The'',
     ''    # last field is not the version - kind'' @ [CHR 0x27] @ ''s containerd ends its line with a'',
     ''    # git revision - so the first field that reads like one is taken.'',
     ''    #'',
     ''    #   containerd github.com/containerd/containerd/v2 2.2.1        -> 2.2.1'',
     ''    #   containerd github.com/containerd/containerd/v2 v2.1.4 cb107 -> v2.1.4'',
     ''    #   Docker version 24.0.7, build afdd53b                        -> 24.0.7'',
     ''    version='' @ [CHR 0x22] @ ''$('' @ [CHR 0x22] @ ''$candidate'' @ [CHR 0x22] @ '' --version 2>/dev/null | head -1 | tr '' @ [CHR 0x27] @ '' '' @ [CHR 0x27] @ '' '' @ [CHR 0x27, CHR 0x5C] @ ''n'' @ [CHR 0x27] @ '' |'',
     ''      sed '' @ [CHR 0x27] @ ''s/[,;]$//'' @ [CHR 0x27] @ '' | grep -m1 -E '' @ [CHR 0x27] @ ''^v?[0-9]+'' @ [CHR 0x5C] @ ''.[0-9]+'' @ [CHR 0x27] @ '' || true)'' @ [CHR 0x22],
     ''    runtime='' @ [CHR 0x22] @ ''$candidate ${version}'' @ [CHR 0x22],
     ''    break'',
     ''  fi'',
     ''done'',
     ''echo '' @ [CHR 0x22] @ ''runtime=${runtime}'' @ [CHR 0x22],
     ''echo '' @ [CHR 0x22] @ ''kubeadm=$(kubeadm version -o short 2>/dev/null || echo)'' @ [CHR 0x22],
     []]"

definition normalizeArch :: "string \<Rightarrow> string" where
  "normalizeArch uname =
     (if uname = ''x86_64'' then ''amd64''
      else if uname = ''aarch64'' \<or> uname = ''arm64'' then ''arm64''
      else uname)"

text \<open>The \<^verbatim>\<open>key=value\<close> lines, the last line with a key wins.\<close>

definition probeLine :: "labels \<Rightarrow> string \<Rightarrow> labels" where
  "probeLine m line = (case cutAt (CHR ''='') (trimSpace line) of
      Some (key, val) \<Rightarrow> AList.update key (trimSpace val) m
    | None \<Rightarrow> m)"

definition probeFields :: "string \<Rightarrow> labels" where
  "probeFields stdout = foldl probeLine [] (splitOn (CHR 0x0A) stdout)"

text \<open>Go's integer division rounds towards zero.\<close>

definition quo :: "int \<Rightarrow> int \<Rightarrow> int" where
  "quo a b = (if a < 0 then - ((- a) div b) else a div b)"

definition systemInfoOf :: "string \<Rightarrow> systemInfo" where
  "systemInfoOf stdout =
     (let f = mapGet (probeFields stdout)
      in \<lparr>inHostname = f ''hostname'',
          inOSImage = f ''os'',
          inKernelVersion = f ''kernel'',
          inArchitecture = normalizeArch (f ''arch''),
          inCPUCores = (case parseInt 32 (f ''cpu'') of Some n \<Rightarrow> n | None \<Rightarrow> 0),
          inMemoryMB = (case parseInt 64 (f ''memkb'') of Some kb \<Rightarrow> quo kb 1024 | None \<Rightarrow> 0),
          inContainerRuntime = f ''runtime'',
          inKubeadmVersion = f ''kubeadm''\<rparr>)"

definition Probe :: "sshClient \<Rightarrow> systemInfo result prog" where
  "Probe c = bind (Run c probeScript) (\<lambda>(res, err). case err of
      Some e \<Rightarrow> Ret (Inl (wrapf ''probe host'' e))
    | None \<Rightarrow> Ret (Inr (systemInfoOf (rsStdout res))))"

subsection \<open>What the commands do to the host's files\<close>

text \<open>
  A host, for the provisioner, is its files and a relation that says which reply a command
  may give and what it leaves of the files. \<open>posixHost\<close> is what POSIX documents of the
  commands that \<open>Status\<close> and \<open>Start\<close> send: \<^verbatim>\<open>cat\<close> reads, an upload writes a prefix of the
  content and the whole of it when it reports success, \<^verbatim>\<open>rm -f\<close> removes, the launched
  run writes its exit code and its log. A session that could not be opened does nothing.
\<close>

type_synonym files = "string \<Rightarrow> string option"
type_synonym remote = "files \<Rightarrow> string \<Rightarrow> string option \<Rightarrow> execReply \<Rightarrow> files \<Rightarrow> bool"

definition fileText :: "files \<Rightarrow> string \<Rightarrow> string" where
  "fileText fs p = (case fs p of Some t \<Rightarrow> t | None \<Rightarrow> [])"

definition finishedOk :: "execReply \<Rightarrow> bool" where
  "finishedOk r = (case r of Done _ _ RunOk \<Rightarrow> True | _ \<Rightarrow> False)"

definition quietCommand :: "string \<Rightarrow> bool" where
  "quietCommand cmd \<longleftrightarrow> cmd = ''id -u'' \<or> cmd = tailCommand \<or> (\<exists>x\<in>set requiredCommands. cmd = ''command -v '' @ x)"

definition hostNoSession :: "remote \<Rightarrow> bool" where
  "hostNoSession R \<longleftrightarrow> (\<forall>fs cmd inp e fs'. R fs cmd inp (NoSession e) fs' \<longrightarrow> fs' = fs)"

definition hostQuiet :: "remote \<Rightarrow> bool" where
  "hostQuiet R \<longleftrightarrow> (\<forall>fs cmd r fs'. quietCommand cmd \<longrightarrow> R fs cmd None r fs' \<longrightarrow> fs' = fs)"

definition hostReads :: "remote \<Rightarrow> bool" where
  "hostReads R \<longleftrightarrow> (\<forall>fs p r fs'. p \<in> {checksumPath, exitCodePath} \<longrightarrow> R fs (readCommand p) None r fs' \<longrightarrow>
     fs' = fs \<and> (\<forall>out err. r = Done out err RunOk \<longrightarrow> out = fileText fs p))"

definition uploads :: "(string \<times> string) set" where
  "uploads = {(scriptPath, ''0700''), (runnerPath, ''0700''), (checksumPath, ''0600'')}"

definition hostWrites :: "remote \<Rightarrow> bool" where
  "hostWrites R \<longleftrightarrow> (\<forall>fs p m c r fs'. (p, m) \<in> uploads \<longrightarrow> R fs (writeFileCommand p m) (Some c) r fs' \<longrightarrow>
     (\<forall>q. q \<noteq> p \<longrightarrow> fs' q = fs q) \<and> (fs' p = fs p \<or> (\<exists>k. fs' p = Some (take k c))) \<and>
     (finishedOk r \<longrightarrow> fs' p = Some c))"

definition hostPrepares :: "remote \<Rightarrow> bool" where
  "hostPrepares R \<longleftrightarrow> (\<forall>fs r fs'. R fs prepareCommand None r fs' \<longrightarrow>
     (\<forall>q. fs' q = fs q \<or> q \<in> {exitCodePath, checksumPath} \<and> fs' q = None) \<and>
     (finishedOk r \<longrightarrow> fs' exitCodePath = None \<and> fs' checksumPath = None))"

definition hostLaunches :: "remote \<Rightarrow> bool" where
  "hostLaunches R \<longleftrightarrow> (\<forall>fs r fs'. R fs launchCommand None r fs' \<longrightarrow>
     (\<forall>q. q \<notin> {exitCodePath, LogPath} \<longrightarrow> fs' q = fs q))"

definition posixHost :: "remote \<Rightarrow> bool" where
  "posixHost R \<longleftrightarrow> hostNoSession R \<and> hostQuiet R \<and> hostReads R \<and> hostWrites R \<and> hostPrepares R \<and> hostLaunches R"

text \<open>The files after the commands of a trace.\<close>

fun hostTrace :: "remote \<Rightarrow> files \<Rightarrow> trace \<Rightarrow> files \<Rightarrow> bool" where
  "hostTrace R fs [] fs' \<longleftrightarrow> fs' = fs"
| "hostTrace R fs ((Exec n cmd inp, RExec r) # evs) fs' \<longleftrightarrow> (\<exists>m. R fs cmd inp r m \<and> hostTrace R m evs fs')"
| "hostTrace R fs _ fs' \<longleftrightarrow> False"

lemma hostTrace_append:
  "hostTrace R fs (e1 @ e2) fs' \<longleftrightarrow> (\<exists>m. hostTrace R fs e1 m \<and> hostTrace R m e2 fs')"
  by (induction R fs e1 fs' rule: hostTrace.induct) auto

lemma hostTrace_Exec:
  "hostTrace R fs ((Exec n cmd inp, r) # evs) fs' \<longleftrightarrow>
   (\<exists>x m. r = RExec x \<and> R fs cmd inp x m \<and> hostTrace R m evs fs')"
  by (cases r) auto

text \<open>The phase a host is in, read off its files.\<close>

definition recorded :: "files \<Rightarrow> string" where
  "recorded fs = trimSpace (fileText fs checksumPath)"

definition phaseOf :: "files \<Rightarrow> string \<Rightarrow> phase option" where
  "phaseOf fs desired =
     (let outcome = trimSpace (fileText fs exitCodePath)
      in if recorded fs = [] \<or> recorded fs \<noteq> desired then Some PhaseIdle
         else if outcome = [] then Some PhaseRunning
         else map_option (\<lambda>code. if code = 0 then PhaseSucceeded else PhaseFailed) (parseInt 64 outcome))"

subsection \<open>Lemmas on the steps\<close>

lemma paths_distinct [simp]:
  "checksumPath \<noteq> exitCodePath" "checksumPath \<noteq> scriptPath" "checksumPath \<noteq> runnerPath"
  "exitCodePath \<noteq> checksumPath" "exitCodePath \<noteq> scriptPath" "exitCodePath \<noteq> runnerPath"
  "scriptPath \<noteq> checksumPath" "scriptPath \<noteq> exitCodePath" "scriptPath \<noteq> runnerPath"
  "runnerPath \<noteq> checksumPath" "runnerPath \<noteq> exitCodePath" "runnerPath \<noteq> scriptPath"
  "LogPath \<noteq> checksumPath" "LogPath \<noteq> scriptPath" "LogPath \<noteq> runnerPath"
  "checksumPath \<noteq> LogPath" "scriptPath \<noteq> LogPath" "runnerPath \<noteq> LogPath"
  by (simp_all add: checksumPath_def exitCodePath_def scriptPath_def runnerPath_def LogPath_def stateDir_def)

lemma finishedOk_iff: "finishedOk r \<longleftrightarrow> (\<exists>out err. r = Done out err RunOk)"
  by (cases r) (auto simp: finishedOk_def split: runEnd.split)

lemma readFile_Run:
  "bindE (readFile c path) f = bind (Run c (readCommand path)) (\<lambda>(res, err). case err of
      Some e \<Rightarrow> Ret (Inl (wrapf (''read '' @ path) e))
    | None \<Rightarrow> f (trimSpace (rsStdout res)))"
  unfolding readFile_def bindE_def bind_assoc
  by (intro arg_cong2 [where f = bind] refl ext) (auto split: prod.split option.split)

lemma tailLog_Run:
  "bindE (tailLog c) f = bind (Run c tailCommand) (\<lambda>(res, err). case err of
      Some e \<Rightarrow> Ret (Inl (wrapf (''read '' @ LogPath) e))
    | None \<Rightarrow> f (trimSpace (rsStdout res)))"
  unfolding tailLog_def bindE_def bind_assoc
  by (intro arg_cong2 [where f = bind] refl ext) (auto split: prod.split option.split)

text \<open>A run of \<open>Status\<close> that returns a state, call by call.\<close>

lemma replay_Status_ok:
  assumes "replay (Status c desired) evs = Some (Inr st)"
  obtains (idle) out err where
      "evs = [(Exec (scConn c) (readCommand checksumPath) None, RExec (Done out err RunOk))]"
      "trimSpace out = [] \<or> trimSpace out \<noteq> desired" "ssPhase st = PhaseIdle"
    | (running) out err out' err' where
      "evs = [(Exec (scConn c) (readCommand checksumPath) None, RExec (Done out err RunOk)),
              (Exec (scConn c) (readCommand exitCodePath) None, RExec (Done out' err' RunOk))]"
      "trimSpace out = desired" "desired \<noteq> []" "trimSpace out' = []" "ssPhase st = PhaseRunning"
    | (succeeded) out err out' err' where
      "evs = [(Exec (scConn c) (readCommand checksumPath) None, RExec (Done out err RunOk)),
              (Exec (scConn c) (readCommand exitCodePath) None, RExec (Done out' err' RunOk))]"
      "trimSpace out = desired" "desired \<noteq> []" "trimSpace out' \<noteq> []" "parseInt 64 (trimSpace out') = Some 0"
      "ssPhase st = PhaseSucceeded"
    | (failed) out err out' err' code out'' err'' where
      "evs = [(Exec (scConn c) (readCommand checksumPath) None, RExec (Done out err RunOk)),
              (Exec (scConn c) (readCommand exitCodePath) None, RExec (Done out' err' RunOk)),
              (Exec (scConn c) tailCommand None, RExec (Done out'' err'' RunOk))]"
      "trimSpace out = desired" "desired \<noteq> []" "trimSpace out' \<noteq> []"
      "parseInt 64 (trimSpace out') = Some code" "code \<noteq> 0"
      "ssPhase st = PhaseFailed" "ssExitCode st = code" "ssLogTail st = trimSpace out''"
  using assms unfolding Status_def readFile_Run tailLog_Run
  by (auto simp: replay_run replay_ssh runReply_ok plainState_def)

lemma posixHostD:
  assumes "posixHost R"
  shows "hostNoSession R" "hostQuiet R" "hostReads R" "hostWrites R" "hostPrepares R" "hostLaunches R"
  using assms by (simp_all add: posixHost_def)

definition quietReq :: "req \<Rightarrow> bool" where
  "quietReq q \<longleftrightarrow> (\<exists>n cmd. q = Exec n cmd None \<and> quietCommand cmd)"

lemma hostTrace_quiet:
  assumes "hostQuiet R" "hostTrace R fs evs fs'" "\<forall>e\<in>set evs. quietReq (fst e)"
  shows "fs' = fs"
  using assms(2,3)
proof (induction evs arbitrary: fs)
  case (Cons e evs)
  obtain q r where e: "e = (q, r)" by (cases e)
  then obtain n cmd where q: "q = Exec n cmd None" "quietCommand cmd"
    using Cons.prems(2) unfolding quietReq_def by auto
  then obtain x m where m: "R fs cmd None x m" "hostTrace R m evs fs'"
    using Cons.prems(1) e by (auto simp: hostTrace_Exec)
  from m(1) have "m = fs"
    using assms(1) q(2) unfolding hostQuiet_def by blast
  then show ?case using Cons.IH m(2) Cons.prems(2) by simp
qed simp

lemma calls_bind_Run: "P (Exec (scConn c) cmd None) \<Longrightarrow> (\<And>x. calls P (f x)) \<Longrightarrow> calls P (bind (Run c cmd) f)"
  unfolding Run_def runCmd_def execCmd_def by (auto split: resp.split)

lemma probeCommands_quiet:
  "set cmds \<subseteq> set requiredCommands \<Longrightarrow> calls quietReq (probeCommands c missing cmds)"
proof (induction cmds arbitrary: missing)
  case (Cons cmd cmds)
  have "quietReq (Exec (scConn c) (''command -v '' @ cmd) None)"
    using Cons.prems by (auto simp: quietReq_def quietCommand_def)
  then show ?case
    unfolding probeCommands.simps using Cons
    by (intro calls_bind_Run) (auto split: option.split prod.split)
qed simp

lemma preflight_quiet: "calls quietReq (preflight c)"
  unfolding preflight_def
  by (intro calls_bind_Run)
    (auto simp: quietReq_def quietCommand_def split: option.split prod.split
      intro!: calls_bindE probeCommands_quiet)

lemma preflight_keeps_files:
  assumes "posixHost R" "hostTrace R fs evs fs'" "cutoff (preflight c) evs"
  shows "fs' = fs"
proof (rule hostTrace_quiet [OF posixHostD(2) [OF assms(1)] assms(2)])
  show "\<forall>e\<in>set evs. quietReq (fst e)"
    using calls_cutoff [OF preflight_quiet assms(3)] by blast
qed

text \<open>\<open>Start\<close> after the preflight, call by call.\<close>

definition staged :: "files \<Rightarrow> string \<Rightarrow> string \<Rightarrow> bool" where
  "staged fs script checksum \<longleftrightarrow>
     fs scriptPath = Some script \<and> fs runnerPath = Some (runnerScript checksum) \<and>
     fs checksumPath = Some checksum"

lemma runReply_None: "runReply cmd r = (res, None) \<Longrightarrow> finishedOk r"
  by (simp add: runReply_ok finishedOk_iff)

lemma writeReply_Inr: "writeReply path r = Inr u \<Longrightarrow> finishedOk r"
  by (auto simp: writeReply_ok finishedOk_iff)

text \<open>A reset succeeds exactly when both its commands did.\<close>

definition resetRan :: "trace \<Rightarrow> bool" where
  "resetRan evs \<longleftrightarrow> (\<exists>n out err out' err'.
     (Exec n (writeFileCommand resetPath ''0700'') (Some resetScript), RExec (Done out err RunOk)) \<in> set evs \<and>
     (Exec n resetCommand None, RExec (Done out' err' RunOk)) \<in> set evs)"

lemma runReply_Some:
  "runReply cmd r = (res, Some e) \<Longrightarrow> r \<noteq> Done out err RunOk"
  by (auto simp: runReply_def)

lemma replay_Reset:
  assumes "replay (Reset c) evs = Some r"
  shows "r = Inr () \<longleftrightarrow> resetRan evs"
  using assms
  by (auto simp: Reset_def replay_ssh replay_run writeReply_ok runReply_ok resetRan_def dest: runReply_Some)

text \<open>How far the steps of a start got, with the replies that let them go on.\<close>

lemma cutoff_startSteps:
  assumes "cutoff (startSteps c script checksum) evs"
  obtains (none) "evs = []"
    | (prepare) r where "evs = [(Exec (scConn c) prepareCommand None, r)]"
    | (script) r r1 where
      "evs = [(Exec (scConn c) prepareCommand None, RExec r),
              (Exec (scConn c) (writeFileCommand scriptPath ''0700'') (Some script), r1)]" "finishedOk r"
    | (runner) r r1 r2 where
      "evs = [(Exec (scConn c) prepareCommand None, RExec r),
              (Exec (scConn c) (writeFileCommand scriptPath ''0700'') (Some script), RExec r1),
              (Exec (scConn c) (writeFileCommand runnerPath ''0700'') (Some (runnerScript checksum)), r2)]"
      "finishedOk r" "finishedOk r1"
    | (checksum) r r1 r2 r3 where
      "evs = [(Exec (scConn c) prepareCommand None, RExec r),
              (Exec (scConn c) (writeFileCommand scriptPath ''0700'') (Some script), RExec r1),
              (Exec (scConn c) (writeFileCommand runnerPath ''0700'') (Some (runnerScript checksum)), RExec r2),
              (Exec (scConn c) (writeFileCommand checksumPath ''0600'') (Some checksum), r3)]"
      "finishedOk r" "finishedOk r1" "finishedOk r2"
    | (launch) r r1 r2 r3 r4 where
      "evs = [(Exec (scConn c) prepareCommand None, RExec r),
              (Exec (scConn c) (writeFileCommand scriptPath ''0700'') (Some script), RExec r1),
              (Exec (scConn c) (writeFileCommand runnerPath ''0700'') (Some (runnerScript checksum)), RExec r2),
              (Exec (scConn c) (writeFileCommand checksumPath ''0600'') (Some checksum), RExec r3),
              (Exec (scConn c) launchCommand None, r4)]"
      "finishedOk r" "finishedOk r1" "finishedOk r2" "finishedOk r3"
  using assms unfolding startSteps_def cutoff_ssh cutoff_cases cutoff_Ret
  by (elim disjE exE conjE) (simp_all, (blast dest: runReply_None writeReply_Inr)+)

lemma trimSpace_prefix:
  assumes "trimSpace (take k s) = s"
  shows "take k s = s"
proof -
  have "length s \<le> length (take k s)"
    using length_trimSpace_le [of "take k s"] assms by simp
  then show ?thesis by simp
qed

lemma recorded_None [simp]: "fs checksumPath = None \<Longrightarrow> recorded fs = []"
  by (simp add: recorded_def fileText_def)

lemma recorded_cong: "fs' checksumPath = fs checksumPath \<Longrightarrow> recorded fs' = recorded fs"
  by (simp add: recorded_def fileText_def)

lemma after_prepare:
  assumes "posixHost R" "R fs prepareCommand None r m" "recorded fs \<noteq> checksum" "checksum \<noteq> []"
  shows "recorded m \<noteq> checksum"
    and "finishedOk r \<Longrightarrow> m exitCodePath = None \<and> m checksumPath = None"
proof -
  have p: "(\<forall>q. m q = fs q \<or> q \<in> {exitCodePath, checksumPath} \<and> m q = None) \<and>
     (finishedOk r \<longrightarrow> m exitCodePath = None \<and> m checksumPath = None)"
    using posixHostD(5) [OF assms(1)] assms(2) unfolding hostPrepares_def by metis
  show "finishedOk r \<Longrightarrow> m exitCodePath = None \<and> m checksumPath = None"
    using p by blast
  have "m checksumPath = fs checksumPath \<or> m checksumPath = None"
    using p [THEN conjunct1, THEN spec, of checksumPath] by simp
  then show "recorded m \<noteq> checksum"
    using recorded_cong [of m fs] recorded_None [of m] assms(3,4) by metis
qed

lemma after_upload:
  assumes "posixHost R" "(p, mode) \<in> uploads" "R fs (writeFileCommand p mode) (Some content) r m"
  shows "\<And>q. q \<noteq> p \<Longrightarrow> m q = fs q"
    and "m p = fs p \<or> (\<exists>k. m p = Some (take k content))"
    and "finishedOk r \<Longrightarrow> m p = Some content"
  using posixHostD(4) [OF assms(1), unfolded hostWrites_def, rule_format, OF assms(2,3)] by blast+

lemma after_launch:
  assumes "posixHost R" "R fs launchCommand None r m" "q \<noteq> exitCodePath" "q \<noteq> LogPath"
  shows "m q = fs q"
  using posixHostD(6) [OF assms(1), unfolded hostLaunches_def, rule_format, OF assms(2)] assms(3,4) by blast

lemma uploads_mem [simp]:
  "(scriptPath, ''0700'') \<in> uploads" "(runnerPath, ''0700'') \<in> uploads" "(checksumPath, ''0600'') \<in> uploads"
  by (simp_all add: uploads_def)

lemma after_checksum:
  assumes "posixHost R" "R fs (writeFileCommand checksumPath ''0600'') (Some checksum) r m"
    and "fs checksumPath = None" "checksum \<noteq> []" "recorded m = checksum"
  shows "m checksumPath = Some checksum"
proof -
  have "m checksumPath \<noteq> None"
    using assms(4,5) recorded_None [of m] by metis
  then obtain k where "m checksumPath = Some (take k checksum)"
    using after_upload(2) [OF assms(1) uploads_mem(3) assms(2)] assms(3) by metis
  then show ?thesis
    using assms(5) trimSpace_prefix [of k checksum] by (simp add: recorded_def fileText_def)
qed

lemma startSteps_files:
  assumes R: "posixHost R" and "hostTrace R fs evs fs'" "cutoff (startSteps c script checksum) evs"
    and "recorded fs \<noteq> checksum" "checksum \<noteq> []" "recorded fs' = checksum"
  shows "staged fs' script checksum \<and>
    ((\<forall>r. (Exec (scConn c) launchCommand None, r) \<notin> set evs) \<longrightarrow> fs' exitCodePath = None)"
  using assms(3)
proof (cases rule: cutoff_startSteps)
  case none
  then show ?thesis using assms by simp
next
  case (prepare r)
  then show ?thesis
    using assms(2,4-6) after_prepare(1) [OF R] by (auto simp: hostTrace_Exec)
next
  case (script r r1)
  then obtain a b x where "R fs prepareCommand None r a" "R a (writeFileCommand scriptPath ''0700'') (Some script) x fs'"
    using assms(2) by (auto simp: hostTrace_Exec)
  then show ?thesis
    using after_prepare(2) [OF R _ assms(4,5)] after_upload(1) [OF R uploads_mem(1)] script(2) assms(5,6)
      recorded_None [of fs'] by (metis paths_distinct(2))
next
  case (runner r r1 r2)
  then obtain a b x where "R fs prepareCommand None r a" "R a (writeFileCommand scriptPath ''0700'') (Some script) r1 b"
    "R b (writeFileCommand runnerPath ''0700'') (Some (runnerScript checksum)) x fs'"
    using assms(2) by (auto simp: hostTrace_Exec)
  then show ?thesis
    using after_prepare(2) [OF R _ assms(4,5)] after_upload(1) [OF R uploads_mem(1)]
      after_upload(1) [OF R uploads_mem(2)] runner(2) assms(5,6)
      recorded_None [of fs'] by (metis paths_distinct(2,3))
next
  case (checksum r r1 r2 r3)
  then obtain a b d x where s: "R fs prepareCommand None r a"
    "R a (writeFileCommand scriptPath ''0700'') (Some script) r1 b"
    "R b (writeFileCommand runnerPath ''0700'') (Some (runnerScript checksum)) r2 d"
    "R d (writeFileCommand checksumPath ''0600'') (Some checksum) x fs'"
    using assms(2) by (auto simp: hostTrace_Exec)
  note a = after_prepare(2) [OF R s(1) assms(4,5) checksum(2)]
  note b = after_upload(1) [OF R uploads_mem(1) s(2)] after_upload(3) [OF R uploads_mem(1) s(2) checksum(3)]
  note d = after_upload(1) [OF R uploads_mem(2) s(3)] after_upload(3) [OF R uploads_mem(2) s(3) checksum(4)]
  note f = after_upload(1) [OF R uploads_mem(3) s(4)]
  have "d checksumPath = None" using a b d by simp
  then have "fs' checksumPath = Some checksum" using after_checksum [OF R s(4)] assms(5,6) by blast
  then show ?thesis using a b d f by (simp add: staged_def)
next
  case (launch r r1 r2 r3 r4)
  then obtain a b d g x where s: "R fs prepareCommand None r a"
    "R a (writeFileCommand scriptPath ''0700'') (Some script) r1 b"
    "R b (writeFileCommand runnerPath ''0700'') (Some (runnerScript checksum)) r2 d"
    "R d (writeFileCommand checksumPath ''0600'') (Some checksum) r3 g"
    "R g launchCommand None x fs'"
    using assms(2) by (auto simp: hostTrace_Exec)
  note b = after_upload(3) [OF R uploads_mem(1) s(2) launch(3)]
  note d = after_upload(1) [OF R uploads_mem(2) s(3)] after_upload(3) [OF R uploads_mem(2) s(3) launch(4)]
  note g = after_upload(1) [OF R uploads_mem(3) s(4)] after_upload(3) [OF R uploads_mem(3) s(4) launch(5)]
  note l = after_launch [OF R s(5)]
  have "staged fs' script checksum"
    using b d g l by (simp add: staged_def)
  then show ?thesis using launch(1) by auto
qed

lemma staged_recorded:
  "staged fs script (Checksum data) \<Longrightarrow> recorded fs = Checksum data"
  by (simp add: staged_def recorded_def fileText_def Checksum_def)

lemma Checksum_nonempty [simp]: "Checksum data \<noteq> []"
  using length_sha256Hex [of data] by (auto simp: Checksum_def simp del: length_sha256Hex)

lemma prepare_not_launch [simp]: "prepareCommand \<noteq> launchCommand" "launchCommand \<noteq> prepareCommand"
  by (simp_all add: prepareCommand_def launchCommand_def)

lemma startSteps_failed_launch:
  assumes R: "posixHost R" and "hostTrace R fs evs fs'" "cutoff (startSteps c script checksum) evs"
    and l: "(Exec (scConn c) launchCommand None, RExec (NoSession e)) \<in> set evs"
  shows "staged fs' script checksum \<and> fs' exitCodePath = None"
  using assms(3)
proof (cases rule: cutoff_startSteps)
  case (launch r r1 r2 r3 r4)
  then have "r4 = RExec (NoSession e)" using l by simp
  with launch(1) obtain a b d g where s: "R fs prepareCommand None r a"
    "R a (writeFileCommand scriptPath ''0700'') (Some script) r1 b"
    "R b (writeFileCommand runnerPath ''0700'') (Some (runnerScript checksum)) r2 d"
    "R d (writeFileCommand checksumPath ''0600'') (Some checksum) r3 g"
    "R g launchCommand None (NoSession e) fs'"
    using assms(2) by (auto simp: hostTrace_Exec)
  have a: "a exitCodePath = None"
    using posixHostD(5) [OF R] s(1) launch(2) unfolding hostPrepares_def by metis
  note b = after_upload(1) [OF R uploads_mem(1) s(2)] after_upload(3) [OF R uploads_mem(1) s(2) launch(3)]
  note d = after_upload(1) [OF R uploads_mem(2) s(3)] after_upload(3) [OF R uploads_mem(2) s(3) launch(4)]
  note g = after_upload(1) [OF R uploads_mem(3) s(4)] after_upload(3) [OF R uploads_mem(3) s(4) launch(5)]
  have "fs' = g"
    using posixHostD(1) [OF R] s(5) unfolding hostNoSession_def by blast
  then show ?thesis
    using a b d g by (simp add: staged_def)
qed (use l in auto)

lemma phaseOf_staged:
  assumes "staged fs script (Checksum script)" "fs exitCodePath = None"
  shows "phaseOf fs (Checksum script) = Some PhaseRunning"
  using staged_recorded [OF assms(1)] assms(2)
  by (simp add: phaseOf_def Let_def fileText_def [of fs exitCodePath])

lemma Start_runs:
  assumes "posixHost R" "cutoff (Start c script checksum) evs" "hostTrace R fs evs fs'"
  obtains (preflight) "fs' = fs" "cutoff (preflight c) evs"
    | (steps) e1 e2 where "evs = e1 @ e2" "replay (preflight c) e1 = Some (Inr ())" "hostTrace R fs e2 fs'"
        "cutoff (startSteps c script checksum) e2"
proof (cases "cutoff (preflight c) evs")
  case True
  then show ?thesis using preflight_keeps_files [OF assms(1,3)] that(1) by blast
next
  case False
  then obtain e1 e2 where e: "evs = e1 @ e2" "replay (preflight c) e1 = Some (Inr ())"
    "cutoff (startSteps c script checksum) e2"
    using assms(2) by (auto simp: Start_def cutoff_bindE)
  then obtain m where "hostTrace R fs e1 m" "hostTrace R m e2 fs'"
    using assms(3) by (auto simp: hostTrace_append)
  moreover have "m = fs"
    using preflight_keeps_files [OF assms(1) \<open>hostTrace R fs e1 m\<close> replay_cutoff [OF e(2)]] .
  ultimately show ?thesis using that(2) e by blast
qed

subsection \<open>Properties\<close>

text \<open>
  C23. \<open>Status\<close> says what the files say: on a host that follows \<open>posixHost\<close>, a status that
  is returned is the phase of the files, Idle unless the recorded checksum is the one asked
  for, then Running, Succeeded or Failed by the recorded exit code, and reading it changes
  nothing on the host. A failed run is reported with the exit code it wrote.
\<close>

theorem Status_reads_files:
  assumes "posixHost R" "hostTrace R fs evs fs'" "replay (Status c desired) evs = Some (Inr st)"
  shows "fs' = fs \<and> phaseOf fs desired = Some (ssPhase st) \<and>
    (ssPhase st = PhaseFailed \<longrightarrow>
       parseInt 64 (trimSpace (fileText fs exitCodePath)) = Some (ssExitCode st) \<and> ssExitCode st \<noteq> 0)"
proof -
  have rd: "R m (readCommand p) None (Done out err RunOk) m' \<Longrightarrow> p \<in> {checksumPath, exitCodePath} \<Longrightarrow>
      m' = m \<and> out = fileText m p" for m m' p out err
    using posixHostD(3) [OF assms(1)] unfolding hostReads_def by blast
  have tl: "R m tailCommand None r m' \<Longrightarrow> m' = m" for m m' r
    using posixHostD(2) [OF assms(1)] unfolding hostQuiet_def quietCommand_def by blast
  from assms(3) show ?thesis
    by (cases rule: replay_Status_ok)
      (use assms(2) in \<open>auto simp: hostTrace_Exec phaseOf_def recorded_def Let_def dest!: rd tl\<close>)
qed

text \<open>
  C5. An interrupted start is not mistaken for a run. Let a start for a script be cut off
  after any of its calls, by an error or by the end of the controller, on a host that was
  idle for that script. Then the host still reads as Idle, or the whole script, the whole
  runner and the whole checksum are in place; and until the launch command was sent, no
  exit code of an earlier run is left beside them.
\<close>

theorem Start_interrupted:
  assumes "posixHost R" "cutoff (Start c script (Checksum script)) evs" "hostTrace R fs evs fs'"
    and "phaseOf fs (Checksum script) = Some PhaseIdle"
  shows "phaseOf fs' (Checksum script) = Some PhaseIdle \<or>
    staged fs' script (Checksum script) \<and>
    ((\<forall>r. (Exec (scConn c) launchCommand None, r) \<notin> set evs) \<longrightarrow>
       fs' exitCodePath = None \<and> phaseOf fs' (Checksum script) = Some PhaseRunning)"
proof (cases "recorded fs' = Checksum script")
  case False
  then show ?thesis by (simp add: phaseOf_def)
next
  case True
  have i: "recorded fs \<noteq> Checksum script"
    using assms(4) Checksum_nonempty [of script]
    by (auto simp: phaseOf_def Let_def simp del: Checksum_nonempty split: if_splits)
  from assms(1-3) show ?thesis
  proof (cases rule: Start_runs)
    case preflight
    then show ?thesis using True i by simp
  next
    case (steps e1 e2)
    then show ?thesis
      using startSteps_files [OF assms(1) steps(3,4) i Checksum_nonempty True] phaseOf_staged by auto
  qed
qed

text \<open>
  A launch that fails reads as a run that goes on. When the uploads of a start succeed
  and the session for the launch command cannot be opened, nothing was started on the host,
  and yet the host is left in the phase Running, in which the controller only waits: no
  later call writes the files that would end it.
\<close>

theorem Start_failed_launch_reads_running:
  assumes "posixHost R" "cutoff (Start c script (Checksum script)) evs" "hostTrace R fs evs fs'"
    and "(Exec (scConn c) launchCommand None, RExec (NoSession e)) \<in> set evs"
  shows "phaseOf fs' (Checksum script) = Some PhaseRunning"
  using assms(1-3)
proof (cases rule: Start_runs)
  case preflight
  have "quietReq (Exec (scConn c) launchCommand None)"
    using calls_cutoff [OF preflight_quiet preflight(2) assms(4)] by simp
  then show ?thesis
    by (auto simp: quietReq_def quietCommand_def launchCommand_def tailCommand_def)
next
  case (steps e1 e2)
  have "\<not> quietReq (Exec (scConn c) launchCommand None)"
    by (auto simp: quietReq_def quietCommand_def launchCommand_def tailCommand_def)
  then have "(Exec (scConn c) launchCommand None, RExec (NoSession e)) \<in> set e2"
    using assms(4) steps(1) calls_replay [OF preflight_quiet steps(2)] by fastforce
  then show ?thesis
    using startSteps_failed_launch [OF assms(1) steps(3,4)] phaseOf_staged by blast
qed

subsection \<open>A concrete host\<close>

text \<open>A host on which every command that is not about its files reports success.\<close>

definition exampleRun :: "files \<Rightarrow> string \<Rightarrow> string option \<Rightarrow> execReply \<times> files" where
  "exampleRun fs cmd inp =
     (let ok = (\<lambda>out. Done out [] RunOk)
      in case inp of
           Some content \<Rightarrow>
             (if cmd = writeFileCommand scriptPath ''0700'' then (ok [], fs(scriptPath \<mapsto> content))
              else if cmd = writeFileCommand runnerPath ''0700'' then (ok [], fs(runnerPath \<mapsto> content))
              else if cmd = writeFileCommand checksumPath ''0600'' then (ok [], fs(checksumPath \<mapsto> content))
              else (ok [], fs))
         | None \<Rightarrow>
             (if cmd = readCommand checksumPath then (ok (fileText fs checksumPath), fs)
              else if cmd = readCommand exitCodePath then (ok (fileText fs exitCodePath), fs)
              else if cmd = prepareCommand then (ok [], fs(exitCodePath := None, checksumPath := None))
              else if cmd = ''id -u'' then (ok ''0'', fs)
              else (ok [], fs)))"

definition exampleHost :: remote where
  "exampleHost fs cmd inp r fs' \<longleftrightarrow>
     (r, fs') = exampleRun fs cmd inp \<or> (\<exists>e. r = NoSession e) \<and> fs' = fs"

lemma commands_distinct:
  "distinct [readCommand checksumPath, readCommand exitCodePath, prepareCommand, launchCommand]"
  "distinct [writeFileCommand scriptPath ''0700'', writeFileCommand runnerPath ''0700'', writeFileCommand checksumPath ''0600'']"
  "list_all (\<lambda>c. c \<noteq> prepareCommand \<and> c \<noteq> readCommand checksumPath \<and> c \<noteq> readCommand exitCodePath)
     (''id -u'' # tailCommand # map (\<lambda>x. ''command -v '' @ x) requiredCommands)"
  by code_simp+

lemma exampleHost_ok: "posixHost exampleHost"
proof -
  have "hostNoSession exampleHost"
    by (auto simp: hostNoSession_def exampleHost_def exampleRun_def Let_def split: if_splits option.splits)
  moreover have "hostQuiet exampleHost"
    using commands_distinct(3) unfolding hostQuiet_def quietCommand_def exampleHost_def exampleRun_def list_all_iff
    by (auto simp: Let_def)
  moreover have "hostReads exampleHost"
    using commands_distinct(1) unfolding hostReads_def exampleHost_def exampleRun_def by (auto simp: Let_def)
  moreover have [simp]: "(\<forall>k. c \<noteq> take k c) = False" for c :: string
    by (metis order_refl take_all)
  moreover have "hostWrites exampleHost"
    using commands_distinct(2) unfolding hostWrites_def uploads_def exampleHost_def exampleRun_def
    by (auto simp: Let_def finishedOk_def)
  moreover have "hostPrepares exampleHost"
    using commands_distinct(1) unfolding hostPrepares_def exampleHost_def exampleRun_def
    by (auto simp: Let_def finishedOk_def)
  moreover have "hostLaunches exampleHost"
    using commands_distinct(1) unfolding hostLaunches_def exampleHost_def exampleRun_def
    by (auto simp: Let_def)
  ultimately show ?thesis by (simp add: posixHost_def)
qed

lemma exampleRun_simps:
  "exampleRun fs (readCommand checksumPath) None = (Done (fileText fs checksumPath) [] RunOk, fs)"
  "exampleRun fs (readCommand exitCodePath) None = (Done (fileText fs exitCodePath) [] RunOk, fs)"
  "exampleRun fs prepareCommand None = (Done [] [] RunOk, fs(exitCodePath := None, checksumPath := None))"
  "exampleRun fs tailCommand None = (Done [] [] RunOk, fs)"
  "exampleRun fs ''id -u'' None = (Done ''0'' [] RunOk, fs)"
  "x \<in> set requiredCommands \<Longrightarrow> exampleRun fs (''command -v '' @ x) None = (Done [] [] RunOk, fs)"
  "exampleRun fs (writeFileCommand scriptPath ''0700'') (Some t) = (Done [] [] RunOk, fs(scriptPath \<mapsto> t))"
  "exampleRun fs (writeFileCommand runnerPath ''0700'') (Some t) = (Done [] [] RunOk, fs(runnerPath \<mapsto> t))"
  "exampleRun fs (writeFileCommand checksumPath ''0600'') (Some t) = (Done [] [] RunOk, fs(checksumPath \<mapsto> t))"
proof -
  have "tailCommand \<noteq> ''id -u''" "''command -v '' @ x \<noteq> ''id -u''" for x
    by (simp_all add: tailCommand_def)
  then show "exampleRun fs tailCommand None = (Done [] [] RunOk, fs)"
    "x \<in> set requiredCommands \<Longrightarrow> exampleRun fs (''command -v '' @ x) None = (Done [] [] RunOk, fs)"
    using commands_distinct(3) by (simp_all add: exampleRun_def Let_def list_all_iff del: append.simps)
  show "exampleRun fs (readCommand checksumPath) None = (Done (fileText fs checksumPath) [] RunOk, fs)"
    "exampleRun fs (readCommand exitCodePath) None = (Done (fileText fs exitCodePath) [] RunOk, fs)"
    "exampleRun fs prepareCommand None = (Done [] [] RunOk, fs(exitCodePath := None, checksumPath := None))"
    using commands_distinct(1) by (auto simp: exampleRun_def Let_def)
  show "exampleRun fs ''id -u'' None = (Done ''0'' [] RunOk, fs)"
    using commands_distinct(3) by (simp add: exampleRun_def Let_def list_all_iff)
  show "exampleRun fs (writeFileCommand scriptPath ''0700'') (Some t) = (Done [] [] RunOk, fs(scriptPath \<mapsto> t))"
    "exampleRun fs (writeFileCommand runnerPath ''0700'') (Some t) = (Done [] [] RunOk, fs(runnerPath \<mapsto> t))"
    "exampleRun fs (writeFileCommand checksumPath ''0600'') (Some t) = (Done [] [] RunOk, fs(checksumPath \<mapsto> t))"
    using commands_distinct(2) by (auto simp: exampleRun_def Let_def)
qed

lemma hostTrace_example:
  "exampleRun fs cmd inp = (r, m) \<Longrightarrow> hostTrace exampleHost m evs fs' \<Longrightarrow>
   hostTrace exampleHost fs ((Exec n cmd inp, RExec r) # evs) fs'"
  by (auto simp: exampleHost_def)

definition exampleClient :: sshClient where
  "exampleClient = \<lparr>scConn = 7, scHostKey = ''ssh-ed25519 AkeyZ''\<rparr>"

definition exampleFiles :: files where
  "exampleFiles = Map.empty(checksumPath \<mapsto> ''abc'', exitCodePath \<mapsto> ''3'')"

definition exampleStatus :: trace where
  "exampleStatus = [
     (Exec 7 (readCommand checksumPath) None, RExec (Done ''abc'' [] RunOk)),
     (Exec 7 (readCommand exitCodePath) None, RExec (Done ''3'' [] RunOk)),
     (Exec 7 tailCommand None, RExec (Done [] [] RunOk))]"

lemma exampleStatus_host: "hostTrace exampleHost exampleFiles exampleStatus exampleFiles"
proof -
  have t: "fileText exampleFiles checksumPath = ''abc''" "fileText exampleFiles exitCodePath = ''3''"
    by (simp_all add: exampleFiles_def fileText_def)
  show ?thesis
    unfolding exampleStatus_def
    by (intro hostTrace_example [where m = exampleFiles]) (simp_all add: exampleRun_simps t)
qed

theorem Status_reads_files_witness:
  "\<exists>st. replay (Status exampleClient ''abc'') exampleStatus = Some (Inr st) \<and>
     phaseOf exampleFiles ''abc'' = Some (ssPhase st) \<and> ssPhase st = PhaseFailed \<and>
     parseInt 64 (trimSpace (fileText exampleFiles exitCodePath)) = Some (ssExitCode st)"
proof -
  let ?st = "\<lparr>ssPhase = PhaseFailed, ssChecksum = ''abc'', ssExitCode = 3, ssLogTail = []\<rparr>"
  have r: "replay (Status exampleClient ''abc'') exampleStatus = Some (Inr ?st)"
    by code_simp
  show ?thesis
    using Status_reads_files [OF exampleHost_ok exampleStatus_host r] r by auto
qed

text \<open>A start on an empty host, up to the launch, for which no session can be opened.\<close>

definition exampleSum :: string where
  "exampleSum = ''b5bea41b6c623f7c09f1bf24dcae58ebab3c0cdd90ad966bc43a45b44867e12b''"

lemma Checksum_example: "Checksum ''true'' = exampleSum"
  by code_simp

definition examplePreflight :: trace where
  "examplePreflight = (Exec 7 ''id -u'' None, RExec (Done ''0'' [] RunOk)) #
     map (\<lambda>x. (Exec 7 (''command -v '' @ x) None, RExec (Done [] [] RunOk))) requiredCommands"

definition exampleUploads :: trace where
  "exampleUploads = [
     (Exec 7 prepareCommand None, RExec (Done [] [] RunOk)),
     (Exec 7 (writeFileCommand scriptPath ''0700'') (Some ''true''), RExec (Done [] [] RunOk)),
     (Exec 7 (writeFileCommand runnerPath ''0700'') (Some (runnerScript exampleSum)), RExec (Done [] [] RunOk)),
     (Exec 7 (writeFileCommand checksumPath ''0600'') (Some exampleSum), RExec (Done [] [] RunOk))]"

definition exampleStaged :: files where
  "exampleStaged = Map.empty(scriptPath \<mapsto> ''true'', runnerPath \<mapsto> runnerScript exampleSum,
     checksumPath \<mapsto> exampleSum)"

lemma examplePreflight_host: "hostTrace exampleHost fs examplePreflight fs"
proof -
  have "set xs \<subseteq> set requiredCommands \<Longrightarrow>
    hostTrace exampleHost fs (map (\<lambda>x. (Exec 7 (''command -v '' @ x) None, RExec (Done [] [] RunOk))) xs) fs" for xs
    by (induction xs) (auto intro!: hostTrace_example exampleRun_simps simp del: hostTrace.simps append.simps simp: hostTrace.simps(1))
  then show ?thesis
    unfolding examplePreflight_def by (blast intro: hostTrace_example exampleRun_simps)
qed

lemma exampleUploads_host: "hostTrace exampleHost Map.empty exampleUploads exampleStaged"
  unfolding exampleUploads_def
  by (rule hostTrace_example, rule exampleRun_simps)+
    (auto simp: exampleStaged_def)

lemma exampleStart_cutoff:
  "cutoff (Start exampleClient ''true'' exampleSum) (examplePreflight @ exampleUploads)"
  "cutoff (Start exampleClient ''true'' exampleSum)
     (examplePreflight @ exampleUploads @ [(Exec 7 launchCommand None, RExec (NoSession (errorf ''EOF'')))])"
  by code_simp+

lemma exampleStart_host:
  "hostTrace exampleHost Map.empty (examplePreflight @ exampleUploads) exampleStaged"
  "hostTrace exampleHost Map.empty
     (examplePreflight @ exampleUploads @ [(Exec 7 launchCommand None, RExec (NoSession (errorf ''EOF'')))]) exampleStaged"
  using examplePreflight_host [of Map.empty] exampleUploads_host
  by (auto simp: hostTrace_append exampleHost_def)

lemma exampleUploads_no_launch: "(Exec 7 launchCommand None, r) \<notin> set (examplePreflight @ exampleUploads)"
proof -
  have "list_all (\<lambda>e. fst e \<noteq> Exec 7 launchCommand None) (examplePreflight @ exampleUploads)"
    by code_simp
  then have "e \<in> set (examplePreflight @ exampleUploads) \<Longrightarrow> fst e \<noteq> Exec 7 launchCommand None" for e
    unfolding list_all_iff by (rule bspec)
  from this [of "(Exec 7 launchCommand None, r)"] show ?thesis by auto
qed

theorem Start_interrupted_witness:
  "staged exampleStaged ''true'' (Checksum ''true'') \<and> phaseOf exampleStaged (Checksum ''true'') = Some PhaseRunning"
proof -
  have i: "phaseOf Map.empty (Checksum ''true'') = Some PhaseIdle"
    by (simp add: phaseOf_def)
  have n: "phaseOf exampleStaged (Checksum ''true'') \<noteq> Some PhaseIdle"
    unfolding Checksum_example
    by (simp add: phaseOf_def recorded_def fileText_def exampleStaged_def Let_def) code_simp
  show ?thesis
    using Start_interrupted [OF exampleHost_ok _ exampleStart_host(1) i, of exampleClient]
      exampleStart_cutoff(1) exampleUploads_no_launch n
    unfolding Checksum_example by (simp add: exampleClient_def)
qed

theorem Start_failed_launch_reads_running_witness:
  "phaseOf exampleStaged (Checksum ''true'') = Some PhaseRunning"
  using Start_failed_launch_reads_running [OF exampleHost_ok _ exampleStart_host(2),
      of exampleClient "''true''" "errorf ''EOF''"]
    exampleStart_cutoff(2)
  unfolding Checksum_example by (simp add: exampleClient_def)

subsection \<open>What the probe prints is what it reports\<close>

lemma foldl_probeLine:
  assumes "\<forall>(k, v)\<in>set kvs. CHR ''='' \<notin> set k \<and> k \<noteq> [] \<and> (\<forall>x\<in>set k. \<not> isSpace x) \<and> trimSpace v = v"
  shows "foldl probeLine m (map (\<lambda>(k, v). k @ ''='' @ v) kvs) = foldl (\<lambda>m (k, v). AList.update k v m) m kvs"
  using assms
proof (induction kvs arbitrary: m)
  case (Cons kv kvs)
  obtain k v where kv: "kv = (k, v)" by (cases kv)
  have v: "trimSpace v = v" and k: "k \<noteq> []" "\<forall>x\<in>set k. \<not> isSpace x" "CHR ''='' \<notin> set k"
    using Cons.prems kv by auto
  have "trimSpace (k @ ''='' @ v) = k @ ''='' @ v"
    using k v trimSpace_end [of v] by (intro trimSpace_id) (auto simp: isSpace_def)
  then have "probeLine m (k @ ''='' @ v) = AList.update k v m"
    using k v cutAt_append [of "CHR ''=''" k v] by (simp add: probeLine_def)
  then show ?case using Cons kv by simp
qed simp

definition probeOutput :: "(string \<times> string) list \<Rightarrow> string" where
  "probeOutput kvs = joinWith [CHR 0x0A] (map (\<lambda>(k, v). k @ ''='' @ v) kvs @ [[]])"

lemma probeFields_output:
  assumes "\<forall>(k, v)\<in>set kvs. CHR ''='' \<notin> set k \<and> k \<noteq> [] \<and> (\<forall>x\<in>set k. \<not> isSpace x) \<and> trimSpace v = v \<and>
      CHR 0x0A \<notin> set v"
  shows "probeFields (probeOutput kvs) = foldl (\<lambda>m (k, v). AList.update k v m) [] kvs"
proof -
  let ?ls = "map (\<lambda>(k, v). k @ ''='' @ v) kvs"
  have "\<forall>l\<in>set (?ls @ [[]]). CHR 0x0A \<notin> set l"
    using assms by (fastforce simp: isSpace_def)
  then have "splitOn (CHR 0x0A) (probeOutput kvs) = ?ls @ [[]]"
    unfolding probeOutput_def by (intro splitOn_joinWith) simp_all
  moreover have "foldl probeLine [] ?ls = foldl (\<lambda>m (k, v). AList.update k v m) [] kvs"
    by (rule foldl_probeLine) (use assms in auto)
  ultimately show ?thesis
    by (simp add: probeFields_def probeLine_def cutAt_def)
qed

text \<open>
  A probe reports what the host printed: when the script's lines carry the values
  \<open>hn\<close>, \<open>kern\<close>, \<open>arch\<close>, \<open>os\<close>, \<open>rt\<close> and \<open>ka\<close>, each on one line without surrounding
  blanks, and two numbers in range, \<open>Probe\<close> returns those values in the fields they belong
  to, the architecture under its Kubernetes name and the memory in whole megabytes.
\<close>

theorem Probe_reports_output:
  assumes "\<forall>v\<in>{hn, kern, arch, os, rt, ka}. CHR 0x0A \<notin> set v \<and> trimSpace v = v"
    and "- (2 ^ 31) \<le> cpu" "cpu < 2 ^ 31" "0 \<le> mem" "mem < 2 ^ 63"
    and "out = probeOutput [(''hostname'', hn), (''kernel'', kern), (''arch'', arch), (''cpu'', itoa cpu),
      (''memkb'', itoa mem), (''os'', os), (''runtime'', rt), (''kubeadm'', ka)]"
  shows "replay (Probe c) [(Exec (scConn c) probeScript None, RExec (Done out err RunOk))] =
    Some (Inr \<lparr>inHostname = hn, inOSImage = os, inKernelVersion = kern, inArchitecture = normalizeArch arch,
      inCPUCores = cpu, inMemoryMB = mem div 1024, inContainerRuntime = rt, inKubeadmVersion = ka\<rparr>)"
proof -
  let ?kvs = "[(''hostname'', hn), (''kernel'', kern), (''arch'', arch), (''cpu'', itoa cpu),
      (''memkb'', itoa mem), (''os'', os), (''runtime'', rt), (''kubeadm'', ka)]"
  have n: "CHR 0x0A \<notin> set (itoa i) \<and> trimSpace (itoa i) = itoa i" for i
    using itoa_nonspace by (fastforce simp: isSpace_def intro: trimSpace_nonspace)
  have "probeFields out = foldl (\<lambda>m (k, v). AList.update k v m) [] ?kvs"
    unfolding assms(6) by (rule probeFields_output) (use assms(1) n in \<open>auto simp: isSpace_def\<close>)
  then have f: "probeFields out = ?kvs"
    by simp
  have "parseInt 32 (itoa cpu) = Some cpu" "parseInt 64 (itoa mem) = Some mem"
    using assms(2-5) parseInt_itoa [of 32 cpu] parseInt_itoa [of 64 mem] by simp_all
  then have "systemInfoOf out = \<lparr>inHostname = hn, inOSImage = os, inKernelVersion = kern,
      inArchitecture = normalizeArch arch, inCPUCores = cpu, inMemoryMB = mem div 1024,
      inContainerRuntime = rt, inKubeadmVersion = ka\<rparr>"
    using assms(4) by (simp add: systemInfoOf_def f mapGet_def quo_def)
  then show ?thesis
    by (simp add: Probe_def Run_def runCmd_def execCmd_def runReply_def)
qed

theorem Probe_reports_output_witness:
  "replay (Probe exampleClient)
     [(Exec 7 probeScript None, RExec (Done (probeOutput [(''hostname'', ''node-1''), (''kernel'', ''6.1''),
        (''arch'', ''aarch64''), (''cpu'', itoa 8), (''memkb'', itoa 4096), (''os'', ''Debian GNU/Linux 12''),
        (''runtime'', ''containerd 2.2.1''), (''kubeadm'', [])]) [] RunOk))] =
   Some (Inr \<lparr>inHostname = ''node-1'', inOSImage = ''Debian GNU/Linux 12'', inKernelVersion = ''6.1'',
     inArchitecture = ''arm64'', inCPUCores = 8, inMemoryMB = 4, inContainerRuntime = ''containerd 2.2.1'',
     inKubeadmVersion = []\<rparr>)"
proof -
  have v: "\<forall>v\<in>{''node-1'', ''6.1'', ''aarch64'', ''Debian GNU/Linux 12'', ''containerd 2.2.1'', []}.
      CHR 0x0A \<notin> set v \<and> trimSpace v = v"
    by code_simp
  show ?thesis
    using Probe_reports_output [OF v _ _ _ _ refl, of 8 4096 exampleClient "[]"]
    by (simp add: exampleClient_def normalizeArch_def)
qed

end
