(* ===== verification/KG_HostController.thy ===== *)
theory KG_HostController
  imports KG_Connection KG_Provisioner
begin

text \<open>
  \<^verbatim>\<open>internal/controller/host_controller.go\<close>: the reconciler that keeps the pool's view of
  each machine current. A handler takes the object it may change and returns it beside the
  result; the deferred patch of the source is the call after it. A result is the number of
  seconds after which to reconcile again, 0 for none, and an error. The theorems show that a
  claimed host is left alone, that only a successful probe makes a host Available and never
  one that carries a claim label, and when the finalizer goes.
\<close>

type_synonym ctrlResult = "int \<times> goerror option"

definition probeIntervalHealthy :: int where "probeIntervalHealthy = 300"
definition probeIntervalUnhealthy :: int where "probeIntervalUnhealthy = 60"

definition hostCondition ::
  "k8sLib \<Rightarrow> conditionType \<Rightarrow> conditionStatus \<Rightarrow> reason \<Rightarrow> string \<Rightarrow> host \<Rightarrow> host" where
  "hostCondition K t s r m h = h\<lparr>hStatus := (hStatus h)\<lparr>stConditions :=
     setCondition K (stConditions (hStatus h)) t s r m (mGeneration (hMeta h))\<rparr>\<rparr>"

definition setPhase :: "hostPhase \<Rightarrow> host \<Rightarrow> host" where
  "setPhase p h = h\<lparr>hStatus := (hStatus h)\<lparr>stPhase := p\<rparr>\<rparr>"

definition unreachable :: "k8sLib \<Rightarrow> string \<Rightarrow> host \<Rightarrow> host" where
  "unreachable K message h =
     hostCondition K HostReachable ConditionFalse ReasonProbeFailed message (setPhase HostPhaseUnreachable h)"

text \<open>What a successful probe makes of the Host.\<close>

definition probed :: "k8sLib \<Rightarrow> systemInfo \<Rightarrow> host \<Rightarrow> host" where
  "probed K info h =
     (let h = h\<lparr>hStatus := (hStatus h)\<lparr>stSystemInfo := Some \<lparr>
                 siHostname = inHostname info, siOSImage = inOSImage info,
                 siKernelVersion = inKernelVersion info, siArchitecture = inArchitecture info,
                 siCPUCores = inCPUCores info, siMemoryMB = inMemoryMB info,
                 siContainerRuntime = inContainerRuntime info\<rparr>\<rparr>\<rparr>;
          h = setPhase HostPhaseAvailable h;
          h = (if hLabel h ClaimedByLabel \<noteq> [] then setPhase HostPhaseClaimed h else h)
      in hostCondition K HostReachable ConditionTrue ReasonProbeSucceeded ''SSH probe succeeded'' h)"

definition probe :: "k8sLib \<Rightarrow> sshLib \<Rightarrow> host \<Rightarrow> (host \<times> ctrlResult) prog" where
  "probe K L h0 =
     bind timeNow (\<lambda>now.
     let h = h0\<lparr>hStatus := (hStatus h0)\<lparr>stLastProbeTime := Some now\<rparr>\<rparr>
     in bind (connect L h) (\<lambda>r. case r of
          Inl e \<Rightarrow>
            let h' = unreachable K (truncateMsg (emsg e) conditionMessageLimit) h
            in if ekind e = ErrHostKeyMismatch then Ret (h', 0, None)
               else Ret (h', probeIntervalUnhealthy, None)
        | Inr (conn, h) \<Rightarrow>
            bind (Probe conn) (\<lambda>r.
            bind (closeConn (scConn conn)) (\<lambda>_. case r of
              Inl e \<Rightarrow> Ret (unreachable K (truncateMsg (emsg e) conditionMessageLimit) h, probeIntervalUnhealthy, None)
            | Inr info \<Rightarrow> Ret (probed K info h, probeIntervalHealthy, None)))))"

definition dropHostFinalizer :: "k8sLib \<Rightarrow> host \<Rightarrow> host" where
  "dropHostFinalizer K h =
     h\<lparr>hMeta := (hMeta h)\<lparr>mFinalizers := removeFinalizer K (mFinalizers (hMeta h)) HostFinalizer\<rparr>\<rparr>"

definition reconcileDeleteHost :: "k8sLib \<Rightarrow> host \<Rightarrow> (host \<times> ctrlResult) prog" where
  "reconcileDeleteHost K h =
     (case stClaimRef (hStatus h) of
        None \<Rightarrow> Ret (dropHostFinalizer K h, 0, None)
      | Some ref \<Rightarrow>
          let key = (orNamespace ref, orName ref)
          in bind (getHostMachine key) (\<lambda>r. case r of
               Inr _ \<Rightarrow>
                 Ret (hostCondition K HostReachable ConditionFalse ReasonDeleting
                        (''Waiting for HostMachine '' @ keyString key @ '' to release this host'') h, 15, None)
             | Inl e \<Rightarrow>
                 if ekind e = ErrNotFound
                 then Ret (dropHostFinalizer K (h\<lparr>hStatus := (hStatus h)\<lparr>stClaimRef := None\<rparr>\<rparr>), 0, None)
                 else Ret (h, 0, Some e)))"

text \<open>The body of \<^verbatim>\<open>Reconcile\<close>, between the patch helper and the deferred patch.\<close>

definition reconcileHost :: "k8sLib \<Rightarrow> sshLib \<Rightarrow> host \<Rightarrow> (host \<times> ctrlResult) prog" where
  "reconcileHost K L h =
     (if mDeletionTimestamp (hMeta h) \<noteq> None then reconcileDeleteHost K h
      else if \<not> containsFinalizer K (mFinalizers (hMeta h)) HostFinalizer then
        Ret (h\<lparr>hMeta := (hMeta h)\<lparr>mFinalizers := addFinalizer K (mFinalizers (hMeta h)) HostFinalizer\<rparr>\<rparr>, 0, None)
      else if stClaimRef (hStatus h) \<noteq> None then Ret (h, 0, None)
      else if hsUnhealthy (hSpec h) then
        Ret (unreachable K ''Host is marked unhealthy in its spec'' h, 0, None)
      else probe K L h)"

text \<open>
  \<^verbatim>\<open>Reconcile\<close>. The deferred function assigns a failure of the patch to the local variable
  \<^verbatim>\<open>err\<close>; the results are not named, so what is returned was fixed before.
\<close>

definition ReconcileHost :: "k8sLib \<Rightarrow> sshLib \<Rightarrow> objectKey \<Rightarrow> ctrlResult prog" where
  "ReconcileHost K L key =
     bind (getHost key) (\<lambda>r. case r of
       Inl e \<Rightarrow> Ret (0, ignoreNotFound e)
     | Inr h \<Rightarrow>
         bind newPatchHelper (\<lambda>p. case p of
           Inl e \<Rightarrow> Ret (0, Some e)
         | Inr _ \<Rightarrow>
             bind (reconcileHost K L h) (\<lambda>(h', res).
             bind (patchHost h h') (\<lambda>_. Ret res))))"

subsection \<open>Lemmas\<close>

lemma hostCondition_keeps [simp]:
  "hMeta (hostCondition K t s r m h) = hMeta h" "hSpec (hostCondition K t s r m h) = hSpec h"
  "stPhase (hStatus (hostCondition K t s r m h)) = stPhase (hStatus h)"
  "stClaimRef (hStatus (hostCondition K t s r m h)) = stClaimRef (hStatus h)"
  by (simp_all add: hostCondition_def)

lemma setPhase_keeps [simp]:
  "hMeta (setPhase p h) = hMeta h" "hSpec (setPhase p h) = hSpec h"
  "stPhase (hStatus (setPhase p h)) = p" "stClaimRef (hStatus (setPhase p h)) = stClaimRef (hStatus h)"
  by (simp_all add: setPhase_def)

lemma dropHostFinalizer_keeps [simp]:
  "hStatus (dropHostFinalizer K h) = hStatus h" "hSpec (dropHostFinalizer K h) = hSpec h"
  "mLabels (hMeta (dropHostFinalizer K h)) = mLabels (hMeta h)"
  by (simp_all add: dropHostFinalizer_def)

lemma unreachable_keeps [simp]:
  "hMeta (unreachable K m h) = hMeta h" "hSpec (unreachable K m h) = hSpec h"
  "stPhase (hStatus (unreachable K m h)) = HostPhaseUnreachable"
  "stClaimRef (hStatus (unreachable K m h)) = stClaimRef (hStatus h)"
  by (simp_all add: unreachable_def)

lemma probed_keeps [simp]:
  "hMeta (probed K info h) = hMeta h" "hSpec (probed K info h) = hSpec h"
  "stClaimRef (hStatus (probed K info h)) = stClaimRef (hStatus h)"
  "stPhase (hStatus (probed K info h)) =
    (if hLabel h ClaimedByLabel \<noteq> [] then HostPhaseClaimed else HostPhaseAvailable)"
  by (simp_all add: probed_def Let_def)

lemma replay_Probe:
  "replay (Probe c) evs = Some (Inr info) \<Longrightarrow>
   \<exists>out err. evs = [(Exec (scConn c) probeScript None, RExec (Done out err RunOk))] \<and> info = systemInfoOf out"
  by (auto simp: Probe_def replay_ssh replay_run runReply_ok)

text \<open>The ways a probe ends.\<close>

lemma replay_probe:
  assumes "replay (probe K L h) evs = Some (h', res)"
  shows "hMeta h' = hMeta h \<and> hSpec h' = hSpec h \<and> stClaimRef (hStatus h') = stClaimRef (hStatus h) \<and>
    snd res = None \<and>
    (stPhase (hStatus h') = HostPhaseUnreachable \<or>
     stPhase (hStatus h') = (if hLabel h ClaimedByLabel \<noteq> [] then HostPhaseClaimed else HostPhaseAvailable) \<and>
     (\<exists>n out err. (Exec n probeScript None, RExec (Done out err RunOk)) \<in> set evs))"
  using assms
  by (fastforce simp: probe_def Let_def replay_run replay_bind elim!: replay_connect dest!: replay_Probe)

text \<open>No step of the body writes to the API server.\<close>

definition hostBodyReq :: "req \<Rightarrow> bool" where
  "hostBodyReq q = (case q of Now \<Rightarrow> True | GetHostMachine _ \<Rightarrow> True | Exec _ _ _ \<Rightarrow> True | _ \<Rightarrow> connectReq q)"

lemma calls_connect: "(\<And>q. connectReq q \<Longrightarrow> P q) \<Longrightarrow> calls P (connect L h)"
  unfolding connect_def
  by (auto intro!: calls_bindE calls_bind simp: sshConfigFor_def Dial_def call_defs connectReq_def Let_def
      split: resp.split sum.split)

lemma calls_reconcileHost: "calls hostBodyReq (reconcileHost K L h)"
proof -
  have "calls hostBodyReq (connect L g)" for g
    by (rule calls_connect) (auto simp: hostBodyReq_def connectReq_def split: req.splits)
  then show ?thesis
    by (auto intro!: calls_bind simp: reconcileHost_def reconcileDeleteHost_def probe_def Probe_def Run_def
        runCmd_def call_defs hostBodyReq_def connectReq_def Let_def split: resp.split sum.split option.split prod.split)
qed

lemma replay_ReconcileHost:
  assumes "replay (ReconcileHost K L key) evs = Some out" "(PatchHost a b, x) \<in> set evs"
  obtains body where
    "evs = (GetHost key, RHost (Inr a)) # (NewPatchHelper, RUnit (Inr ())) # body @ [(PatchHost a b, x)]"
    "replay (reconcileHost K L a) body = Some (b, out)"
proof -
  obtain h rest where e: "evs = (GetHost key, RHost (Inr h)) # (NewPatchHelper, RUnit (Inr ())) # rest"
    "replay (bind (reconcileHost K L h) (\<lambda>(h', res). bind (patchHost h h') (\<lambda>_. Ret res))) rest = Some out"
    using assms by (auto simp: ReconcileHost_def replay_run)
  then obtain body h' y where b: "rest = body @ [(PatchHost h h', y)]" "replay (reconcileHost K L h) body = Some (h', out)"
    by (auto simp: replay_bind replay_run)
  have "(PatchHost a b, x) \<notin> set body"
    using calls_replay [OF calls_reconcileHost b(2)] by (fastforce simp: hostBodyReq_def connectReq_def)
  then have "a = h" "b = h'" "x = y"
    using assms(2) e(1) b(1) by auto
  then show thesis using that e(1) b by blast
qed

lemma ReconcileHost_any_patch_reply:
  assumes "replay (ReconcileHost K L key) (evs @ [(PatchHost h h', RUnit r)]) = Some out"
  shows "replay (ReconcileHost K L key) (evs @ [(PatchHost h h', RUnit r')]) = Some out"
proof -
  obtain body where "evs @ [(PatchHost h h', RUnit r)] =
      (GetHost key, RHost (Inr h)) # (NewPatchHelper, RUnit (Inr ())) # body @ [(PatchHost h h', RUnit r)]"
    and b: "replay (reconcileHost K L h) body = Some (h', out)"
    using replay_ReconcileHost [OF assms, of h h' "RUnit r"] by auto
  then have "evs @ [(PatchHost h h', RUnit r')] =
      (GetHost key, RHost (Inr h)) # (NewPatchHelper, RUnit (Inr ())) # body @ [(PatchHost h h', RUnit r')]"
    by (simp add: Cons_eq_append_conv append_eq_Cons_conv)
  moreover have "replay (bind (reconcileHost K L h) (\<lambda>(g, res). bind (patchHost h g) (\<lambda>_. Ret res)))
      (body @ [(PatchHost h h', RUnit r')]) = Some out"
    unfolding replay_bind [of "reconcileHost K L h"]
    using b by (intro exI [of _ body] exI [of _ "[(PatchHost h h', RUnit r')]"] exI [of _ "(h', out)"])
      (simp add: replay_steps)
  ultimately show ?thesis
    by (simp add: ReconcileHost_def replay_run)
qed

subsection \<open>Properties\<close>

text \<open>What a reconcile makes of a claimed host that is being deleted, by the answer to the lookup of its claimant.\<close>

lemma hostCondition_only: "\<exists>c. hostCondition K t s r m h = h\<lparr>hStatus := (hStatus h)\<lparr>stConditions := c\<rparr>\<rparr>"
  unfolding hostCondition_def by (rule exI, rule refl)

lemma reconcileDeleteHost_claimed:
  assumes "replay (reconcileDeleteHost K h) evs = Some (h', out)" "stClaimRef (hStatus h) = Some ref"
  shows "\<exists>y. evs = [(GetHostMachine (orNamespace ref, orName ref), RHostMachine y)] \<and> (case y of
       Inr hm \<Rightarrow> \<exists>c. h' = h\<lparr>hStatus := (hStatus h)\<lparr>stConditions := c\<rparr>\<rparr>
     | Inl e \<Rightarrow> if ekind e = ErrNotFound then h' = dropHostFinalizer K (h\<lparr>hStatus := (hStatus h)\<lparr>stClaimRef := None\<rparr>\<rparr>)
               else h' = h)"
  using assms by (auto simp: reconcileDeleteHost_def Let_def replay_run hostCondition_only split: if_splits)

text \<open>
  C32. A claimed host is left to its HostMachine. Whether it is being deleted or not, the
  reconcile of a host that holds a claim opens no connection and runs nothing on it, and its
  patch changes neither spec, nor labels, nor phase. A host that is not being deleted is not
  changed at all, only given its finalizer if that was missing. Of a host that is being
  deleted the claimant is looked up first: while it exists only a condition changes, when the
  lookup fails nothing does, and only the answer that it does not exist clears the claim and takes the
  finalizer.
\<close>

theorem ReconcileHost_leaves_claimed:
  assumes "replay (ReconcileHost K L key) evs = Some out" "(PatchHost h h', x) \<in> set evs"
    and "stClaimRef (hStatus h) = Some ref"
  shows "hSpec h' = hSpec h \<and> mLabels (hMeta h') = mLabels (hMeta h) \<and> stPhase (hStatus h') = stPhase (hStatus h) \<and>
    (if mDeletionTimestamp (hMeta h) = None
     then evs = [(GetHost key, RHost (Inr h)), (NewPatchHelper, RUnit (Inr ())), (PatchHost h h', x)] \<and>
       h' = (if containsFinalizer K (mFinalizers (hMeta h)) HostFinalizer then h
         else h\<lparr>hMeta := (hMeta h)\<lparr>mFinalizers := addFinalizer K (mFinalizers (hMeta h)) HostFinalizer\<rparr>\<rparr>)
     else \<exists>y. evs = [(GetHost key, RHost (Inr h)), (NewPatchHelper, RUnit (Inr ())),
         (GetHostMachine (orNamespace ref, orName ref), RHostMachine y), (PatchHost h h', x)] \<and>
       (case y of
          Inr hm \<Rightarrow> \<exists>c. h' = h\<lparr>hStatus := (hStatus h)\<lparr>stConditions := c\<rparr>\<rparr>
        | Inl e \<Rightarrow> if ekind e = ErrNotFound then h' = dropHostFinalizer K (h\<lparr>hStatus := (hStatus h)\<lparr>stClaimRef := None\<rparr>\<rparr>)
                  else h' = h))"
proof -
  obtain body where e: "evs = (GetHost key, RHost (Inr h)) # (NewPatchHelper, RUnit (Inr ())) # body @ [(PatchHost h h', x)]"
    "replay (reconcileHost K L h) body = Some (h', out)"
    using replay_ReconcileHost [OF assms(1,2)] .
  show ?thesis
  proof (cases "mDeletionTimestamp (hMeta h) = None")
    case True
    then show ?thesis using e assms(3) by (auto simp: reconcileHost_def split: if_splits)
  next
    case False
    then have "replay (reconcileDeleteHost K h) body = Some (h', out)" using e(2) by (simp add: reconcileHost_def)
    from reconcileDeleteHost_claimed [OF this assms(3)] obtain y where
      y: "body = [(GetHostMachine (orNamespace ref, orName ref), RHostMachine y)]" and
      after: "case y of
          Inr hm \<Rightarrow> \<exists>c. h' = h\<lparr>hStatus := (hStatus h)\<lparr>stConditions := c\<rparr>\<rparr>
        | Inl e \<Rightarrow> if ekind e = ErrNotFound then h' = dropHostFinalizer K (h\<lparr>hStatus := (hStatus h)\<lparr>stClaimRef := None\<rparr>\<rparr>)
                  else h' = h" by (elim exE conjE)
    have "hSpec h' = hSpec h \<and> mLabels (hMeta h') = mLabels (hMeta h) \<and> stPhase (hStatus h') = stPhase (hStatus h)"
      using after by (cases y) (auto split: if_splits)
    moreover have "evs = [(GetHost key, RHost (Inr h)), (NewPatchHelper, RUnit (Inr ())),
         (GetHostMachine (orNamespace ref, orName ref), RHostMachine y), (PatchHost h h', x)]" using e(1) y by simp
    ultimately show ?thesis unfolding if_not_P [OF False] using after by (intro conjI exI [of _ y]) simp_all
  qed
qed

text \<open>
  C33. Only a probe that succeeded makes a host Available. Whenever a reconcile writes the
  phase Available where it was not, the probe script ran to success on the host during this
  reconcile, the host is not marked unhealthy, holds no claim and carries no claim label: a
  host that runs someone's cluster is not offered again, even when its status was lost.
\<close>

theorem ReconcileHost_available_is_probed:
  assumes "replay (ReconcileHost K L key) evs = Some out" "(PatchHost h h', x) \<in> set evs"
    and "stPhase (hStatus h') = HostPhaseAvailable" "stPhase (hStatus h) \<noteq> HostPhaseAvailable"
  shows "(\<exists>n o' e. (Exec n probeScript None, RExec (Done o' e RunOk)) \<in> set evs) \<and>
    \<not> hsUnhealthy (hSpec h') \<and> stClaimRef (hStatus h') = None \<and> hLabel h' ClaimedByLabel = [] \<and>
    mDeletionTimestamp (hMeta h') = None"
proof -
  obtain body where e: "evs = (GetHost key, RHost (Inr h)) # (NewPatchHelper, RUnit (Inr ())) # body @ [(PatchHost h h', x)]"
    "replay (reconcileHost K L h) body = Some (h', out)"
    using replay_ReconcileHost [OF assms(1,2)] .
  have "replay (probe K L h) body = Some (h', out)" "\<not> hsUnhealthy (hSpec h)" "stClaimRef (hStatus h) = None"
    "mDeletionTimestamp (hMeta h) = None"
    using e(2) assms(3,4)
    by (auto simp: reconcileHost_def reconcileDeleteHost_def Let_def replay_run split: if_splits option.split_asm)
  then show ?thesis
    using replay_probe [of K L h body h' out] assms(3) e(1) by (auto split: if_splits)
qed

text \<open>
  Deletion waits for the claim. A reconcile takes the host's finalizer away only when
  the host is being deleted and either carries no claim, or its claimant was looked up in
  this reconcile and the API server answered that it does not exist.
\<close>

theorem ReconcileHost_delete_waits:
  assumes "finalizersLib K"
    and "replay (ReconcileHost K L key) evs = Some out" "(PatchHost h h', x) \<in> set evs"
    and "containsFinalizer K (mFinalizers (hMeta h)) HostFinalizer"
    and "\<not> containsFinalizer K (mFinalizers (hMeta h')) HostFinalizer"
  shows "mDeletionTimestamp (hMeta h) \<noteq> None \<and>
    (\<forall>ref. stClaimRef (hStatus h) = Some ref \<longrightarrow>
       (\<exists>e. (GetHostMachine (orNamespace ref, orName ref), RHostMachine (Inl e)) \<in> set evs \<and> ekind e = ErrNotFound))"
proof -
  obtain body where e: "evs = (GetHost key, RHost (Inr h)) # (NewPatchHelper, RUnit (Inr ())) # body @ [(PatchHost h h', x)]"
    "replay (reconcileHost K L h) body = Some (h', out)"
    using replay_ReconcileHost [OF assms(2,3)] .
  show ?thesis
    using e assms(4,5) replay_probe [of K L h body h' out]
    by (auto simp: reconcileHost_def reconcileDeleteHost_def Let_def replay_run split: if_splits option.split_asm)
qed

text \<open>
  A failed patch of a Host is not reported: whatever error the API server gives for the
  patch at the end of a reconcile, the reconcile returns what it returns when the patch
  succeeds, so the work is neither retried nor logged as failed.
\<close>

theorem ReconcileHost_swallows_patch_error:
  "replay (ReconcileHost K L key) (evs @ [(PatchHost h h', RUnit (Inl e))]) =
   replay (ReconcileHost K L key) (evs @ [(PatchHost h h', RUnit (Inr ()))])"
proof -
  have "replay (ReconcileHost K L key) (evs @ [(PatchHost h h', RUnit (Inl e))]) = Some out \<longleftrightarrow>
      replay (ReconcileHost K L key) (evs @ [(PatchHost h h', RUnit (Inr ()))]) = Some out" for out
    using ReconcileHost_any_patch_reply by blast
  then show ?thesis by (metis not_None_eq)
qed

subsection \<open>Concrete runs\<close>

definition examplePoolHost :: host where
  "examplePoolHost = exampleTofuHost\<lparr>
     hMeta := (hMeta exampleTofuHost)\<lparr>mFinalizers := [HostFinalizer]\<rparr>,
     hStatus := (hStatus exampleTofuHost)\<lparr>stPhase := HostPhasePending\<rparr>\<rparr>"

definition exampleClaim :: objectReference where
  "exampleClaim = \<lparr>orAPIVersion = ''infrastructure.kgenesis.io/v1alpha1'', orKind = ''HostMachine'',
     orNamespace = ''default'', orName = ''m-1'', orUID = ''uid-m-1''\<rparr>"

definition exampleClaimedHost :: host where
  "exampleClaimedHost = examplePoolHost\<lparr>hStatus := (hStatus examplePoolHost)\<lparr>stPhase := HostPhaseClaimed,
     stClaimRef := Some exampleClaim\<rparr>\<rparr>"

abbreviation exampleHostKey :: objectKey where
  "exampleHostKey \<equiv> (''default'', ''kg-worker-1'')"

definition exampleProbedHost :: host where
  "exampleProbedHost = probed exampleK8s (systemInfoOf ''hostname=node-1'')
     (pinKey (examplePoolHost\<lparr>hStatus := (hStatus examplePoolHost)\<lparr>stLastProbeTime := Some 100\<rparr>\<rparr>) ''ssh-ed25519 AkeyZ'')"

definition exampleProbeRun :: trace where
  "exampleProbeRun =
     [(GetHost exampleHostKey, RHost (Inr examplePoolHost)), (NewPatchHelper, RUnit (Inr ())), (Now, RTime 100)] @
     exampleConnect 7 @
     [(UserAuth 7 exampleAuth, RUnit (Inr ())),
      (Exec 7 probeScript None, RExec (Done ''hostname=node-1'' [] RunOk)),
      (CloseConn 7, RUnit (Inr ())),
      (PatchHost examplePoolHost exampleProbedHost, RUnit (Inr ()))]"

theorem ReconcileHost_available_is_probed_witness:
  "replay (ReconcileHost exampleK8s exampleSshLib exampleHostKey) exampleProbeRun = Some (probeIntervalHealthy, None) \<and>
   stPhase (hStatus exampleProbedHost) = HostPhaseAvailable \<and> hLabel exampleProbedHost ClaimedByLabel = []"
proof -
  have r: "replay (ReconcileHost exampleK8s exampleSshLib exampleHostKey) exampleProbeRun = Some (probeIntervalHealthy, None)"
    by code_simp
  have p: "stPhase (hStatus exampleProbedHost) = HostPhaseAvailable" "stPhase (hStatus examplePoolHost) \<noteq> HostPhaseAvailable"
    by code_simp+
  have "(PatchHost examplePoolHost exampleProbedHost, RUnit (Inr ())) \<in> set exampleProbeRun"
    by (simp add: exampleProbeRun_def)
  from ReconcileHost_available_is_probed [OF r this p] show ?thesis
    using r p by blast
qed

definition exampleDeletedHost :: host where
  "exampleDeletedHost = exampleClaimedHost\<lparr>hMeta := (hMeta exampleClaimedHost)\<lparr>mDeletionTimestamp := Some 50\<rparr>\<rparr>"

theorem ReconcileHost_leaves_claimed_witness:
  "\<exists>e h'. replay (ReconcileHost exampleK8s exampleSshLib exampleHostKey)
     [(GetHost exampleHostKey, RHost (Inr exampleDeletedHost)), (NewPatchHelper, RUnit (Inr ())),
      (GetHostMachine (''default'', ''m-1''), RHostMachine (Inl e)), (PatchHost exampleDeletedHost h', RUnit (Inr ()))] = Some (0, None) \<and>
   mLabels (hMeta h') = mLabels (hMeta exampleDeletedHost) \<and> stPhase (hStatus h') = HostPhaseClaimed"
proof -
  let ?e = "\<lparr>emsg = ''not found'', ekind = ErrNotFound\<rparr>"
  let ?h = "dropHostFinalizer exampleK8s
    (exampleDeletedHost\<lparr>hStatus := (hStatus exampleDeletedHost)\<lparr>stClaimRef := None\<rparr>\<rparr>)"
  let ?evs = "[(GetHost exampleHostKey, RHost (Inr exampleDeletedHost)), (NewPatchHelper, RUnit (Inr ())),
    (GetHostMachine (''default'', ''m-1''), RHostMachine (Inl ?e)), (PatchHost exampleDeletedHost ?h, RUnit (Inr ()))]"
  have r: "replay (ReconcileHost exampleK8s exampleSshLib exampleHostKey) ?evs = Some (0, None)" by code_simp
  have m: "(PatchHost exampleDeletedHost ?h, RUnit (Inr ())) \<in> set ?evs" by simp
  have c: "stClaimRef (hStatus exampleDeletedHost) = Some exampleClaim" "stPhase (hStatus exampleDeletedHost) = HostPhaseClaimed"
    by (simp_all add: exampleDeletedHost_def exampleClaimedHost_def)
  note left = ReconcileHost_leaves_claimed [OF r m c(1)]
  show ?thesis
    by (intro exI [of _ ?e] exI [of _ ?h] conjI r left [THEN conjunct2, THEN conjunct1]
        trans [OF left [THEN conjunct2, THEN conjunct2, THEN conjunct1] c(2)])
qed

theorem ReconcileHost_delete_waits_witness:
  "\<exists>e evs h'. replay (ReconcileHost exampleK8s exampleSshLib exampleHostKey) evs = Some (0, None) \<and>
     (PatchHost exampleDeletedHost h', RUnit (Inr ())) \<in> set evs \<and>
     (GetHostMachine (''default'', ''m-1''), RHostMachine (Inl e)) \<in> set evs \<and> ekind e = ErrNotFound"
proof -
  let ?e = "\<lparr>emsg = ''not found'', ekind = ErrNotFound\<rparr>"
  let ?h = "dropHostFinalizer exampleK8s
    (exampleDeletedHost\<lparr>hStatus := (hStatus exampleDeletedHost)\<lparr>stClaimRef := None\<rparr>\<rparr>)"
  let ?evs = "[(GetHost exampleHostKey, RHost (Inr exampleDeletedHost)), (NewPatchHelper, RUnit (Inr ())),
    (GetHostMachine (''default'', ''m-1''), RHostMachine (Inl ?e)),
    (PatchHost exampleDeletedHost ?h, RUnit (Inr ()))]"
  have r: "replay (ReconcileHost exampleK8s exampleSshLib exampleHostKey) ?evs = Some (0, None)"
    by code_simp
  have m: "(PatchHost exampleDeletedHost ?h, RUnit (Inr ())) \<in> set ?evs" by simp
  have f: "containsFinalizer exampleK8s (mFinalizers (hMeta exampleDeletedHost)) HostFinalizer"
    "\<not> containsFinalizer exampleK8s (mFinalizers (hMeta ?h)) HostFinalizer"
    by code_simp+
  have c: "stClaimRef (hStatus exampleDeletedHost) = Some exampleClaim"
    "(orNamespace exampleClaim, orName exampleClaim) = (''default'', ''m-1'')"
    by (simp_all add: exampleDeletedHost_def exampleClaimedHost_def exampleClaim_def)
  from ReconcileHost_delete_waits [OF exampleK8s_ok(2) r m f] c
  obtain e where "(GetHostMachine (''default'', ''m-1''), RHostMachine (Inl e)) \<in> set ?evs" "ekind e = ErrNotFound"
    by (metis (no_types, lifting))
  then show ?thesis using r m by blast
qed

end
