(* ===== verification/KG_CloudInit.thy ===== *)
theory KG_CloudInit
  imports KG_Shell "HOL-Library.AList"
begin

text \<open>
  \<^verbatim>\<open>internal/cloudinit/cloudinit.go\<close> and \<^verbatim>\<open>internal/cloudinit/kubeadm.go\<close>: the
  cloud-config of a machine becomes one bash script, with the provider ID and the host's
  address written into the kubeadm configuration it carries. The YAML libraries, gzip and
  the \<^verbatim>\<open>%v\<close> verb are parameters (the record \<open>lib\<close>); documents are \<open>any\<close> values, Go
  maps are association lists read with \<open>map_of\<close>.
\<close>

subsection \<open>Data\<close>

datatype any =
    VNil
  | VBool bool
  | VNum string
  | VStr string
  | VList "any list"
  | VMap "(string \<times> any) list"

type_synonym doc = "(string \<times> any) list"

record cfile =
  fPath :: string
  fEncoding :: string
  fOwner :: string
  fPermissions :: string
  fAppend :: bool
  fContent :: string

record cloudConfig =
  WriteFiles :: "cfile list"
  BootCmd :: "any list"
  RunCmd :: "any list"

record renderOptions =
  optProviderID :: string
  optHostAddress :: string

text \<open>A \<^verbatim>\<open>resolvedFile\<close> is a file together with its decoded content.\<close>

record resolvedFile =
  rfFile :: cfile
  rfContent :: string

record kubeletArg =
  argName :: string
  argValue :: string

record kubeadmPatch =
  kubeletArgs :: "kubeletArg list"
  advertiseAddress :: string

text \<open>What is not under the repository: YAML decoding and encoding, gzip, and \<^verbatim>\<open>%v\<close>.\<close>

record lib =
  yamlTop :: "string \<Rightarrow> doc result"
  yamlCloudConfig :: "string \<Rightarrow> cloudConfig result"
  yamlReadDocs :: "string \<Rightarrow> string list result"
  yamlMarshal :: "doc \<Rightarrow> string result"
  gunzipLib :: "string \<Rightarrow> string result"
  fmtV :: "any \<Rightarrow> string"

definition SentinelPath :: string where
  "SentinelPath = ''/run/cluster-api/bootstrap-success.complete''"

definition supported :: "string \<Rightarrow> bool" where
  "supported k \<longleftrightarrow> k \<in> {''write_files'', ''bootcmd'', ''runcmd''}"

definition kubeadmConfigKinds :: "string \<Rightarrow> bool" where
  "kubeadmConfigKinds k \<longleftrightarrow> k \<in> {''InitConfiguration'', ''JoinConfiguration''}"

definition kubeadmAPIGroupPrefix :: string where
  "kubeadmAPIGroupPrefix = ''kubeadm.k8s.io/''"

definition providerIDFlag :: string where
  "providerIDFlag = ''provider-id''"

definition nodeIPFlag :: string where
  "nodeIPFlag = ''node-ip''"

definition heredocDelimiter :: string where
  "heredocDelimiter = ''KGENESIS_B64_EOF''"

abbreviation NL :: char where
  "NL \<equiv> CHR 0x0A"

subsection \<open>Files\<close>

definition checkUnsupported :: "lib \<Rightarrow> string \<Rightarrow> unit result" where
  "checkUnsupported L userData =
     (case yamlTop L userData of
        Inl e \<Rightarrow> Inl (wrapf ''parse cloud-config'' e)
      | Inr topmap \<Rightarrow>
          let unknown = filter (\<lambda>k. \<not> supported k) (map fst topmap)
          in if unknown = [] then Inr ()
             else Inl (errorf (''cloud-config uses directives kg does not implement: '' @
                    joinWith '', '' (sortStrings unknown) @
                    ''. Express the same setup through preKubeadmCommands, postKubeadmCommands or files in the KubeadmConfigSpec'')))"

definition goDecodeString :: "string \<Rightarrow> string result" where
  "goDecodeString s =
     (case b64decode s of None \<Rightarrow> Inl (errorf ''illegal base64 data'') | Some v \<Rightarrow> Inr v)"

definition decodeContent :: "lib \<Rightarrow> string \<Rightarrow> string \<Rightarrow> string result" where
  "decodeContent L content encoding =
     (let e = toLower (trimSpace encoding) in
      if e = '''' \<or> e = ''text/plain'' then Inr content
      else if e = ''b64'' \<or> e = ''base64'' then goDecodeString (trimSpace content)
      else if e = ''gz'' \<or> e = ''gzip'' then gunzipLib L content
      else if e = ''gz+b64'' \<or> e = ''gzip+base64'' \<or> e = ''gz+base64'' \<or> e = ''gzip+b64''
           then rbind (goDecodeString (trimSpace content)) (gunzipLib L)
      else Inl (errorf (''unsupported encoding '' @ goQuote encoding)))"

definition resolveFile :: "lib \<Rightarrow> cfile \<Rightarrow> resolvedFile result" where
  "resolveFile L f =
     (if fPath f = '''' then Inl (errorf ''write_files entry has no path'')
      else case decodeContent L (fContent f) (fEncoding f) of
             Inl e \<Rightarrow> Inl (wrapf (''write_files '' @ fPath f) e)
           | Inr content \<Rightarrow> Inr \<lparr>rfFile = f, rfContent = content\<rparr>)"

definition resolveFiles :: "lib \<Rightarrow> cfile list \<Rightarrow> resolvedFile list result" where
  "resolveFiles L entries = mapR (resolveFile L) entries"

function wrapLines :: "string \<Rightarrow> string list" where
  "wrapLines encoded =
     (if length encoded > 76 then take 76 encoded # wrapLines (drop 76 encoded) else [encoded])"
  by pat_completeness auto
termination
  by (relation "measure length") auto

declare wrapLines.simps [simp del]

definition unlines :: "string list \<Rightarrow> string" where
  "unlines ls = concat (map (\<lambda>l. l @ [NL]) ls)"

definition wrapBase64 :: "string \<Rightarrow> string" where
  "wrapBase64 data = unlines (wrapLines (b64encode data))"

definition renderFile :: "resolvedFile \<Rightarrow> string" where
  "renderFile rf =
     (let f = rfFile rf; redirect = (if fAppend f then ''>>'' else ''>'')
      in ''install -d -m 0755 '' @ shellQuote (dirOf (fPath f)) @ [NL] @
         ''base64 -d <<'' @ [CHR 0x27] @ heredocDelimiter @ [CHR 0x27] @ '' '' @ redirect @ '' '' @
           shellQuote (fPath f) @ [NL] @
         wrapBase64 (rfContent rf) @
         heredocDelimiter @ [NL] @
         (if fOwner f \<noteq> '''' then ''chown '' @ shellQuote (fOwner f) @ '' '' @ shellQuote (fPath f) @ [NL] else []) @
         (if fPermissions f \<noteq> ''''
          then ''chmod '' @ shellQuote (fPermissions f) @ '' '' @ shellQuote (fPath f) @ [NL] else []))"

subsection \<open>Commands\<close>

definition argvEntry :: "lib \<Rightarrow> any \<Rightarrow> string result" where
  "argvEntry L item =
     (case item of
        VStr s \<Rightarrow> Inr (shellQuote s)
      | _ \<Rightarrow> Inl (errorf (''argv entry '' @ fmtV L item @ '' is not a string'')))"

definition renderCommand :: "lib \<Rightarrow> any \<Rightarrow> string result" where
  "renderCommand L raw =
     (case raw of
        VStr v \<Rightarrow> Inr v
      | VList items \<Rightarrow> rbind (mapR (argvEntry L) items) (\<lambda>parts. Inr (joinWith '' '' parts))
      | _ \<Rightarrow> Inl (errorf (''entry '' @ fmtV L raw @ '' is neither a string nor a list'')))"

definition guardCommand :: "string \<Rightarrow> string" where
  "guardCommand line = ''{'' @ [NL] @ line @ [NL] @ ''} || exit $?''"

text \<open>One section (\<^verbatim>\<open>bootcmd\<close> or \<^verbatim>\<open>runcmd\<close>) of the script.\<close>

definition renderSection :: "lib \<Rightarrow> string \<Rightarrow> any list \<Rightarrow> string result" where
  "renderSection L name cmds =
     (if cmds = [] then Inr []
      else case mapR (renderCommand L) cmds of
             Inl e \<Rightarrow> Inl (wrapf name e)
           | Inr lines \<Rightarrow>
               Inr (''### '' @ name @ [NL] @ concat (map (\<lambda>l. guardCommand l @ [NL]) lines) @ [NL]))"

subsection \<open>kubeadm configuration documents\<close>

definition patchEmpty :: "kubeadmPatch \<Rightarrow> bool" where
  "patchEmpty p \<longleftrightarrow> kubeletArgs p = [] \<and> advertiseAddress p = ''''"

definition usesArgList :: "string \<Rightarrow> bool" where
  "usesArgList apiVersion =
     (let version = trimPrefix apiVersion kubeadmAPIGroupPrefix
      in \<not> (version = ''v1beta1'' \<or> version = ''v1beta2'' \<or> version = ''v1beta3''))"

fun upsertArgList :: "any list \<Rightarrow> string \<Rightarrow> string \<Rightarrow> any list" where
  "upsertArgList [] name value = [VMap [(''name'', VStr name), (''value'', VStr value)]]"
| "upsertArgList (VMap entry # args) name value =
     (if map_of entry ''name'' = Some (VStr name)
      then VMap (AList.update ''value'' (VStr value) entry) # args
      else VMap entry # upsertArgList args name value)"
| "upsertArgList (arg # args) name value = arg # upsertArgList args name value"

definition registrationOf :: "doc \<Rightarrow> doc" where
  "registrationOf d =
     (case map_of d ''nodeRegistration'' of Some (VMap r) \<Rightarrow> r | _ \<Rightarrow> [])"

definition setKubeletExtraArg :: "doc \<Rightarrow> string \<Rightarrow> string \<Rightarrow> string \<Rightarrow> doc result" where
  "setKubeletExtraArg d apiVersion name value =
     (let registration = registrationOf d;
          store = (\<lambda>v. Inr (AList.update ''nodeRegistration''
                         (VMap (AList.update ''kubeletExtraArgs'' v registration)) d))
      in case map_of registration ''kubeletExtraArgs'' of
           Some (VList existing) \<Rightarrow> store (VList (upsertArgList existing name value))
         | Some (VMap existing) \<Rightarrow> store (VMap (AList.update name (VStr value) existing))
         | None \<Rightarrow>
             (if usesArgList apiVersion then store (VList (upsertArgList [] name value))
              else store (VMap [(name, VStr value)]))
         | Some VNil \<Rightarrow>
             (if usesArgList apiVersion then store (VList (upsertArgList [] name value))
              else store (VMap [(name, VStr value)]))
         | Some _ \<Rightarrow> Inl (errorf ''nodeRegistration.kubeletExtraArgs has unexpected type''))"

text \<open>
  \<^verbatim>\<open>setNested\<close> walks the path and creates the mappings on the way; the first argument is
  the part of the path already walked, for the error message. The source indexes
  \<^verbatim>\<open>path[len(path)-1]\<close>, so an empty path panics; every caller passes a non-empty one.
\<close>

fun setNested :: "string list \<Rightarrow> doc \<Rightarrow> string \<Rightarrow> string list \<Rightarrow> doc result" where
  "setNested walked d value [] = Inl (errorf ''index out of range'')"
| "setNested walked d value [key] = Inr (AList.update key (VStr value) d)"
| "setNested walked d value (key # k2 # path) =
     (case map_of d key of
        None \<Rightarrow> rbind (setNested (walked @ [key]) [] value (k2 # path))
                  (\<lambda>m. Inr (AList.update key (VMap m) d))
      | Some VNil \<Rightarrow> rbind (setNested (walked @ [key]) [] value (k2 # path))
                  (\<lambda>m. Inr (AList.update key (VMap m) d))
      | Some (VMap m) \<Rightarrow> rbind (setNested (walked @ [key]) m value (k2 # path))
                  (\<lambda>m'. Inr (AList.update key (VMap m') d))
      | Some _ \<Rightarrow> Inl (errorf (joinWith ''.'' (walked @ [key]) @ '' is not a mapping'')))"

definition setAdvertiseAddress :: "doc \<Rightarrow> string \<Rightarrow> string \<Rightarrow> doc result" where
  "setAdvertiseAddress d kind address =
     (if kind = ''InitConfiguration'' then
        setNested [] d address [''localAPIEndpoint'', ''advertiseAddress'']
      else if kind = ''JoinConfiguration'' then
        (if map_of d ''controlPlane'' = None then Inr d
         else setNested [] d address [''controlPlane'', ''localAPIEndpoint'', ''advertiseAddress''])
      else Inr d)"

definition strField :: "doc \<Rightarrow> string \<Rightarrow> string" where
  "strField d k = (case map_of d k of Some (VStr s) \<Rightarrow> s | _ \<Rightarrow> '''')"

text \<open>The loop over \<^verbatim>\<open>patch.kubeletArgs\<close>.\<close>

fun setKubeletArgs :: "doc \<Rightarrow> string \<Rightarrow> kubeletArg list \<Rightarrow> doc result" where
  "setKubeletArgs d apiVersion [] = Inr d"
| "setKubeletArgs d apiVersion (a # as) =
     rbind (setKubeletExtraArg d apiVersion (argName a) (argValue a))
       (\<lambda>d'. setKubeletArgs d' apiVersion as)"

text \<open>What the loop of \<^verbatim>\<open>patchKubeadmConfig\<close> does to one kubeadm document.\<close>

definition patchDoc :: "doc \<Rightarrow> string \<Rightarrow> string \<Rightarrow> kubeadmPatch \<Rightarrow> doc result" where
  "patchDoc d apiVersion kind patch =
     rbind (setKubeletArgs d apiVersion (kubeletArgs patch))
       (\<lambda>d'. if advertiseAddress patch \<noteq> ''''
             then setAdvertiseAddress d' kind (advertiseAddress patch) else Inr d')"

definition isKubeadmConfig :: "doc \<Rightarrow> bool" where
  "isKubeadmConfig d \<longleftrightarrow>
     hasPrefix (strField d ''apiVersion'') kubeadmAPIGroupPrefix \<and> kubeadmConfigKinds (strField d ''kind'')"

text \<open>
  One round of the loop: the text of the document in the result, and whether it was patched.
\<close>

definition patchRaw :: "lib \<Rightarrow> kubeadmPatch \<Rightarrow> string \<Rightarrow> (string \<times> bool) result" where
  "patchRaw L patch raw =
     (case yamlTop L raw of
        Inl e \<Rightarrow> Inr (raw, False)
      | Inr d \<Rightarrow>
          if d = [] \<or> \<not> isKubeadmConfig d then Inr (raw, False)
          else
            let apiVersion = strField d ''apiVersion''; kind = strField d ''kind''
            in case patchDoc d apiVersion kind patch of
                 Inl e \<Rightarrow> Inl (wrapf kind e)
               | Inr d' \<Rightarrow>
                   (case yamlMarshal L d' of
                      Inl e \<Rightarrow> Inl (wrapf (''re-encode '' @ kind) e)
                    | Inr out \<Rightarrow> Inr (out, True)))"

definition stripLeadingSeparator :: "string \<Rightarrow> string" where
  "stripLeadingSeparator d =
     (let trimmed = trimLeft (\<lambda>c. c \<in> {CHR '' '', CHR 0x09, NL, CHR 0x0D}) d in
      if \<not> hasPrefix trimmed ''---'' then d
      else
        let after = drop 3 trimmed in
        case cutAt NL after of
          None \<Rightarrow> if trimSpace after = [] then [] else d
        | Some (line, following) \<Rightarrow>
            let rest = trimSpace line in
            if rest \<noteq> [] \<and> hd rest \<noteq> CHR ''#'' then d else following)"

definition splitYAML :: "lib \<Rightarrow> string \<Rightarrow> string list result" where
  "splitYAML L content =
     rbind (yamlReadDocs L content)
       (\<lambda>docs. Inr (filter (\<lambda>d. trimSpace d \<noteq> []) (map stripLeadingSeparator docs)))"

definition joinYAML :: "string list \<Rightarrow> string" where
  "joinYAML documents =
     concat (map (\<lambda>d. let trimmed = trimSpace d
                      in if trimmed = [] then [] else ''---'' @ [NL] @ trimmed @ [NL]) documents)"

definition patchKubeadmConfig :: "lib \<Rightarrow> string \<Rightarrow> kubeadmPatch \<Rightarrow> (string \<times> bool) result" where
  "patchKubeadmConfig L content patch =
     (case splitYAML L content of
        Inl e \<Rightarrow> Inr ([], False)
      | Inr documents \<Rightarrow>
          rbind (mapR (patchRaw L patch) documents)
            (\<lambda>rs. if list_ex snd rs then Inr (joinYAML (map fst rs), True) else Inr (content, False)))"

text \<open>One round of the loop of \<^verbatim>\<open>patchKubeadmConfigs\<close>: the file, and whether it counts.\<close>

definition patchFile :: "lib \<Rightarrow> kubeadmPatch \<Rightarrow> resolvedFile \<Rightarrow> (resolvedFile \<times> bool) result" where
  "patchFile L patch f =
     (case patchKubeadmConfig L (rfContent f) patch of
        Inl e \<Rightarrow> Inl (wrapf (''write_files '' @ fPath (rfFile f)) e)
      | Inr (content, changed) \<Rightarrow>
          if \<not> changed then Inr (f, False)
          else Inr (f\<lparr>rfContent := content, rfFile := (rfFile f)\<lparr>fEncoding := ''''\<rparr>\<rparr>, True))"

definition patchKubeadmConfigs :: "lib \<Rightarrow> resolvedFile list \<Rightarrow> kubeadmPatch \<Rightarrow> resolvedFile list result" where
  "patchKubeadmConfigs L files patch =
     rbind (mapR (patchFile L patch) files)
       (\<lambda>rs. if list_ex snd rs then Inr (map fst rs)
             else Inl (errorf (''bootstrap data contains no kubeadm InitConfiguration or '' @
                    ''JoinConfiguration, so the kubelet provider ID cannot be set and Cluster API '' @
                    ''would not be able to match this machine to its Node'')))"

subsection \<open>Render\<close>

definition patchFor :: "renderOptions \<Rightarrow> kubeadmPatch" where
  "patchFor opts =
     \<lparr>kubeletArgs =
        (if optProviderID opts \<noteq> '''' then [\<lparr>argName = providerIDFlag, argValue = optProviderID opts\<rparr>] else []) @
        (if optHostAddress opts \<noteq> '''' then [\<lparr>argName = nodeIPFlag, argValue = optHostAddress opts\<rparr>] else []),
      advertiseAddress = optHostAddress opts\<rparr>"

definition scriptHeader :: string where
  "scriptHeader =
     ''#!/usr/bin/env bash'' @ [NL] @
     ''# Generated by kg from Cluster API bootstrap data. Do not edit.'' @ [NL] @
     ''set -euo pipefail'' @ [NL, NL]"

definition Render :: "lib \<Rightarrow> string \<Rightarrow> renderOptions \<Rightarrow> string result" where
  "Render L userData opts =
     rbind (checkUnsupported L userData) (\<lambda>_.
     (case yamlCloudConfig L userData of
        Inl e \<Rightarrow> Inl (wrapf ''parse cloud-config'' e)
      | Inr cfg \<Rightarrow>
          rbind (resolveFiles L (WriteFiles cfg)) (\<lambda>files0.
          rbind (if patchEmpty (patchFor opts) then Inr files0
                 else patchKubeadmConfigs L files0 (patchFor opts)) (\<lambda>files.
          rbind (renderSection L ''bootcmd'' (BootCmd cfg)) (\<lambda>boot.
          rbind (renderSection L ''runcmd'' (RunCmd cfg)) (\<lambda>run.
          Inr (scriptHeader @
               (if files = [] then []
                else ''### write_files'' @ [NL] @ concat (map renderFile files) @ [NL]) @
               boot @ run)))))))"

subsection \<open>What a shell reads from a rendered file\<close>

text \<open>
  A here-document ends at the first line that is the delimiter; \<open>nextCommand\<close> reads one command
  of the kinds \<open>renderFile\<close> writes, up to the end of its line or of its here-document, and
  \<open>nextCommands\<close> the given number of them. \<open>fileCommands\<close> is what an entry asks for.
\<close>

definition heredoc :: "string \<Rightarrow> string \<Rightarrow> (string \<times> string) option" where
  "heredoc delim s =
     (let ls = splitOn NL s in
      if delim \<in> set ls
      then Some (unlines (takeWhile (\<lambda>l. l \<noteq> delim) ls),
                 joinWith [NL] (tl (dropWhile (\<lambda>l. l \<noteq> delim) ls)))
      else None)"

datatype shCommand =
    InstallDir string string        \<comment> \<open>mode and directory\<close>
  | DecodeTo string bool string     \<comment> \<open>path, whether it appends, the decoded payload\<close>
  | SetOwner string string          \<comment> \<open>owner and path\<close>
  | SetMode string string           \<comment> \<open>mode and path\<close>

text \<open>Two words with a blank between them and a line break after them.\<close>

definition twoWords :: "string \<Rightarrow> (string \<times> string \<times> string) option" where
  "twoWords s = (case shWord SPlain s of
     Some (a, c # s1) \<Rightarrow> if c = CHR '' '' then (case shWord SPlain s1 of
         Some (b, d # s2) \<Rightarrow> if d = NL then Some (a, b, s2) else None
       | _ \<Rightarrow> None) else None
   | _ \<Rightarrow> None)"

definition decodeCommand :: "string \<Rightarrow> (shCommand \<times> string) option" where
  "decodeCommand s = (case shWord SPlain s of
     None \<Rightarrow> None
   | Some (delim, s1) \<Rightarrow>
       (let app = hasPrefix s1 '' >> '' in
        if \<not> app \<and> \<not> hasPrefix s1 '' > '' then None
        else case shWord SPlain (drop (if app then 4 else 3) s1) of
          None \<Rightarrow> None
        | Some (path, s2) \<Rightarrow>
          (if s2 = [] \<or> hd s2 \<noteq> NL then None
           else case heredoc delim (tl s2) of
             None \<Rightarrow> None
           | Some (payload, rest) \<Rightarrow> map_option (\<lambda>c. (DecodeTo path app c, rest)) (b64decode payload))))"

definition nextCommand :: "string \<Rightarrow> (shCommand \<times> string) option" where
  "nextCommand s =
     (if hasPrefix s ''install -d -m '' then map_option (\<lambda>(m, d, r). (InstallDir m d, r)) (twoWords (drop 14 s))
      else if hasPrefix s ''base64 -d <<'' then decodeCommand (drop 12 s)
      else if hasPrefix s ''chown '' then map_option (\<lambda>(w, p, r). (SetOwner w p, r)) (twoWords (drop 6 s))
      else if hasPrefix s ''chmod '' then map_option (\<lambda>(m, p, r). (SetMode m p, r)) (twoWords (drop 6 s))
      else None)"

fun nextCommands :: "nat \<Rightarrow> string \<Rightarrow> (shCommand list \<times> string) option" where
  "nextCommands 0 s = Some ([], s)"
| "nextCommands (Suc n) s = (case nextCommand s of
     None \<Rightarrow> None
   | Some (c, r) \<Rightarrow> map_option (\<lambda>(cs, r'). (c # cs, r')) (nextCommands n r))"

definition fileCommands :: "resolvedFile \<Rightarrow> shCommand list" where
  "fileCommands rf =
     (let f = rfFile rf
      in [InstallDir ''0755'' (dirOf (fPath f)), DecodeTo (fPath f) (fAppend f) (rfContent rf)] @
         (if fOwner f = [] then [] else [SetOwner (fOwner f) (fPath f)]) @
         (if fPermissions f = [] then [] else [SetMode (fPermissions f) (fPath f)]))"

lemma unlines_simps [simp]: "unlines [] = []" "unlines (l # ls) = l @ NL # unlines ls"
  by (simp_all add: unlines_def)

lemma joinWith_splitOn: "joinWith [NL] (splitOn NL s) = s"
proof (induction s)
  case Nil
  then show ?case by simp
next
  case (Cons c s)
  obtain y ys where y: "splitOn NL s = y # ys" by (cases "splitOn NL s") auto
  with Cons show ?case by (cases ys) auto
qed

lemma splitOn_unlines:
  "\<forall>l\<in>set ls. NL \<notin> set l \<Longrightarrow> splitOn NL (unlines ls @ s) = ls @ splitOn NL s"
  by (induction ls) (simp_all add: splitOn_append)

lemma heredoc_unlines:
  assumes "\<forall>l\<in>set ls. NL \<notin> set l \<and> l \<noteq> d" and "NL \<notin> set d"
  shows "heredoc d (unlines ls @ d @ NL # rest) = Some (unlines ls, rest)"
proof -
  have "splitOn NL (unlines ls @ d @ NL # rest) = ls @ d # splitOn NL rest"
    using assms by (simp add: splitOn_unlines splitOn_append)
  moreover have "takeWhile (\<lambda>l. l \<noteq> d) (ls @ d # splitOn NL rest) = ls"
    "dropWhile (\<lambda>l. l \<noteq> d) (ls @ d # splitOn NL rest) = d # splitOn NL rest"
    using assms(1) by (simp_all add: takeWhile_append2 dropWhile_append2)
  ultimately show ?thesis by (simp add: heredoc_def Let_def joinWith_splitOn)
qed

lemma wrapLines_concat: "concat (wrapLines e) = e"
proof (induction e rule: wrapLines.induct)
  case (1 e)
  then show ?case by (cases "length e > 76") (simp_all add: wrapLines.simps [of e])
qed

lemma wrapLines_chars: "l \<in> set (wrapLines e) \<Longrightarrow> set l \<subseteq> set e"
  using wrapLines_concat [of e] by (metis UN_upper set_concat)

lemma wrapBase64_decodes: "b64decode (wrapBase64 content) = Some content"
proof -
  let ?ls = "wrapLines (b64encode content)" and ?P = "\<lambda>c. c \<noteq> CHR 0x0A \<and> c \<noteq> CHR 0x0D"
  have keep: "filter ?P l = l" if "l \<in> set ?ls" for l
    by (rule filter_True) (use that wrapLines_chars b64_no_break in blast)
  have "filter ?P (unlines ls) = concat ls" if "set ls \<subseteq> set ?ls" for ls
    using that by (induction ls) (auto simp: keep)
  then have "filter ?P (wrapBase64 content) = b64encode content"
    by (simp add: wrapBase64_def wrapLines_concat)
  then show ?thesis by (simp add: b64decode_def b64decodeQuads_b64encode)
qed

lemma heredoc_wrapBase64:
  "heredoc heredocDelimiter (wrapBase64 content @ heredocDelimiter @ NL # rest) =
     Some (wrapBase64 content, rest)"
  unfolding wrapBase64_def
proof (rule heredoc_unlines)
  have "CHR ''_'' \<in> set heredocDelimiter" by (simp add: heredocDelimiter_def)
  then show "\<forall>l\<in>set (wrapLines (b64encode content)). NL \<notin> set l \<and> l \<noteq> heredocDelimiter"
    using wrapLines_chars [of _ "b64encode content"] b64_no_break [of _ content] by blast
  show "NL \<notin> set heredocDelimiter" by (simp add: heredocDelimiter_def)
qed

lemma wordEnd_simps [simp]: "wordEnd NL" "wordEnd (CHR '' '')"
  by (simp_all add: wordEnd_def isSpace_def)

lemma shWord_delimiter:
  "rest = [] \<or> wordEnd (hd rest) \<Longrightarrow>
     shWord SPlain (CHR 0x27 # heredocDelimiter @ CHR 0x27 # rest) = Some (heredocDelimiter, rest)"
  using shWord_shellQuote [of rest heredocDelimiter] by (simp add: shellQuote_def heredocDelimiter_def)

lemma twoWords_quoted: "twoWords (shellQuote a @ CHR '' '' # shellQuote b @ NL # rest) = Some (a, b, rest)"
  by (simp add: twoWords_def shWord_shellQuote)

lemma nextCommand_install:
  "nextCommand (''install -d -m 0755 '' @ shellQuote dir @ NL # rest) = Some (InstallDir ''0755'' dir, rest)"
proof -
  have "shWord SPlain (''0755 '' @ shellQuote dir @ NL # rest) = Some (''0755'', CHR '' '' # shellQuote dir @ NL # rest)"
    by (simp add: wordEnd_def isSpace_def)
  then have "twoWords (''0755 '' @ shellQuote dir @ NL # rest) = Some (''0755'', dir, rest)"
    unfolding twoWords_def by (simp add: shWord_shellQuote)
  then show ?thesis by (simp add: nextCommand_def)
qed

lemma nextCommand_decode:
  "nextCommand (''base64 -d <<'' @ [CHR 0x27] @ heredocDelimiter @ [CHR 0x27] @ '' '' @ (if app then ''>>'' else ''>'') @ '' '' @
     shellQuote path @ [NL] @ wrapBase64 content @ heredocDelimiter @ NL # rest) = Some (DecodeTo path app content, rest)"
proof -
  let ?s3 = "wrapBase64 content @ heredocDelimiter @ NL # rest"
  let ?s2 = "'' '' @ (if app then ''>>'' else ''>'') @ '' '' @ shellQuote path @ NL # ?s3"
  let ?s1 = "CHR 0x27 # heredocDelimiter @ CHR 0x27 # ?s2"
  have w: "shWord SPlain ?s1 = Some (heredocDelimiter, ?s2)" by (rule shWord_delimiter) simp
  have v: "shWord SPlain (shellQuote path @ NL # ?s3) = Some (path, NL # ?s3)" by (rule shWord_shellQuote) simp
  have "decodeCommand ?s1 = Some (DecodeTo path app content, rest)"
    unfolding decodeCommand_def w option.case prod.case
    using v heredoc_wrapBase64 [of content rest] wrapBase64_decodes [of content] by (cases app) (simp_all add: Let_def)
  then show ?thesis by (simp add: nextCommand_def)
qed

lemma nextCommand_chown:
  "nextCommand (''chown '' @ shellQuote w @ '' '' @ shellQuote path @ NL # rest) = Some (SetOwner w path, rest)"
  by (simp add: nextCommand_def twoWords_quoted)

lemma nextCommand_chmod:
  "nextCommand (''chmod '' @ shellQuote m @ '' '' @ shellQuote path @ NL # rest) = Some (SetMode m path, rest)"
  by (simp add: nextCommand_def twoWords_quoted)

lemma nextCommands_Cons:
  "nextCommand s = Some (c, r) \<Longrightarrow> nextCommands (length cs) r = Some (cs, rest) \<Longrightarrow>
   nextCommands (length (c # cs)) s = Some (c # cs, rest)"
  by simp

lemma nextCommands_file:
  assumes "nextCommands (length cs) s = Some (cs, rest)"
  shows "nextCommands (length (InstallDir ''0755'' dir # DecodeTo path app content # cs))
    (''install -d -m 0755 '' @ shellQuote dir @ NL #
     (''base64 -d <<'' @ [CHR 0x27] @ heredocDelimiter @ [CHR 0x27] @ '' '' @ (if app then ''>>'' else ''>'') @ '' '' @
      shellQuote path @ [NL] @ wrapBase64 content @ heredocDelimiter @ NL # s)) =
    Some (InstallDir ''0755'' dir # DecodeTo path app content # cs, rest)"
  by (rule nextCommands_Cons [OF nextCommand_install nextCommands_Cons [OF nextCommand_decode assms]])

subsection \<open>What kubeadm reads from a patched document\<close>

text \<open>The value a document gives a kubelet flag, in either form of \<^verbatim>\<open>kubeletExtraArgs\<close>.\<close>

fun argInList :: "any list \<Rightarrow> string \<Rightarrow> any option" where
  "argInList [] name = None"
| "argInList (VMap entry # args) name =
     (if map_of entry ''name'' = Some (VStr name) then map_of entry ''value'' else argInList args name)"
| "argInList (arg # args) name = argInList args name"

definition kubeletArgValue :: "doc \<Rightarrow> string \<Rightarrow> any option" where
  "kubeletArgValue d name =
     (case map_of (registrationOf d) ''kubeletExtraArgs'' of
        Some (VMap m) \<Rightarrow> map_of m name
      | Some (VList l) \<Rightarrow> argInList l name
      | _ \<Rightarrow> None)"

fun lookupPath :: "doc \<Rightarrow> string list \<Rightarrow> any option" where
  "lookupPath d [] = Some (VMap d)"
| "lookupPath d [k] = map_of d k"
| "lookupPath d (k # k2 # ks) =
     (case map_of d k of Some (VMap m) \<Rightarrow> lookupPath m (k2 # ks) | _ \<Rightarrow> None)"

lemma map_of_update [simp]: "map_of (AList.update k v m) j = (if j = k then Some v else map_of m j)"
  by (simp add: update_conv')

lemma argInList_upsert:
  "argInList (upsertArgList args n v) m = (if m = n then Some (VStr v) else argInList args m)"
proof (induction args n v rule: upsertArgList.induct)
  case (2 entry args name val)
  then show ?case by (cases "map_of entry ''name'' = Some (VStr name)") auto
qed auto

lemma registrationOf_update:
  "registrationOf (AList.update ''nodeRegistration'' (VMap r) d) = r"
  by (simp add: registrationOf_def)

lemma setKubeletExtraArg_store:
  assumes "setKubeletExtraArg d apiV n x = Inr d'"
  shows "\<exists>v. d' = AList.update ''nodeRegistration''
                 (VMap (AList.update ''kubeletExtraArgs'' v (registrationOf d))) d \<and>
       (case v of VMap m \<Rightarrow> (\<forall>k. map_of m k = (if k = n then Some (VStr x) else kubeletArgValue d k))
        | VList l \<Rightarrow> (\<forall>k. argInList l k = (if k = n then Some (VStr x) else kubeletArgValue d k))
        | _ \<Rightarrow> False)"
  using assms
  by (auto simp: setKubeletExtraArg_def Let_def kubeletArgValue_def argInList_upsert
      split: option.splits any.splits if_splits)

lemma setKubeletExtraArg_correct:
  assumes "setKubeletExtraArg d apiV n x = Inr d'"
  shows "kubeletArgValue d' k = (if k = n then Some (VStr x) else kubeletArgValue d k)"
    and "j \<noteq> ''nodeRegistration'' \<Longrightarrow> map_of d' j = map_of d j"
    and "j \<noteq> ''kubeletExtraArgs'' \<Longrightarrow> map_of (registrationOf d') j = map_of (registrationOf d) j"
proof -
  from setKubeletExtraArg_store [OF assms] obtain v where
    d': "d' = AList.update ''nodeRegistration''
                 (VMap (AList.update ''kubeletExtraArgs'' v (registrationOf d))) d"
    and v: "case v of VMap m \<Rightarrow> (\<forall>k. map_of m k = (if k = n then Some (VStr x) else kubeletArgValue d k))
        | VList l \<Rightarrow> (\<forall>k. argInList l k = (if k = n then Some (VStr x) else kubeletArgValue d k))
        | _ \<Rightarrow> False" by blast
  show "kubeletArgValue d' k = (if k = n then Some (VStr x) else kubeletArgValue d k)"
    using v by (simp add: d' kubeletArgValue_def [of "AList.update _ _ _"] registrationOf_update
        split: any.splits)
  show "j \<noteq> ''nodeRegistration'' \<Longrightarrow> map_of d' j = map_of d j" by (simp add: d')
  show "j \<noteq> ''kubeletExtraArgs'' \<Longrightarrow> map_of (registrationOf d') j = map_of (registrationOf d) j"
    by (simp add: d' registrationOf_update)
qed

lemma setKubeletArgs_correct:
  assumes "setKubeletArgs d apiV args = Inr d'" and "distinct (map argName args)"
  shows "(\<forall>a\<in>set args. kubeletArgValue d' (argName a) = Some (VStr (argValue a))) \<and>
    (\<forall>k. k \<notin> set (map argName args) \<longrightarrow> kubeletArgValue d' k = kubeletArgValue d k) \<and>
    (\<forall>j. j \<noteq> ''nodeRegistration'' \<longrightarrow> map_of d' j = map_of d j)"
  using assms
proof (induction args arbitrary: d)
  case Nil
  then show ?case by simp
next
  case (Cons a args)
  from Cons.prems obtain d1 where
    d1: "setKubeletExtraArg d apiV (argName a) (argValue a) = Inr d1"
    and rest: "setKubeletArgs d1 apiV args = Inr d'"
    by (auto simp: rbind_Inr_iff)
  note IH = Cons.IH [OF rest]
  show ?case
    using IH Cons.prems(2) setKubeletExtraArg_correct(1,2) [OF d1] by auto
qed

lemma lookupPath_setNested:
  "setNested w d x path = Inr d' \<Longrightarrow> lookupPath d' path = Some (VStr x)"
proof (induction w d x path arbitrary: d' rule: setNested.induct)
  case (3 walked d val key k2 path)
  from "3.prems" obtain m where m: "d' = AList.update key (VMap m) d"
    and r: "\<exists>m0. setNested (walked @ [key]) m0 val (k2 # path) = Inr m \<and>
       (map_of d key = None \<and> m0 = [] \<or> map_of d key = Some VNil \<and> m0 = [] \<or> map_of d key = Some (VMap m0))"
    by (auto simp: rbind_Inr_iff split: option.splits any.splits)
  then have "lookupPath m (k2 # path) = Some (VStr val)"
    using "3.IH" by auto
  then show ?case by (simp add: m)
qed auto

lemma setNested_frame: "setNested w d x (k # ks) = Inr d' \<Longrightarrow> j \<noteq> k \<Longrightarrow> map_of d' j = map_of d j"
  by (cases ks) (auto simp: rbind_Inr_iff split: option.splits any.splits)

declare setNested.simps [simp del] lookupPath.simps [simp del]

subsection \<open>From a rendered script back to the patched document\<close>

lemma mapR_hit:
  assumes "mapR f xs = Inr ys" and "list_ex P ys"
  shows "\<exists>x\<in>set xs. \<exists>y\<in>set ys. f x = Inr y \<and> P y"
proof -
  from assms(2) obtain i where i: "i < length ys" "P (ys ! i)"
    by (auto simp: list_ex_iff in_set_conv_nth)
  from assms(1) have "list_all2 (\<lambda>x y. f x = Inr y) xs ys" by (simp add: mapR_Inr_iff)
  with i show ?thesis
    by (intro bexI [of _ "xs ! i"] bexI [of _ "ys ! i"]) (auto simp: list_all2_conv_all_nth)
qed

text \<open>The document \<open>d'\<close> carries the machine's identity: what the patch has to achieve.\<close>

definition carriesIdentity :: "renderOptions \<Rightarrow> doc \<Rightarrow> bool" where
  "carriesIdentity opts d' \<longleftrightarrow>
     isKubeadmConfig d' \<and>
     (optProviderID opts \<noteq> '''' \<longrightarrow>
        kubeletArgValue d' providerIDFlag = Some (VStr (optProviderID opts))) \<and>
     (optHostAddress opts \<noteq> '''' \<longrightarrow>
        kubeletArgValue d' nodeIPFlag = Some (VStr (optHostAddress opts)) \<and>
        (strField d' ''kind'' = ''InitConfiguration'' \<longrightarrow>
           lookupPath d' [''localAPIEndpoint'', ''advertiseAddress''] = Some (VStr (optHostAddress opts))) \<and>
        (strField d' ''kind'' = ''JoinConfiguration'' \<and> map_of d' ''controlPlane'' \<noteq> None \<longrightarrow>
           lookupPath d' [''controlPlane'', ''localAPIEndpoint'', ''advertiseAddress''] =
             Some (VStr (optHostAddress opts))))"

lemma kubeletArgValue_frame:
  "map_of d' ''nodeRegistration'' = map_of d ''nodeRegistration'' \<Longrightarrow>
     kubeletArgValue d' k = kubeletArgValue d k"
  by (simp add: kubeletArgValue_def registrationOf_def)

lemma setAdvertiseAddress_frame:
  assumes "setAdvertiseAddress d kind a = Inr d'"
    and "j \<noteq> ''localAPIEndpoint''" and "j \<noteq> ''controlPlane''"
  shows "map_of d' j = map_of d j"
  using assms setNested_frame [of "[]" d a _ _ d' j]
  by (auto simp: setAdvertiseAddress_def split: if_splits)

lemma setAdvertiseAddress_Join_None:
  assumes "setAdvertiseAddress d ''JoinConfiguration'' a = Inr d'" and "map_of d' ''controlPlane'' \<noteq> None"
  shows "lookupPath d' [''controlPlane'', ''localAPIEndpoint'', ''advertiseAddress''] = Some (VStr a)"
  using assms by (auto simp: setAdvertiseAddress_def split: if_splits intro: lookupPath_setNested)

lemma setAdvertiseAddress_Init:
  assumes "setAdvertiseAddress d ''InitConfiguration'' a = Inr d'"
  shows "lookupPath d' [''localAPIEndpoint'', ''advertiseAddress''] = Some (VStr a)"
  using assms by (simp add: setAdvertiseAddress_def lookupPath_setNested)

lemma strField_cong: "map_of d' k = map_of d k \<Longrightarrow> strField d' k = strField d k"
  by (simp add: strField_def)

lemma patchFor_args:
  "distinct (map argName (kubeletArgs (patchFor opts)))"
  "optProviderID opts \<noteq> '''' \<Longrightarrow>
     \<lparr>argName = providerIDFlag, argValue = optProviderID opts\<rparr> \<in> set (kubeletArgs (patchFor opts))"
  "optHostAddress opts \<noteq> '''' \<Longrightarrow>
     \<lparr>argName = nodeIPFlag, argValue = optHostAddress opts\<rparr> \<in> set (kubeletArgs (patchFor opts))"
  by (simp_all add: patchFor_def providerIDFlag_def nodeIPFlag_def)

lemma patchDoc_identity:
  assumes "patchDoc d (strField d ''apiVersion'') (strField d ''kind'') (patchFor opts) = Inr d'"
    and "isKubeadmConfig d"
  shows "carriesIdentity opts d'"
proof -
  from assms(1) obtain d1 where
    d1: "setKubeletArgs d (strField d ''apiVersion'') (kubeletArgs (patchFor opts)) = Inr d1"
    and d2: "(if advertiseAddress (patchFor opts) \<noteq> ''''
      then setAdvertiseAddress d1 (strField d ''kind'') (advertiseAddress (patchFor opts)) else Inr d1) = Inr d'"
    by (auto simp: patchDoc_def rbind_Inr_iff)
  note args = setKubeletArgs_correct [OF d1 patchFor_args(1)]
  have adv: "advertiseAddress (patchFor opts) = optHostAddress opts" by (simp add: patchFor_def)
  have frame: "map_of d' j = map_of d1 j"
    if "j \<noteq> ''localAPIEndpoint''" "j \<noteq> ''controlPlane''" for j
    using d2 setAdvertiseAddress_frame that by (auto split: if_splits)
  have same: "map_of d' j = map_of d j" if "j \<in> {''apiVersion'', ''kind''}" for j
  proof -
    have "map_of d' j = map_of d1 j" by (rule frame) (use that in auto)
    moreover have "j \<noteq> ''nodeRegistration''" using that by auto
    then have "map_of d1 j = map_of d j" using args by blast
    ultimately show ?thesis by simp
  qed
  then have "strField d' ''kind'' = strField d ''kind''" "strField d' ''apiVersion'' = strField d ''apiVersion''"
    by (auto intro: strField_cong)
  moreover have "kubeletArgValue d' k = kubeletArgValue d1 k" for k
    by (rule kubeletArgValue_frame) (simp add: frame)
  moreover have "kubeletArgValue d1 providerIDFlag = Some (VStr (optProviderID opts))"
    if "optProviderID opts \<noteq> ''''"
    using args patchFor_args(2) [OF that] by fastforce
  moreover have "kubeletArgValue d1 nodeIPFlag = Some (VStr (optHostAddress opts))"
    if "optHostAddress opts \<noteq> ''''"
    using args patchFor_args(3) [OF that] by fastforce
  ultimately show ?thesis
    using assms(2) d2 adv
    by (auto simp: carriesIdentity_def isKubeadmConfig_def split: if_splits
        intro: setAdvertiseAddress_Init setAdvertiseAddress_Join_None)
qed

lemma patchRaw_identity:
  assumes "patchRaw L (patchFor opts) raw = Inr (out, True)"
  shows "\<exists>d'. yamlMarshal L d' = Inr out \<and> carriesIdentity opts d'"
  using assms patchDoc_identity
  by (fastforce simp: patchRaw_def Let_def split: sum.splits if_splits)

lemma patchFile_identity:
  assumes "patchFile L (patchFor opts) f = Inr (f', True)"
  shows "\<exists>docs d' out. rfContent f' = joinYAML docs \<and> out \<in> set docs \<and>
     yamlMarshal L d' = Inr out \<and> carriesIdentity opts d'"
proof -
  from assms obtain content where c: "patchKubeadmConfig L (rfContent f) (patchFor opts) = Inr (content, True)"
    and f': "rfContent f' = content"
    by (auto simp: patchFile_def split: sum.splits if_splits)
  from c obtain docs rs where rs: "mapR (patchRaw L (patchFor opts)) docs = Inr rs" and hit: "list_ex snd rs"
    and content: "content = joinYAML (map fst rs)"
    by (auto simp: patchKubeadmConfig_def rbind_Inr_iff split: sum.splits if_splits)
  from mapR_hit [OF rs hit] obtain raw out where
    "patchRaw L (patchFor opts) raw = Inr (out, True)" "(out, True) \<in> set rs"
    by auto
  with patchRaw_identity content f' show ?thesis
    by (metis fst_conv image_eqI list.set_map)
qed

subsection \<open>Properties\<close>

text \<open>
  C24. A rendered \<^verbatim>\<open>write_files\<close> entry is safe for every path, owner, mode and content. A shell
  that reads the block, whatever follows it, reads exactly the commands the entry asks for,
  in this order: create the file's directory, write to the entry's path, appending only when
  asked to, a payload that ends at the delimiter and decodes to the entry's bytes, whatever they are, then,
  when the entry names them, give that path its owner and its mode.
\<close>

theorem renderFile_reads_back:
  "nextCommands (length (fileCommands rf)) (renderFile rf @ rest) = Some (fileCommands rf, rest)"
proof -
  let ?f = "rfFile rf"
  let ?path = "fPath ?f"
  let ?modes = "if fPermissions ?f = [] then [] else [SetMode (fPermissions ?f) ?path]"
  let ?owners = "(if fOwner ?f = [] then [] else [SetOwner (fOwner ?f) ?path]) @ ?modes"
  let ?chmod = "(if fPermissions ?f \<noteq> [] then ''chmod '' @ shellQuote (fPermissions ?f) @ '' '' @ shellQuote ?path @ [NL] else []) @ rest"
  let ?chown = "(if fOwner ?f \<noteq> [] then ''chown '' @ shellQuote (fOwner ?f) @ '' '' @ shellQuote ?path @ [NL] else []) @ ?chmod"
  have mode: "nextCommands (length ?modes) ?chmod = Some (?modes, rest)"
    using nextCommand_chmod [of "fPermissions ?f" ?path rest] by simp
  have owner: "nextCommands (length ?owners) ?chown = Some (?owners, rest)"
  proof (cases "fOwner ?f = []")
    case True
    then show ?thesis using mode by simp
  next
    case False
    have "nextCommand ?chown = Some (SetOwner (fOwner ?f) ?path, ?chmod)"
      using nextCommand_chown [of "fOwner ?f" ?path ?chmod] False by simp
    from nextCommands_Cons [OF this mode] False show ?thesis by simp
  qed
  have cmds: "fileCommands rf = InstallDir ''0755'' (dirOf ?path) # DecodeTo ?path (fAppend ?f) (rfContent rf) # ?owners"
    by (simp add: fileCommands_def Let_def)
  have block: "renderFile rf @ rest = ''install -d -m 0755 '' @ shellQuote (dirOf ?path) @ NL #
      (''base64 -d <<'' @ [CHR 0x27] @ heredocDelimiter @ [CHR 0x27] @ '' '' @ (if fAppend ?f then ''>>'' else ''>'') @ '' '' @
       shellQuote ?path @ [NL] @ wrapBase64 (rfContent rf) @ heredocDelimiter @ NL # ?chown)"
    by (simp add: renderFile_def Let_def)
  show ?thesis unfolding cmds block by (rule nextCommands_file [OF owner])
qed

text \<open>
  A command given as a list is an argument vector the shell does not re-interpret: the
  line \<open>renderCommand\<close> writes for it reads back as exactly those arguments, for all bytes.
\<close>

theorem renderCommand_argv:
  assumes "argv \<noteq> []"
  shows "\<exists>line. renderCommand L (VList (map VStr argv)) = Inr line \<and>
     shArgs (length argv) line = Some argv"
proof -
  have "mapR (argvEntry L) (map VStr argv) = Inr (map shellQuote argv)"
    by (induction argv) (simp_all add: argvEntry_def)
  then have "renderCommand L (VList (map VStr argv)) = Inr (joinWith '' '' (map shellQuote argv))"
    by (simp add: renderCommand_def)
  then show ?thesis using shArgs_joined [OF assms] by auto
qed

theorem renderCommand_argv_witness:
  "\<exists>line. renderCommand undefined (VList (map VStr [''echo'', ''$(id) o'' @ [CHR 0x27] @ ''k''])) = Inr line \<and>
     shArgs 2 line = Some [''echo'', ''$(id) o'' @ [CHR 0x27] @ ''k'']"
  using renderCommand_argv [of "[''echo'', ''$(id) o'' @ [CHR 0x27] @ ''k'']" undefined] by (simp add: numeral_2_eq_2)

text \<open>
  C13. No script leaves \<open>Render\<close> without the machine's identity. Whenever rendering with a
  provider ID or a host address succeeds, the script contains a file whose content is built
  from an encoded kubeadm Init- or JoinConfiguration that gives the kubelet exactly that
  provider ID and node IP and, on a control plane machine, advertises exactly that address.
\<close>

theorem Render_carries_identity:
  assumes "Render L userData opts = Inr script"
    and "optProviderID opts \<noteq> '''' \<or> optHostAddress opts \<noteq> ''''"
  shows "\<exists>rf docs d' out pre post.
     script = pre @ renderFile rf @ post \<and> rfContent rf = joinYAML docs \<and> out \<in> set docs \<and>
     yamlMarshal L d' = Inr out \<and> carriesIdentity opts d'"
proof -
  have ne: "\<not> patchEmpty (patchFor opts)"
    using assms(2) by (auto simp: patchEmpty_def patchFor_def)
  from assms(1) ne obtain files0 files boot run where
    p: "patchKubeadmConfigs L files0 (patchFor opts) = Inr files"
    and script: "script = scriptHeader @ (if files = [] then []
        else ''### write_files'' @ [NL] @ concat (map renderFile files) @ [NL]) @ boot @ run"
    by (auto simp: Render_def rbind_Inr_iff split: sum.splits)
  from p obtain rs where rs: "mapR (patchFile L (patchFor opts)) files0 = Inr rs"
    and hit: "list_ex snd rs" and files: "files = map fst rs"
    by (auto simp: patchKubeadmConfigs_def rbind_Inr_iff split: if_splits)
  from mapR_hit [OF rs hit] obtain f rf where
    f: "patchFile L (patchFor opts) f = Inr (rf, True)" and "(rf, True) \<in> set rs" by auto
  then have "rf \<in> set files" by (force simp: files)
  then obtain as bs where "files = as @ rf # bs" by (meson split_list)
  then have "script = (scriptHeader @ ''### write_files'' @ [NL] @ concat (map renderFile as)) @
      renderFile rf @ (concat (map renderFile bs) @ [NL] @ boot @ run)"
    by (simp add: script)
  then show ?thesis using patchFile_identity [OF f] by blast
qed


text \<open>
  \<open>Render\<close> refuses what it does not implement: a cloud-config with any other top level
  directive never becomes a script, and the message names every such directive in order.
\<close>

theorem Render_rejects_unsupported:
  assumes "yamlTop L userData = Inr topmap" and "k \<in> set (map fst topmap)" and "\<not> supported k"
  shows "\<exists>e. Render L userData opts = Inl e \<and>
     emsg e = ''cloud-config uses directives kg does not implement: '' @
       joinWith '', '' (sortStrings (filter (\<lambda>k. \<not> supported k) (map fst topmap))) @
       ''. Express the same setup through preKubeadmCommands, postKubeadmCommands or files in the KubeadmConfigSpec''"
proof -
  have "filter (\<lambda>k. \<not> supported k) (map fst topmap) \<noteq> []"
    using assms(2,3) by (auto simp: filter_empty_conv)
  then show ?thesis using assms(1) by (simp add: Render_def checkUnsupported_def Let_def)
qed

subsection \<open>Witnesses\<close>

text \<open>
  A concrete instance of the libraries: it reads the user data of a worker that joins with a
  v1beta4 \<^verbatim>\<open>JoinConfiguration\<close>, and encodes a document as the list of its keys.
\<close>

definition exampleLib :: lib where
  "exampleLib =
     \<lparr>yamlTop = (\<lambda>s.
        if s = ''user-data'' then Inr [(''write_files'', VNil), (''runcmd'', VNil)]
        else if s = ''users'' then Inr [(''users'', VNil), (''disk_setup'', VNil), (''runcmd'', VNil)]
        else if s = ''join'' then Inr [(''apiVersion'', VStr ''kubeadm.k8s.io/v1beta4''), (''kind'', VStr ''JoinConfiguration'')]
        else Inl (errorf ''not a mapping'')),
      yamlCloudConfig = (\<lambda>s. Inr \<lparr>WriteFiles = [\<lparr>fPath = ''/run/kubeadm/kubeadm-join-config.yaml'',
          fEncoding = '''', fOwner = ''root:root'', fPermissions = ''0640'', fAppend = False, fContent = ''join''\<rparr>],
          BootCmd = [], RunCmd = [VStr ''kubeadm join'']\<rparr>),
      yamlReadDocs = (\<lambda>s. Inr [s]),
      yamlMarshal = (\<lambda>d. Inr (concat (map fst d))),
      gunzipLib = (\<lambda>s. Inl (errorf ''gzip: invalid header'')),
      fmtV = (\<lambda>v. '''')\<rparr>"

definition exampleOptions :: renderOptions where
  "exampleOptions = \<lparr>optProviderID = ''kgenesis://lab/w1'', optHostAddress = ''10.0.0.7''\<rparr>"

theorem Render_carries_identity_witness:
  "\<exists>script. Render exampleLib ''user-data'' exampleOptions = Inr script \<and>
     (\<exists>rf docs d' out pre post.
       script = pre @ renderFile rf @ post \<and> rfContent rf = joinYAML docs \<and> out \<in> set docs \<and>
       yamlMarshal exampleLib d' = Inr out \<and> carriesIdentity exampleOptions d')"
proof -
  have "\<not> isl (Render exampleLib ''user-data'' exampleOptions)" by code_simp
  then obtain script where s: "Render exampleLib ''user-data'' exampleOptions = Inr script"
    by (cases "Render exampleLib ''user-data'' exampleOptions") auto
  have "optProviderID exampleOptions \<noteq> '''' \<or> optHostAddress exampleOptions \<noteq> ''''"
    by (simp add: exampleOptions_def)
  then show ?thesis using Render_carries_identity [OF s] s by blast
qed


theorem Render_rejects_unsupported_witness:
  "\<exists>e. Render exampleLib ''users'' exampleOptions = Inl e \<and>
     emsg e = ''cloud-config uses directives kg does not implement: '' @ ''disk_setup, users'' @
       ''. Express the same setup through preKubeadmCommands, postKubeadmCommands or files in the KubeadmConfigSpec''"
proof -
  have y: "yamlTop exampleLib ''users'' = Inr [(''users'', VNil), (''disk_setup'', VNil), (''runcmd'', VNil)]"
    by (simp add: exampleLib_def)
  have j: "joinWith '', '' (sortStrings (filter (\<lambda>k. \<not> supported k)
      (map fst [(''users'', VNil), (''disk_setup'', VNil), (''runcmd'', VNil)]))) = ''disk_setup, users''"
    by code_simp
  have "\<not> supported ''users''" by (simp add: supported_def)
  then show ?thesis
    using Render_rejects_unsupported [OF y, of "''users''" exampleOptions] j by simp
qed

end
