(* ===== verification/KG_Inventory.thy ===== *)
theory KG_Inventory
  imports KG_GoStrings
begin

text \<open>
  \<^verbatim>\<open>internal/inventory/order.go\<close>: the order the host pool is read and handed out in.
  \<open>CompareNames\<close> compares two names piece by piece, digits as numbers; \<open>SortHosts\<close> is a
  stable sort by it. The lemmas show that \<open>CompareNames\<close> is a total order whose only ties
  are equal names, by reading it as the lexicographic order of the names' chunks, and that
  numbered names are ordered by their number.
\<close>

subsection \<open>The code\<close>

definition isDigit :: "char \<Rightarrow> bool" where
  "isDigit c \<longleftrightarrow> c \<ge> CHR ''0'' \<and> c \<le> CHR ''9''"

definition isDigits :: "string \<Rightarrow> bool" where
  "isDigits s \<longleftrightarrow> list_all isDigit s \<and> s \<noteq> []"

text \<open>
  \<open>chunk\<close> reads \<^verbatim>\<open>s[0]\<close>, which panics on an empty string; its only caller passes
  non-empty ones, and the equation for the empty string is never used.
\<close>

fun chunk :: "string \<Rightarrow> string \<times> string" where
  "chunk [] = ([], [])"
| "chunk (c # cs) =
     (let digits = isDigit c
      in (takeWhile (\<lambda>x. isDigit x = digits) (c # cs), dropWhile (\<lambda>x. isDigit x = digits) (c # cs)))"

definition compareNumbers :: "string \<Rightarrow> string \<Rightarrow> int" where
  "compareNumbers a b =
     (let na = trimLeft (\<lambda>c. c = CHR ''0'') a; nb = trimLeft (\<lambda>c. c = CHR ''0'') b
      in if length na \<noteq> length nb then (if length na < length nb then -1 else 1)
         else if strCompare na nb \<noteq> 0 then strCompare na nb
         else strCompare a b)"

lemma chunk_shrinks: "s \<noteq> [] \<Longrightarrow> length (snd (chunk s)) < length s"
  by (cases s) (auto simp: Let_def less_Suc_eq_le intro: length_dropWhile_le)

text \<open>The loop of \<^verbatim>\<open>CompareNames\<close>; both names get shorter in every round.\<close>

function CompareNames :: "string \<Rightarrow> string \<Rightarrow> int" where
  "CompareNames a b =
     (if a \<noteq> [] \<and> b \<noteq> [] then
        let ahead = fst (chunk a); arest = snd (chunk a);
            bhead = fst (chunk b); brest = snd (chunk b);
            c = (if isDigits ahead \<and> isDigits bhead then compareNumbers ahead bhead
                 else strCompare ahead bhead)
        in if c \<noteq> 0 then c else CompareNames arest brest
      else if a = [] \<and> b = [] then 0
      else if a = [] then -1
      else 1)"
  by pat_completeness auto
termination
  by (relation "measure (\<lambda>(a, b). length a)") (auto intro: chunk_shrinks)

declare CompareNames.simps [simp del]

text \<open>\<open>SortHosts\<close> is generic in what carries the name; the pool instantiates it with hosts.\<close>

definition SortHosts :: "('h \<Rightarrow> string) \<Rightarrow> 'h list \<Rightarrow> 'h list" where
  "SortHosts name hosts = sliceStable (\<lambda>x y. CompareNames (name x) (name y) < 0) hosts"

subsection \<open>Chunks\<close>

text \<open>The chunks of a name, and the comparison of two of them.\<close>

function chunks :: "string \<Rightarrow> string list" where
  "chunks s = (if s = [] then [] else fst (chunk s) # chunks (snd (chunk s)))"
  by pat_completeness auto
termination
  by (relation "measure length") (auto intro: chunk_shrinks)

declare chunks.simps [simp del]

definition chunk_cmp :: "string \<Rightarrow> string \<Rightarrow> int" where
  "chunk_cmp a b = (if isDigits a \<and> isDigits b then compareNumbers a b else strCompare a b)"

lemma isDigit_asciiDigit: "isDigit = asciiDigit"
  by (auto simp: isDigit_def asciiDigit_def)

lemma chunk_append: "fst (chunk s) @ snd (chunk s) = s"
  by (cases s) (simp_all add: Let_def)

lemma concat_chunks [simp]: "concat (chunks s) = s"
proof (induction s rule: chunks.induct)
  case (1 s)
  then show ?case by (subst chunks.simps) (simp add: chunk_append)
qed

lemma chunks_inj: "chunks a = chunks b \<longleftrightarrow> a = b"
  by (metis concat_chunks)

lemma CompareNames_chunks: "CompareNames a b = lex_cmp chunk_cmp (chunks a) (chunks b)"
proof (induction a b rule: CompareNames.induct)
  case (1 a b)
  show ?case
  proof (cases "a \<noteq> [] \<and> b \<noteq> []")
    case True
    then have a: "chunks a = fst (chunk a) # chunks (snd (chunk a))"
      and b: "chunks b = fst (chunk b) # chunks (snd (chunk b))"
      by (simp_all add: chunks.simps [of a] chunks.simps [of b])
    have "CompareNames a b =
      (let c = chunk_cmp (fst (chunk a)) (fst (chunk b))
       in if c \<noteq> 0 then c else CompareNames (snd (chunk a)) (snd (chunk b)))"
      using True by (subst CompareNames.simps) (simp add: Let_def chunk_cmp_def)
    also have "\<dots> = lex_cmp chunk_cmp (chunks a) (chunks b)"
      using 1 True
      by (simp add: a b Let_def chunk_cmp_def [of "fst (chunk a)" "fst (chunk b)"])
    finally show ?thesis .
  next
    case False
    then show ?thesis
      by (cases "a = []"; cases "b = []")
         (simp_all add: CompareNames.simps [of a b] CompareNames.simps [of "[]" "[]"]
            CompareNames.simps [of "[]" b] CompareNames.simps [of a "[]"]
            chunks.simps [of a] chunks.simps [of b] chunks.simps [of "[]"])
  qed
qed

subsection \<open>Comparing runs of digits\<close>

text \<open>
  Without their leading zeros, digit strings compare by length and then as text exactly as
  the numbers they write do.
\<close>

abbreviation noZeros :: "string \<Rightarrow> string" where
  "noZeros \<equiv> trimLeft (\<lambda>c. c = CHR ''0'')"

lemma decVal_Cons: "decVal (c # s) = digitVal c * 10 ^ length s + decVal s"
proof (induction s rule: rev_induct)
  case Nil
  show ?case by (simp add: decVal_def)
next
  case (snoc x s)
  have "decVal (c # s @ [x]) = 10 * decVal (c # s) + digitVal x"
    using decVal_snoc [of "c # s" x] by simp
  then show ?case by (simp add: snoc algebra_simps)
qed

lemma decVal_bound: "list_all isDigit s \<Longrightarrow> decVal s < 10 ^ length s"
proof (induction s)
  case (Cons c s)
  then have "digitVal c \<le> 9" using digitVal_less [of c] by (simp add: isDigit_asciiDigit)
  then have "digitVal c * 10 ^ length s \<le> 9 * 10 ^ length s" by (rule mult_right_mono) simp
  moreover have "decVal s < 10 ^ length s" using Cons by simp
  ultimately have "digitVal c * 10 ^ length s + decVal s < 10 * 10 ^ length s" by linarith
  then show ?case by (simp add: decVal_Cons)
qed simp

lemma decVal_lower: "list_all isDigit (c # s) \<Longrightarrow> c \<noteq> CHR ''0'' \<Longrightarrow> 10 ^ length s \<le> decVal (c # s)"
proof -
  assume d: "list_all isDigit (c # s)" and nz: "c \<noteq> CHR ''0''"
  have "digitVal c \<noteq> digitVal (CHR ''0'')"
    using d nz digitVal_inj [of c "CHR ''0''"] by (auto simp: isDigit_asciiDigit asciiDigit_def)
  then have "1 \<le> digitVal c" by (simp add: digitVal_def)
  then have "1 * 10 ^ length s \<le> digitVal c * 10 ^ length s" by (rule mult_right_mono) simp
  then show ?thesis unfolding decVal_Cons by linarith
qed

lemma decVal_noZeros [simp]: "decVal (noZeros s) = decVal s"
  by (induction s) (auto simp: trimLeft_def decVal_Cons digitVal_def)

lemma noZeros_digits: "list_all isDigit s \<Longrightarrow> list_all isDigit (noZeros s)"
  by (auto simp: trimLeft_def list_all_iff dest: set_dropWhileD)

lemma noZeros_head: "noZeros s \<noteq> [] \<Longrightarrow> hd (noZeros s) \<noteq> CHR ''0''"
  using hd_dropWhile [of "\<lambda>c. c = CHR ''0''" s] by (simp add: trimLeft_def)

lemma decVal_length_less:
  assumes "list_all isDigit a" "list_all isDigit b" "b \<noteq> []" "hd b \<noteq> CHR ''0''"
    and "length a < length b"
  shows "decVal a < decVal b"
proof -
  obtain c cs where b: "b = c # cs" using assms(3) by (cases b) auto
  have "decVal a < 10 ^ length a" by (rule decVal_bound) (rule assms(1))
  also have "\<dots> \<le> 10 ^ length cs" using assms(5) b by (simp add: power_increasing)
  also have "\<dots> \<le> decVal b" using decVal_lower [of c cs] assms(2,4) b by simp
  finally show ?thesis .
qed

lemma decVal_less_same_length:
  "list_all isDigit a \<Longrightarrow> list_all isDigit b \<Longrightarrow> length a = length b \<Longrightarrow> decVal a < decVal b \<longleftrightarrow> a < b"
proof (induction a arbitrary: b)
  case Nil
  then show ?case by simp
next
  case (Cons c a)
  then obtain d b' where b: "b = d # b'" by (cases b) auto
  have bounds: "decVal a < 10 ^ length a" "decVal b' < 10 ^ length a"
    using Cons.prems b decVal_bound [of a] decVal_bound [of b'] by auto
  have IH: "decVal a < decVal b' \<longleftrightarrow> a < b'" using Cons b by auto
  have dg: "asciiDigit c" "asciiDigit d" using Cons.prems b by (auto simp: isDigit_asciiDigit)
  have len: "length b' = length a" using Cons.prems b by simp
  consider "digitVal c < digitVal d" | "c = d" | "digitVal d < digitVal c"
    using dg digitVal_inj by fastforce
  then show ?case
  proof cases
    case 1
    then have "c < d" using dg digitVal_mono by blast
    moreover have "(digitVal c + 1) * 10 ^ length a \<le> digitVal d * 10 ^ length a"
      using 1 by (intro mult_right_mono) simp_all
    ultimately show ?thesis using bounds by (simp add: b decVal_Cons len)
  next
    case 2
    then show ?thesis using IH by (simp add: b decVal_Cons len)
  next
    case 3
    then have "d < c" using dg digitVal_mono by blast
    moreover have "(digitVal d + 1) * 10 ^ length a \<le> digitVal c * 10 ^ length a"
      using 3 by (intro mult_right_mono) simp_all
    ultimately show ?thesis using bounds by (auto simp: b decVal_Cons len)
  qed
qed

text \<open>So comparing without converting agrees with converting, and ties are broken as text.\<close>

lemma compareNumbers_spec:
  assumes "list_all isDigit a" and "list_all isDigit b"
  shows "compareNumbers a b =
    (if decVal a < decVal b then -1 else if decVal b < decVal a then 1 else strCompare a b)"
proof -
  let ?a = "noZeros a" and ?b = "noZeros b"
  have d: "list_all isDigit ?a" "list_all isDigit ?b"
    using assms by (auto intro: noZeros_digits)
  show ?thesis
  proof (cases "length ?a = length ?b")
    case True
    have "decVal a < decVal b \<longleftrightarrow> ?a < ?b" "decVal b < decVal a \<longleftrightarrow> ?b < ?a"
      using decVal_less_same_length [OF d True] decVal_less_same_length [OF d(2,1)] True by simp_all
    then show ?thesis using True by (auto simp: compareNumbers_def Let_def strCompare_def)
  next
    case False
    then consider "length ?a < length ?b" | "length ?b < length ?a" by linarith
    then show ?thesis
    proof cases
      case 1
      then have "decVal ?a < decVal ?b"
        using decVal_length_less [OF d, OF _ noZeros_head] by (cases "?b = []") auto
      then show ?thesis using 1 by (simp add: compareNumbers_def Let_def)
    next
      case 2
      then have "decVal ?b < decVal ?a"
        using decVal_length_less [OF d(2,1), OF _ noZeros_head] by (cases "?a = []") auto
      then show ?thesis using 2 by (simp add: compareNumbers_def Let_def)
    qed
  qed
qed

subsection \<open>Comparing chunks\<close>

text \<open>
  A chunk is a non-empty run of digits or a non-empty run of anything else. On those,
  \<open>chunk_cmp\<close> is a total order: a run of other characters starts with a byte below or above
  every digit, so it lies on one side of all digit runs.
\<close>

definition is_chunk :: "string \<Rightarrow> bool" where
  "is_chunk s \<longleftrightarrow> s \<noteq> [] \<and> (list_all isDigit s \<or> list_all (\<lambda>c. \<not> isDigit c) s)"

lemma fst_chunk_is_chunk: "s \<noteq> [] \<Longrightarrow> is_chunk (fst (chunk s))"
  by (cases s) (auto simp: Let_def is_chunk_def list_all_iff dest: set_takeWhileD)

lemma chunks_are_chunks: "\<forall>c\<in>set (chunks s). is_chunk c"
proof (induction s rule: chunks.induct)
  case (1 s)
  then show ?case
    by (cases "s = []") (auto simp: chunks.simps [of s] chunks.simps [of "[]"] fst_chunk_is_chunk)
qed

lemma chunk_cmp_digits:
  assumes "isDigits a" "isDigits b"
  shows "chunk_cmp a b < 0 \<longleftrightarrow> decVal a < decVal b \<or> (decVal a = decVal b \<and> a < b)"
  using assms compareNumbers_spec [of a b]
  by (auto simp: chunk_cmp_def isDigits_def strCompare_def)

lemma chunk_cmp_text:
  "\<not> (isDigits a \<and> isDigits b) \<Longrightarrow> chunk_cmp a b < 0 \<longleftrightarrow> a < b"
  by (auto simp: chunk_cmp_def strCompare_def)

lemma chunk_not_digits:
  "is_chunk s \<Longrightarrow> \<not> isDigits s \<Longrightarrow> s \<noteq> [] \<and> (hd s < CHR ''0'' \<or> CHR ''9'' < hd s)"
  by (cases s) (auto simp: is_chunk_def isDigits_def isDigit_def)

lemma digits_head: "isDigits s \<Longrightarrow> s \<noteq> [] \<and> CHR ''0'' \<le> hd s \<and> hd s \<le> CHR ''9''"
  by (cases s) (auto simp: isDigits_def isDigit_def)

lemma text_side:
  assumes "is_chunk t" "\<not> isDigits t" "isDigits d"
  shows "(t < d \<longleftrightarrow> hd t < CHR ''0'') \<and> (d < t \<longleftrightarrow> CHR ''9'' < hd t)"
proof -
  obtain x xs where t: "t = x # xs" using assms(1) by (cases t) (auto simp: is_chunk_def)
  obtain y ys where d: "d = y # ys" using assms(3) by (cases d) (auto simp: isDigits_def)
  have x: "x < CHR ''0'' \<or> CHR ''9'' < x"
    using chunk_not_digits [OF assms(1,2)] by (simp add: t)
  have y: "CHR ''0'' \<le> y" "y \<le> CHR ''9''"
    using digits_head [OF assms(3)] by (simp_all add: d)
  show ?thesis using x y by (auto simp: t d)
qed

lemma chunk_cmp_zero: "chunk_cmp a b = 0 \<longleftrightarrow> a = b"
  using compareNumbers_spec [of a b]
  by (auto simp: chunk_cmp_def isDigits_def strCompare_def split: if_splits)

lemma chunk_cmp_flip: "chunk_cmp b a < 0 \<longleftrightarrow> 0 < chunk_cmp a b"
  using compareNumbers_spec [of a b] compareNumbers_spec [of b a]
  by (auto simp: chunk_cmp_def isDigits_def strCompare_def split: if_splits)

lemma chunk_cmp_trans:
  assumes c: "is_chunk a" "is_chunk b" "is_chunk c"
    and ab: "chunk_cmp a b < 0" and bc: "chunk_cmp b c < 0"
  shows "chunk_cmp a c < 0"
proof -
  note side = text_side
  show ?thesis
  proof (cases "isDigits a"; cases "isDigits b"; cases "isDigits c")
    assume "isDigits a" "isDigits b" "isDigits c"
    then show ?thesis using ab bc by (auto simp: chunk_cmp_digits)
  next
    assume d: "isDigits a" "isDigits b" "\<not> isDigits c"
    then show ?thesis
      using bc side [OF c(3) d(3) d(1)] side [OF c(3) d(3) d(2)] by (simp add: chunk_cmp_text)
  next
    assume d: "\<not> isDigits a" "isDigits b" "isDigits c"
    then show ?thesis
      using ab side [OF c(1) d(1) d(2)] side [OF c(1) d(1) d(3)] by (simp add: chunk_cmp_text)
  next
    assume d: "isDigits a" "\<not> isDigits b" "isDigits c"
    have "CHR ''9'' < hd b" "hd b < CHR ''0''"
      using ab bc side [OF c(2) d(2) d(1)] side [OF c(2) d(2) d(3)] d by (simp_all add: chunk_cmp_text)
    then show ?thesis by (auto simp: less_char_def)
  next
    assume "isDigits a" "\<not> isDigits b" "\<not> isDigits c"
    then show ?thesis using ab bc by (simp add: chunk_cmp_text)
  next
    assume "\<not> isDigits a" "isDigits b" "\<not> isDigits c"
    then show ?thesis using ab bc by (simp add: chunk_cmp_text)
  next
    assume "\<not> isDigits a" "\<not> isDigits b" "isDigits c"
    then show ?thesis using ab bc by (simp add: chunk_cmp_text)
  next
    assume "\<not> isDigits a" "\<not> isDigits b" "\<not> isDigits c"
    then show ?thesis using ab bc by (simp add: chunk_cmp_text)
  qed
qed

subsection \<open>The order of names\<close>

text \<open>
  \<open>chunk_cmp\<close> restricted to chunks, extended to all strings by plain text where one of the
  two is not a chunk, so that the generic lexicographic facts apply to it.
\<close>

definition chunk_order :: "string \<Rightarrow> string \<Rightarrow> int" where
  "chunk_order a b =
     (if is_chunk a \<and> is_chunk b then chunk_cmp a b
      else if is_chunk a then -1 else if is_chunk b then 1 else strCompare a b)"

interpretation chunk: three_way chunk_order
proof
  show "chunk_order x y = 0 \<longleftrightarrow> x = y" for x y
    by (auto simp: chunk_order_def chunk_cmp_zero strCompare_def)
  show "chunk_order y x < 0 \<longleftrightarrow> 0 < chunk_order x y" for x y
    by (auto simp: chunk_order_def chunk_cmp_flip strCompare_def)
  show "chunk_order x y < 0 \<Longrightarrow> chunk_order y z < 0 \<Longrightarrow> chunk_order x z < 0" for x y z
    by (auto simp: chunk_order_def strCompare_def split: if_splits intro: chunk_cmp_trans)
qed

lemma lex_cmp_cong_set:
  "(\<And>x y. x \<in> set xs \<Longrightarrow> y \<in> set ys \<Longrightarrow> f x y = g x y) \<Longrightarrow> lex_cmp f xs ys = lex_cmp g xs ys"
proof (induction xs arbitrary: ys)
  case Nil
  then show ?case by (cases ys) simp_all
next
  case (Cons x xs)
  then show ?case by (cases ys) auto
qed

lemma CompareNames_order: "CompareNames a b = lex_cmp chunk_order (chunks a) (chunks b)"
  unfolding CompareNames_chunks
  by (rule lex_cmp_cong_set) (use chunks_are_chunks in \<open>auto simp: chunk_order_def\<close>)

interpretation names: three_way CompareNames
proof
  have lex: "three_way (lex_cmp chunk_order)" by (rule chunk.lex_three_way)
  show "CompareNames x y = 0 \<longleftrightarrow> x = y" for x y
    by (simp add: CompareNames_order three_way.cmp_zero [OF lex] chunks_inj)
  show "CompareNames y x < 0 \<longleftrightarrow> 0 < CompareNames x y" for x y
    by (simp add: CompareNames_order three_way.cmp_flip [OF lex])
  show "CompareNames x y < 0 \<Longrightarrow> CompareNames y z < 0 \<Longrightarrow> CompareNames x z < 0" for x y z
    unfolding CompareNames_order by (rule three_way.cmp_trans [OF lex])
qed

interpretation pool: strict_weak "\<lambda>x y. CompareNames (name x) (name y) < 0" for name
  by (rule names.strict_weak_on)

subsection \<open>Numbered names\<close>

lemma chunk_append_rest:
  assumes "s \<noteq> []" and "isDigit (last s) \<noteq> isDigit (hd t) \<or> t = []"
  shows "chunk (s @ t) = (fst (chunk s), snd (chunk s) @ t)"
proof -
  obtain c cs where s: "s = c # cs" using assms(1) by (cases s) auto
  let ?P = "\<lambda>x. isDigit x = isDigit c"
  show ?thesis
  proof (cases "list_all ?P s")
    case True
    then have all: "\<forall>x\<in>set s. ?P x" by (simp add: list_all_iff)
    then have "isDigit (last s) = isDigit c" using assms(1) by simp
    then have t: "t = [] \<or> \<not> ?P (hd t)" using assms(2) by auto
    then have "takeWhile ?P t = []" "dropWhile ?P t = t" by (cases t; simp)+
    moreover have "takeWhile ?P (s @ t) = s @ takeWhile ?P t" "dropWhile ?P (s @ t) = dropWhile ?P t"
      "takeWhile ?P s = s" "dropWhile ?P s = []"
      using all by (auto simp: takeWhile_append2 dropWhile_append2)
    moreover have "chunk (s @ t) = (takeWhile ?P (s @ t), dropWhile ?P (s @ t))"
      "chunk s = (takeWhile ?P s, dropWhile ?P s)"
      by (simp_all add: s Let_def)
    ultimately show ?thesis by (simp only: fst_conv snd_conv append_Nil append_Nil2)
  next
    case False
    then obtain x where x: "x \<in> set cs" "\<not> ?P x" by (auto simp: list_all_iff s)
    show ?thesis
      using takeWhile_append1 [of x cs ?P t] dropWhile_append1 [of x cs ?P t] x
      by (simp add: s Let_def)
  qed
qed

lemma chunks_append:
  "isDigit (last s) \<noteq> isDigit (hd t) \<or> s = [] \<or> t = [] \<Longrightarrow> chunks (s @ t) = chunks s @ chunks t"
proof (induction s rule: chunks.induct)
  case (1 s)
  show ?case
  proof (cases "s = []")
    case True
    then show ?thesis by (simp add: chunks.simps [of "[]"])
  next
    case False
    let ?r = "snd (chunk s)"
    have c: "chunk (s @ t) = (fst (chunk s), ?r @ t)"
      using chunk_append_rest [of s t] False "1.prems" by auto
    have "?r = [] \<or> last ?r = last s"
      using chunk_append [of s] by (metis last_append)
    then have "chunks (?r @ t) = chunks ?r @ chunks t"
      using "1.IH" "1.prems" False by auto
    then show ?thesis
      using False c by (simp add: chunks.simps [of s] chunks.simps [of "s @ t"])
  qed
qed

lemma chunks_single: "is_chunk d \<Longrightarrow> chunks d = [d]"
proof -
  assume d: "is_chunk d"
  then obtain c cs where "d = c # cs" by (cases d) (auto simp: is_chunk_def)
  with d have "chunk d = (d, [])" by (auto simp: is_chunk_def Let_def list_all_iff)
  moreover have "d \<noteq> []" using d by (simp add: is_chunk_def)
  ultimately show ?thesis by (simp add: chunks.simps [of d] chunks.simps [of "[]"])
qed

lemma lex_cmp_prefix: "(\<And>x. f x x = 0) \<Longrightarrow> lex_cmp f (xs @ ys) (xs @ zs) = lex_cmp f ys zs"
  by (induction xs) simp_all

lemma isDigits_showNat: "isDigits (showNat n)"
  using showNat_digits [of n] by (simp add: isDigits_def isDigit_asciiDigit)

lemma chunks_numbered:
  assumes "p = [] \<or> \<not> isDigit (last p)" and "q = [] \<or> \<not> isDigit (hd q)"
  shows "chunks (p @ showNat n @ q) = chunks p @ showNat n # chunks q"
proof -
  have d: "isDigits (showNat n)" by (rule isDigits_showNat)
  then have ends: "isDigit (hd (showNat n))" "isDigit (last (showNat n))"
    by (auto simp: isDigits_def list_all_iff)
  have "chunks (showNat n @ q) = chunks (showNat n) @ chunks q"
    by (rule chunks_append) (use assms(2) ends in auto)
  also have "chunks (showNat n) = [showNat n]"
    by (rule chunks_single) (use d in \<open>auto simp: is_chunk_def isDigits_def\<close>)
  finally have "chunks (showNat n @ q) = showNat n # chunks q" by simp
  moreover have "chunks (p @ showNat n @ q) = chunks p @ chunks (showNat n @ q)"
    by (rule chunks_append) (use assms(1) ends in auto)
  ultimately show ?thesis by simp
qed

subsection \<open>Properties\<close>

text \<open>
  C30. \<open>CompareNames\<close> is a total order on host names: it reports a tie for equal names only,
  swapping its arguments swaps the answer, and it is transitive. Any two reads of the pool
  are therefore sorted the same way.
\<close>

theorem CompareNames_total_order:
  "(CompareNames a b = 0 \<longleftrightarrow> a = b) \<and>
   (CompareNames b a < 0 \<longleftrightarrow> 0 < CompareNames a b) \<and>
   (CompareNames a b < 0 \<and> CompareNames b c < 0 \<longrightarrow> CompareNames a c < 0)"
  using names.cmp_zero names.cmp_flip names.cmp_trans by blast

theorem CompareNames_total_order_witness:
  "CompareNames ''host-007'' ''host-8'' < 0 \<and> CompareNames ''host-8'' ''host-8a'' < 0 \<and>
   CompareNames ''host-007'' ''host-8a'' < 0"
proof -
  have "CompareNames ''host-007'' ''host-8'' < 0" "CompareNames ''host-8'' ''host-8a'' < 0"
    by code_simp+
  then show ?thesis
    using CompareNames_total_order [of "''host-007''" "''host-8''" "''host-8a''"] by blast
qed

text \<open>
  The digits of a name count as a number: two names that differ in one number, whatever
  stands before it and after it, are ordered by that number, so \<^verbatim>\<open>kg-worker-2\<close> comes before
  \<^verbatim>\<open>kg-worker-10\<close>.
\<close>

theorem CompareNames_numbered:
  assumes "p = [] \<or> \<not> isDigit (last p)" and "q = [] \<or> \<not> isDigit (hd q)"
    and "r = [] \<or> \<not> isDigit (hd r)" and "m \<noteq> n"
  shows "CompareNames (p @ showNat m @ q) (p @ showNat n @ r) < 0 \<longleftrightarrow> m < n"
proof -
  have "CompareNames (p @ showNat m @ q) (p @ showNat n @ r) =
      lex_cmp chunk_cmp (showNat m # chunks q) (showNat n # chunks r)"
    unfolding CompareNames_chunks chunks_numbered [OF assms(1,2)] chunks_numbered [OF assms(1,3)]
    by (rule lex_cmp_prefix) (simp add: chunk_cmp_zero)
  also have "\<dots> = chunk_cmp (showNat m) (showNat n)"
    using assms(4) by (simp add: chunk_cmp_zero)
  finally show ?thesis
    using chunk_cmp_digits [OF isDigits_showNat isDigits_showNat, of m n] assms(4) by simp
qed

theorem CompareNames_numbered_witness:
  "CompareNames (''kg-worker-'' @ showNat 2 @ []) (''kg-worker-'' @ showNat 10 @ ''b'') < 0"
proof -
  have "CompareNames (''kg-worker-'' @ showNat 2 @ []) (''kg-worker-'' @ showNat 10 @ ''b'') < 0
      \<longleftrightarrow> (2::nat) < 10"
    by (rule CompareNames_numbered) (simp_all add: isDigit_def less_eq_char_def)
  then show ?thesis by simp
qed

text \<open>
  \<open>SortHosts\<close> hands the pool out in one order: the result is a permutation of the list,
  no host comes before one that \<open>CompareNames\<close> puts earlier, and, since names are unique, it
  is the same whatever order the cache listed the hosts in.
\<close>

theorem SortHosts_deterministic:
  assumes "mset xs = mset ys" and "distinct (map name xs)"
  shows "SortHosts name xs = SortHosts name ys \<and> mset (SortHosts name xs) = mset xs \<and>
    sorted_wrt (\<lambda>a b. CompareNames (name a) (name b) \<le> 0) (SortHosts name xs)"
proof -
  have flip: "\<not> CompareNames b a < 0 \<longleftrightarrow> CompareNames a b \<le> 0" for a b
    using names.cmp_flip [of b a] by linarith
  have inj: "inj_on name (set xs)" and d: "distinct xs"
    using assms(2) by (simp_all add: distinct_map)
  have "SortHosts name xs = SortHosts name ys"
    unfolding SortHosts_def
    by (rule pool.sliceStable_input_order [OF assms(1) d])
       (use inj names.cmp_total in \<open>auto simp: inj_on_def\<close>)
  moreover have "sorted_wrt (\<lambda>a b. CompareNames (name a) (name b) \<le> 0) (SortHosts name xs)"
    using pool.sorted_sliceStable [of name xs] by (simp add: SortHosts_def flip)
  moreover have "mset (SortHosts name xs) = mset xs" by (simp add: SortHosts_def)
  ultimately show ?thesis by blast
qed

theorem SortHosts_deterministic_witness:
  "SortHosts (\<lambda>n. n) [''kg-worker-10'', ''kg-cp-2'', ''kg-worker-2'', ''kg-cp-1''] =
     [''kg-cp-1'', ''kg-cp-2'', ''kg-worker-2'', ''kg-worker-10'']"
proof -
  have "SortHosts (\<lambda>n. n) [''kg-worker-10'', ''kg-cp-2'', ''kg-worker-2'', ''kg-cp-1''] =
      SortHosts (\<lambda>n. n) [''kg-cp-1'', ''kg-cp-2'', ''kg-worker-2'', ''kg-worker-10'']"
    by (rule SortHosts_deterministic [THEN conjunct1]) (simp_all add: add_mset_commute)
  also have "\<dots> = [''kg-cp-1'', ''kg-cp-2'', ''kg-worker-2'', ''kg-worker-10'']"
    by code_simp
  finally show ?thesis .
qed

end
