(* ===== verification/KG_HostMachineController.thy ===== *)
theory KG_HostMachineController
  imports KG_HostController KG_CloudInit KG_Inventory
begin

text \<open>
  \<^verbatim>\<open>internal/controller/hostmachine_controller.go\<close>: the reconciler that turns a Cluster API
  Machine into a bootstrapped host. It claims a host from the pool, renders the bootstrap
  data, drives the detached run and, when the machine goes, resets and releases the host.
  The handlers take the HostMachine they may change and return it beside their result.
\<close>

subsection \<open>Constants, identity, selection\<close>

definition requeueWaitingForDependency :: int where "requeueWaitingForDependency = 20"
definition requeueBootstrapRunning :: int where "requeueBootstrapRunning = 20"
definition requeueBootstrapFailed :: int where "requeueBootstrapFailed = 120"
definition requeueAfterStart :: int where "requeueAfterStart = 30"

definition ProviderIDPrefix :: string where "ProviderIDPrefix = ''kgenesis://''"

definition ProviderID :: "host \<Rightarrow> string" where
  "ProviderID h = ProviderIDPrefix @ mNamespace (hMeta h) @ ''/'' @ mName (hMeta h)"

definition selectorFor :: "k8sLib \<Rightarrow> hostSelector option \<Rightarrow> (labels \<Rightarrow> bool) result" where
  "selectorFor K sel = (case sel of None \<Rightarrow> Inr (\<lambda>_. True) | Some s \<Rightarrow> labelSelectorAsSelector K s)"

definition addressesFor :: "host \<Rightarrow> (addressType \<times> string) list" where
  "addressesFor h = (MachineInternalIP, hsAddress (hSpec h)) #
     (case stSystemInfo (hStatus h) of
        Some si \<Rightarrow> if siHostname si \<noteq> [] then [(MachineHostName, siHostname si)] else []
      | None \<Rightarrow> [])"

definition machineCondition ::
  "k8sLib \<Rightarrow> conditionType \<Rightarrow> conditionStatus \<Rightarrow> reason \<Rightarrow> string \<Rightarrow> hostMachine \<Rightarrow> hostMachine" where
  "machineCondition K t s r m hm = hm\<lparr>hmStatus := (hmStatus hm)\<lparr>hmtConditions :=
     setCondition K (hmtConditions (hmStatus hm)) t s r m (mGeneration (hmMeta hm))\<rparr>\<rparr>"

abbreviation hmNamespace :: "hostMachine \<Rightarrow> string" where "hmNamespace hm \<equiv> mNamespace (hmMeta hm)"
abbreviation hmName :: "hostMachine \<Rightarrow> string" where "hmName hm \<equiv> mName (hmMeta hm)"
abbreviation hmUID :: "hostMachine \<Rightarrow> string" where "hmUID hm \<equiv> mUID (hmMeta hm)"

subsection \<open>Claiming a host\<close>

definition setHostRef :: "string option \<Rightarrow> hostMachine \<Rightarrow> hostMachine" where
  "setHostRef ref hm = hm\<lparr>hmStatus := (hmStatus hm)\<lparr>hmtHostRef := ref\<rparr>\<rparr>"

definition claimRefFor :: "hostMachine \<Rightarrow> objectReference" where
  "claimRefFor hm = \<lparr>orAPIVersion = ''infrastructure.kgenesis.io/v1alpha1'', orKind = ''HostMachine'',
     orNamespace = hmNamespace hm, orName = hmName hm, orUID = hmUID hm\<rparr>"

definition claimed :: "host \<Rightarrow> hostMachine \<Rightarrow> host" where
  "claimed h hm = h\<lparr>hStatus := (hStatus h)\<lparr>stClaimRef := Some (claimRefFor hm), stPhase := HostPhaseClaimed\<rparr>\<rparr>"

definition recordClaim :: "host \<Rightarrow> hostMachine \<Rightarrow> host result prog" where
  "recordClaim h hm = updateHostStatus (claimed h hm)"

definition holdsClaim :: "hostMachine \<Rightarrow> host \<Rightarrow> bool" where
  "holdsClaim hm h = (case stClaimRef (hStatus h) of None \<Rightarrow> False | Some ref \<Rightarrow> orUID ref = hmUID hm)"

definition labelledFor :: "hostMachine \<Rightarrow> host \<Rightarrow> bool" where
  "labelledFor hm h \<longleftrightarrow> hLabel h ClaimedByLabel = hmName hm"

definition claimable :: "(labels \<Rightarrow> bool) \<Rightarrow> host \<Rightarrow> bool" where
  "claimable sel h \<longleftrightarrow>
     \<not> (stClaimRef (hStatus h) \<noteq> None \<or> hsUnhealthy (hSpec h) \<or> mDeletionTimestamp (hMeta h) \<noteq> None) \<and>
     stPhase (hStatus h) = HostPhaseAvailable \<and> sel (mLabels (hMeta h))"

definition labelled :: "cluster \<Rightarrow> hostMachine \<Rightarrow> host \<Rightarrow> host" where
  "labelled cl hm h = h\<lparr>hMeta := (hMeta h)\<lparr>mLabels :=
     AList.update ClusterNameLabel (mName (clMeta cl))
       (AList.update ClaimedByLabel (hmName hm) (mLabels (hMeta h)))\<rparr>\<rparr>"

text \<open>The walk over the free hosts: a lost race goes on with the next one.\<close>

fun claimFree ::
  "(labels \<Rightarrow> bool) \<Rightarrow> cluster \<Rightarrow> hostMachine \<Rightarrow> host list \<Rightarrow> (hostMachine \<times> host option result) prog" where
  "claimFree sel cl hm [] = Ret (hm, Inr None)"
| "claimFree sel cl hm (h # hs) =
     (if \<not> claimable sel h then claimFree sel cl hm hs
      else bind (updateHost (labelled cl hm h)) (\<lambda>r. case r of
          Inl e \<Rightarrow> if ekind e = ErrConflict then claimFree sel cl hm hs else Ret (hm, Inl e)
        | Inr h1 \<Rightarrow>
            bind (recordClaim h1 hm) (\<lambda>r. case r of
              Inl e \<Rightarrow> Ret (hm, Inl e)
            | Inr h2 \<Rightarrow> Ret (setHostRef (Some (hName h2)) hm, Inr (Some h2)))))"

definition claimHost :: "k8sLib \<Rightarrow> cluster \<Rightarrow> hostMachine \<Rightarrow> (hostMachine \<times> host option result) prog" where
  "claimHost K cl hm =
     (case hmtHostRef (hmStatus hm) of
        Some ref \<Rightarrow>
          bind (getHost (hmNamespace hm, ref)) (\<lambda>r. case r of
            Inl e \<Rightarrow> if ekind e = ErrNotFound then Ret (setHostRef None hm, Inr None) else Ret (hm, Inl e)
          | Inr h \<Rightarrow> Ret (hm, Inr (Some h)))
      | None \<Rightarrow>
          (case selectorFor K (hmsHostSelector (hmSpec hm)) of
             Inl e \<Rightarrow> Ret (hm, Inl e)
           | Inr sel \<Rightarrow>
               bind (listHosts (hmNamespace hm)) (\<lambda>r. case r of
                 Inl e \<Rightarrow> Ret (hm, Inl e)
               | Inr items \<Rightarrow>
                   let hosts = SortHosts hName items
                   in case find (holdsClaim hm) hosts of
                        Some h \<Rightarrow> Ret (setHostRef (Some (hName h)) hm, Inr (Some h))
                      | None \<Rightarrow>
                          (case find (labelledFor hm) hosts of
                             Some h \<Rightarrow>
                               bind (recordClaim h hm) (\<lambda>r. case r of
                                 Inl e \<Rightarrow> Ret (hm, Inl e)
                               | Inr h' \<Rightarrow> Ret (setHostRef (Some (hName h')) hm, Inr (Some h')))
                           | None \<Rightarrow> claimFree sel cl hm hosts))))"

definition markHostProvisioned :: "host \<Rightarrow> unit result prog" where
  "markHostProvisioned h =
     (if stPhase (hStatus h) = HostPhaseProvisioned then Ret (Inr ())
      else bindE (updateHostStatus (setPhase HostPhaseProvisioned h)) (\<lambda>_. Ret (Inr ())))"

subsection \<open>Bootstrapping\<close>

definition bootstrapData :: "string \<Rightarrow> string \<Rightarrow> string result prog" where
  "bootstrapData ns secretName =
     (let key = (ns, secretName)
      in bind (getSecret key) (\<lambda>r. case r of
           Inl e \<Rightarrow> Ret (Inl (wrapf (''get bootstrap secret '' @ keyString key) e))
         | Inr s \<Rightarrow>
             (case map_of (scData s) ''value'' of
                None \<Rightarrow> Ret (Inl (errorf (''bootstrap secret '' @ keyString key @ '' has no '' @ goQuote ''value'' @ '' key'')))
              | Some data \<Rightarrow>
                  let format = mapGet (scData s) ''format''
                  in if format \<noteq> [] \<and> format \<noteq> ''cloud-config''
                     then Ret (Inl (errorf (''bootstrap secret '' @ keyString key @ '' has format ''
                                            @ goQuote format @ ''; kg renders cloud-config'')))
                     else Ret (Inr data))))"

definition provisionedFalse :: "k8sLib \<Rightarrow> reason \<Rightarrow> string \<Rightarrow> hostMachine \<Rightarrow> hostMachine" where
  "provisionedFalse K r m hm = machineCondition K HostMachineProvisioned ConditionFalse r m hm"

definition bootstrapFailedMessage :: "state \<Rightarrow> string" where
  "bootstrapFailedMessage st = ''Bootstrap script exited '' @ itoa (ssExitCode st) @ ''. Last lines of '' @ LogPath
     @ '':'' @ [CHR 0x0A] @ ssLogTail st"

definition bootstrapped :: "k8sLib \<Rightarrow> string \<Rightarrow> hostMachine \<Rightarrow> hostMachine" where
  "bootstrapped K checksum hm =
     machineCondition K HostMachineProvisioned ConditionTrue ReasonBootstrapSucceeded ''Host is bootstrapped''
       (hm\<lparr>hmStatus := (hmStatus hm)\<lparr>hmtBootstrapDataChecksum := checksum, hmtProvisioned := Some True\<rparr>\<rparr>)"

text \<open>The switch on the phase, with the connection open.\<close>

definition onPhase ::
  "k8sLib \<Rightarrow> hostMachine \<Rightarrow> host \<Rightarrow> string \<Rightarrow> string \<Rightarrow> sshClient \<Rightarrow> state \<Rightarrow> (hostMachine \<times> ctrlResult) prog" where
  "onPhase K hm h script checksum conn st =
     (case ssPhase st of
        PhaseIdle \<Rightarrow>
          bind (Start conn script checksum) (\<lambda>r. Ret (case r of
            Inl e \<Rightarrow>
              (provisionedFalse K ReasonBootstrapFailed (truncateMsg (emsg e) conditionMessageLimit) hm,
               requeueBootstrapFailed, None)
          | Inr _ \<Rightarrow>
              (provisionedFalse K ReasonWaitingForBootstrapData ''Bootstrap script is running on the host''
                 (hm\<lparr>hmStatus := (hmStatus hm)\<lparr>hmtBootstrapDataChecksum := checksum\<rparr>\<rparr>),
               requeueAfterStart, None)))
      | PhaseRunning \<Rightarrow>
          Ret (provisionedFalse K ReasonWaitingForBootstrapData ''Bootstrap script is running on the host'' hm,
               requeueBootstrapRunning, None)
      | PhaseFailed \<Rightarrow>
          Ret (provisionedFalse K ReasonBootstrapFailed
                 (truncateMsg (bootstrapFailedMessage st) conditionMessageLimit) hm,
               requeueBootstrapFailed, None)
      | PhaseSucceeded \<Rightarrow>
          bind (markHostProvisioned h) (\<lambda>r. Ret (bootstrapped K checksum hm, 0,
            case r of Inl e \<Rightarrow> Some e | Inr _ \<Rightarrow> None)))"

definition bootstrapStep ::
  "k8sLib \<Rightarrow> hostMachine \<Rightarrow> host \<Rightarrow> string \<Rightarrow> string \<Rightarrow> sshClient \<Rightarrow> (hostMachine \<times> ctrlResult) prog" where
  "bootstrapStep K hm h script checksum conn =
     bind (Status conn checksum) (\<lambda>r. case r of
       Inl e \<Rightarrow> Ret (hm, 0, Some e)
     | Inr st \<Rightarrow> onPhase K hm h script checksum conn st)"

definition runBootstrap ::
  "k8sLib \<Rightarrow> sshLib \<Rightarrow> hostMachine \<Rightarrow> host \<Rightarrow> string \<Rightarrow> string \<Rightarrow> (hostMachine \<times> ctrlResult) prog" where
  "runBootstrap K L hm h script checksum =
     bind (connect L h) (\<lambda>r. case r of
       Inl e \<Rightarrow>
         Ret (provisionedFalse K ReasonProbeFailed (truncateMsg (emsg e) conditionMessageLimit) hm,
              if ekind e = ErrHostKeyMismatch then 0 else requeueWaitingForDependency, None)
     | Inr (conn, h) \<Rightarrow>
         bind (bootstrapStep K hm h script checksum conn) (\<lambda>out.
         bind (closeConn (scConn conn)) (\<lambda>_. Ret out)))"

definition noMatchingHostMessage :: string where
  "noMatchingHostMessage = ''No Available host matches the selector; ''
     @ ''add hosts to the inventory, or check `kg inventory list` for unreachable ones''"

text \<open>With a host at hand: the data, the identity, the script, the run.\<close>

definition bootstrapOn ::
  "k8sLib \<Rightarrow> lib \<Rightarrow> sshLib \<Rightarrow> machine \<Rightarrow> string \<Rightarrow> hostMachine \<Rightarrow> host \<Rightarrow> (hostMachine \<times> ctrlResult) prog" where
  "bootstrapOn K Y L mc secretName hm0 h =
     (let hm = machineCondition K HostMachineHostClaimed ConditionTrue ReasonHostClaimed
                 (''Claimed host '' @ hName h @ '' ('' @ hsAddress (hSpec h) @ '')'') hm0
      in bind (bootstrapData (mNamespace (mcMeta mc)) secretName) (\<lambda>r. case r of
           Inl e \<Rightarrow> Ret (hm, 0, Some e)
         | Inr data \<Rightarrow>
             let providerID = ProviderID h;
                 hm = hm\<lparr>hmSpec := (hmSpec hm)\<lparr>hmsProviderID := Some providerID\<rparr>,
                         hmStatus := (hmStatus hm)\<lparr>hmtAddresses := addressesFor h\<rparr>\<rparr>
             in case Render Y data \<lparr>optProviderID = providerID, optHostAddress = hsAddress (hSpec h)\<rparr> of
                  Inl e \<Rightarrow>
                    Ret (provisionedFalse K ReasonBootstrapFailed (truncateMsg (emsg e) conditionMessageLimit) hm, 0, None)
                | Inr script \<Rightarrow> runBootstrap K L hm h script (Checksum script)))"

definition reconcileNormal ::
  "k8sLib \<Rightarrow> lib \<Rightarrow> sshLib \<Rightarrow> cluster \<Rightarrow> machine \<Rightarrow> hostMachine \<Rightarrow> (hostMachine \<times> ctrlResult) prog" where
  "reconcileNormal K Y L cl mc hm =
     (if \<not> ptrTo (clInfraProvisioned cl) then
        Ret (provisionedFalse K ReasonWaitingForCluster ''Waiting for the cluster infrastructure to be provisioned'' hm, 0, None)
      else case mcDataSecretName mc of
        None \<Rightarrow>
          Ret (provisionedFalse K ReasonWaitingForBootstrapData
                 ''Waiting for the bootstrap provider to publish its data secret'' hm,
               requeueWaitingForDependency, None)
      | Some secretName \<Rightarrow>
          bind (claimHost K cl hm) (\<lambda>(hm, r). case r of
            Inl e \<Rightarrow> Ret (hm, 0, Some e)
          | Inr None \<Rightarrow>
              Ret (provisionedFalse K ReasonNoMatchingHost noMatchingHostMessage
                     (machineCondition K HostMachineHostClaimed ConditionFalse ReasonNoMatchingHost noMatchingHostMessage hm),
                   requeueWaitingForDependency, None)
          | Inr (Some h) \<Rightarrow> bootstrapOn K Y L mc secretName hm h))"

subsection \<open>Deleting\<close>

definition unlabelled :: "host \<Rightarrow> host" where
  "unlabelled h = h\<lparr>hMeta := (hMeta h)\<lparr>mLabels :=
     AList.delete ClaimedByLabel (AList.delete ClusterNameLabel (mLabels (hMeta h)))\<rparr>\<rparr>"

definition released :: "k8sLib \<Rightarrow> condition \<Rightarrow> host \<Rightarrow> host" where
  "released K rst h =
     hostCondition K (cdType rst) (cdStatus rst) (cdReason rst) (cdMessage rst)
       (h\<lparr>hStatus := (hStatus h)\<lparr>stClaimRef := None, stPhase := HostPhasePending\<rparr>\<rparr>)"

text \<open>
  \<^verbatim>\<open>releaseHost\<close>: the object, then the status. An update that answers NotFound goes on with
  the host as it is in memory.
\<close>

definition releaseHost :: "k8sLib \<Rightarrow> host \<Rightarrow> condition \<Rightarrow> unit result prog" where
  "releaseHost K h rst =
     (let h0 = unlabelled h;
          status = (\<lambda>h. bind (updateHostStatus (released K rst h)) (\<lambda>r. case r of
             Inl e \<Rightarrow> if ekind e = ErrNotFound then Ret (Inr ()) else Ret (Inl e)
           | Inr _ \<Rightarrow> Ret (Inr ())))
      in bind (updateHost h0) (\<lambda>r. case r of
           Inl e \<Rightarrow> if ekind e = ErrNotFound then status h0 else Ret (Inl e)
         | Inr h1 \<Rightarrow> status h1))"

definition dropMachineFinalizer :: "k8sLib \<Rightarrow> hostMachine \<Rightarrow> hostMachine" where
  "dropMachineFinalizer K hm =
     hm\<lparr>hmMeta := (hmMeta hm)\<lparr>mFinalizers := removeFinalizer K (mFinalizers (hmMeta hm)) MachineFinalizer\<rparr>\<rparr>"

definition resetCondition :: "conditionStatus \<Rightarrow> reason \<Rightarrow> string \<Rightarrow> condition" where
  "resetCondition s r m =
     \<lparr>cdType = HostReset, cdStatus = s, cdReason = r, cdMessage = m, cdObservedGeneration = 0\<rparr>"

text \<open>Reach the host and reset it; what came of it is the condition, and the Host as connect left it.\<close>

definition resetHost :: "sshLib \<Rightarrow> hostMachine \<Rightarrow> host \<Rightarrow> (host \<times> condition) prog" where
  "resetHost L hm h =
     bind (connect L h) (\<lambda>r. case r of
       Inl e \<Rightarrow>
         Ret (h, resetCondition ConditionFalse ReasonHostUnreachable (truncateMsg (emsg e) conditionMessageLimit))
     | Inr (conn, h) \<Rightarrow>
         bind (Reset conn) (\<lambda>r.
         bind (closeConn (scConn conn)) (\<lambda>_. case r of
           Inl e \<Rightarrow>
             Ret (h, resetCondition ConditionFalse ReasonResetIncomplete (truncateMsg (emsg e) conditionMessageLimit))
         | Inr _ \<Rightarrow>
             Ret (h, resetCondition ConditionTrue ReasonResetSucceeded
                       (''kubeadm state removed for '' @ hmNamespace hm @ ''/'' @ hmName hm)))))"

definition reconcileDelete :: "k8sLib \<Rightarrow> sshLib \<Rightarrow> hostMachine \<Rightarrow> (hostMachine \<times> ctrlResult) prog" where
  "reconcileDelete K L hm =
     (case hmtHostRef (hmStatus hm) of
        None \<Rightarrow> Ret (dropMachineFinalizer K hm, 0, None)
      | Some ref \<Rightarrow>
          bind (getHost (hmNamespace hm, ref)) (\<lambda>r. case r of
            Inl e \<Rightarrow>
              if ekind e = ErrNotFound then Ret (dropMachineFinalizer K (setHostRef None hm), 0, None)
              else Ret (hm, 0, Some e)
          | Inr h \<Rightarrow>
              bind (resetHost L hm h) (\<lambda>(h, rst).
              bind (releaseHost K h rst) (\<lambda>r. case r of
                Inl e \<Rightarrow> Ret (hm, 0, Some e)
              | Inr _ \<Rightarrow> Ret (dropMachineFinalizer K (setHostRef None hm), 0, None)))))"

subsection \<open>Reconcile\<close>

definition addMachineFinalizer :: "k8sLib \<Rightarrow> hostMachine \<Rightarrow> hostMachine" where
  "addMachineFinalizer K hm =
     (if containsFinalizer K (mFinalizers (hmMeta hm)) MachineFinalizer then hm
      else hm\<lparr>hmMeta := (hmMeta hm)\<lparr>mFinalizers := addFinalizer K (mFinalizers (hmMeta hm)) MachineFinalizer\<rparr>\<rparr>)"

definition reconcileMachine ::
  "k8sLib \<Rightarrow> lib \<Rightarrow> sshLib \<Rightarrow> cluster \<Rightarrow> machine \<Rightarrow> hostMachine \<Rightarrow> (hostMachine \<times> ctrlResult) prog" where
  "reconcileMachine K Y L cl mc hm =
     (if mDeletionTimestamp (hmMeta hm) \<noteq> None then reconcileDelete K L hm
      else reconcileNormal K Y L cl mc (addMachineFinalizer K hm))"

definition ReconcileHostMachine :: "k8sLib \<Rightarrow> lib \<Rightarrow> sshLib \<Rightarrow> objectKey \<Rightarrow> ctrlResult prog" where
  "ReconcileHostMachine K Y L key =
     bind (getHostMachine key) (\<lambda>r. case r of
       Inl e \<Rightarrow> Ret (0, ignoreNotFound e)
     | Inr hm \<Rightarrow>
         bind (getOwnerMachine (hmMeta hm)) (\<lambda>r. case r of
           Inl e \<Rightarrow> Ret (0, Some e)
         | Inr None \<Rightarrow> Ret (0, None)
         | Inr (Some mc) \<Rightarrow>
             bind (getClusterFromMetadata (mcMeta mc)) (\<lambda>r. case r of
               Inl e \<Rightarrow> Ret (0, Some e)
             | Inr None \<Rightarrow> Ret (0, None)
             | Inr (Some cl) \<Rightarrow>
                 if isPausedMachine K cl hm then Ret (0, None)
                 else bind newPatchHelper (\<lambda>p. case p of
                   Inl e \<Rightarrow> Ret (0, Some e)
                 | Inr _ \<Rightarrow>
                     bind (reconcileMachine K Y L cl mc hm) (\<lambda>(hm', res, err).
                     bind (patchHostMachine hm hm') (\<lambda>p. case p of
                       Inl e \<Rightarrow> Ret (res, case err of None \<Rightarrow> Some e | Some e' \<Rightarrow> Some e')
                     | Inr _ \<Rightarrow> Ret (res, err)))))))"

subsection \<open>Watches\<close>

definition machineToHostMachine :: "machine \<Rightarrow> objectKey list" where
  "machineToHostMachine mc =
     (if mcInfraKind mc \<noteq> ''HostMachine'' then [] else [(mNamespace (mcMeta mc), mcInfraName mc)])"

definition clusterToHostMachines :: "cluster \<Rightarrow> objectKey list prog" where
  "clusterToHostMachines cl =
     bind (listMachines (mNamespace (clMeta cl)) (mName (clMeta cl))) (\<lambda>r. case r of
       Inl _ \<Rightarrow> Ret []
     | Inr machines \<Rightarrow> Ret (concat (map machineToHostMachine machines)))"

subsection \<open>Lemmas: the claim\<close>

lemma setHostRef_keeps [simp]:
  "hmMeta (setHostRef r hm) = hmMeta hm" "hmSpec (setHostRef r hm) = hmSpec hm"
  "hmtHostRef (hmStatus (setHostRef r hm)) = r" "hmtConditions (hmStatus (setHostRef r hm)) = hmtConditions (hmStatus hm)"
  "hmtProvisioned (hmStatus (setHostRef r hm)) = hmtProvisioned (hmStatus hm)"
  by (simp_all add: setHostRef_def)

lemma machineCondition_keeps [simp]:
  "hmMeta (machineCondition K t s r m hm) = hmMeta hm" "hmSpec (machineCondition K t s r m hm) = hmSpec hm"
  "hmtHostRef (hmStatus (machineCondition K t s r m hm)) = hmtHostRef (hmStatus hm)"
  "hmtProvisioned (hmStatus (machineCondition K t s r m hm)) = hmtProvisioned (hmStatus hm)"
  by (simp_all add: machineCondition_def)

lemma provisionedFalse_keeps [simp]:
  "hmMeta (provisionedFalse K r m hm) = hmMeta hm" "hmSpec (provisionedFalse K r m hm) = hmSpec hm"
  "hmtHostRef (hmStatus (provisionedFalse K r m hm)) = hmtHostRef (hmStatus hm)"
  "hmtProvisioned (hmStatus (provisionedFalse K r m hm)) = hmtProvisioned (hmStatus hm)"
  by (simp_all add: provisionedFalse_def)

lemma claimed_sel [simp]:
  "hMeta (claimed h hm) = hMeta h" "hSpec (claimed h hm) = hSpec h"
  "stClaimRef (hStatus (claimed h hm)) = Some (claimRefFor hm)" "stPhase (hStatus (claimed h hm)) = HostPhaseClaimed"
  by (simp_all add: claimed_def)

lemma labelled_sel [simp]:
  "hSpec (labelled cl hm h) = hSpec h" "hStatus (labelled cl hm h) = hStatus h"
  "mName (hMeta (labelled cl hm h)) = mName (hMeta h)" "mNamespace (hMeta (labelled cl hm h)) = mNamespace (hMeta h)"
  "mResourceVersion (hMeta (labelled cl hm h)) = mResourceVersion (hMeta h)"
  "hLabel (labelled cl hm h) ClaimedByLabel = hmName hm"
  "hLabel (labelled cl hm h) ClusterNameLabel = mName (clMeta cl)"
  by (simp_all add: labelled_def mapGet_update)

text \<open>
  The walk over the free hosts, exactly: the claimable hosts that come first were tried and
  lost to a conflict, in order, and the host that is returned is the next one, after both
  writes went through.
\<close>

definition lostRace :: "cluster \<Rightarrow> hostMachine \<Rightarrow> host \<Rightarrow> req \<times> resp \<Rightarrow> bool" where
  "lostRace cl hm h ev \<longleftrightarrow> (\<exists>e. ev = (UpdateHost (labelled cl hm h), RHost (Inl e)) \<and> ekind e = ErrConflict)"

definition wonHost ::
  "(labels \<Rightarrow> bool) \<Rightarrow> cluster \<Rightarrow> hostMachine \<Rightarrow> host list \<Rightarrow> trace \<Rightarrow> host \<Rightarrow> bool" where
  "wonHost sel cl hm hosts evs h \<longleftrightarrow>
     (\<exists>pre g post lost h1. hosts = pre @ g # post \<and> claimable sel g \<and>
        list_all2 (lostRace cl hm) (filter (claimable sel) pre) lost \<and>
        evs = lost @ [(UpdateHost (labelled cl hm g), RHost (Inr h1)),
                      (UpdateHostStatus (claimed h1 hm), RHost (Inr h))])"

lemma wonHostI:
  assumes "hosts = pre @ g # post" "claimable sel g" "list_all2 (lostRace cl hm) (filter (claimable sel) pre) lost"
    "evs = lost @ [(UpdateHost (labelled cl hm g), RHost (Inr h1)), (UpdateHostStatus (claimed h1 hm), RHost (Inr h))]"
  shows "wonHost sel cl hm hosts evs h"
  using assms unfolding wonHost_def by blast

lemma wonHostE:
  assumes "wonHost sel cl hm hosts evs h"
  obtains pre g post lost h1 where
    "hosts = pre @ g # post" "claimable sel g" "list_all2 (lostRace cl hm) (filter (claimable sel) pre) lost"
    "evs = lost @ [(UpdateHost (labelled cl hm g), RHost (Inr h1)), (UpdateHostStatus (claimed h1 hm), RHost (Inr h))]"
  using assms unfolding wonHost_def by blast

lemma replay_claimFree:
  assumes "replay (claimFree sel cl hm hosts) evs = Some (hm', Inr (Some h))"
  shows "wonHost sel cl hm hosts evs h \<and> hm' = setHostRef (Some (hName h)) hm"
  using assms
proof (induction hosts arbitrary: evs)
  case (Cons x hosts)
  show ?case
  proof (cases "claimable sel x")
    case False
    then have w: "wonHost sel cl hm hosts evs h" "hm' = setHostRef (Some (hName h)) hm"
      using Cons by simp_all
    from w(1) show ?thesis
      by (rule wonHostE) (use False w(2) in \<open>auto intro: wonHostI [where pre = "x # _"]\<close>)
  next
    case True
    with Cons.prems consider
      (won) h1 where "evs = [(UpdateHost (labelled cl hm x), RHost (Inr h1)), (UpdateHostStatus (claimed h1 hm), RHost (Inr h))]"
        "hm' = setHostRef (Some (hName h)) hm"
    | (lost) e rest where "evs = (UpdateHost (labelled cl hm x), RHost (Inl e)) # rest" "ekind e = ErrConflict"
        "replay (claimFree sel cl hm hosts) rest = Some (hm', Inr (Some h))"
      by (auto simp: replay_run recordClaim_def)
    then show ?thesis
    proof cases
      case won
      with True show ?thesis
        by (auto intro: wonHostI [where pre = "[]" and lost = "[]"])
    next
      case lost
      have l: "lostRace cl hm x (UpdateHost (labelled cl hm x), RHost (Inl e))"
        using lost(2) by (simp add: lostRace_def)
      have w: "wonHost sel cl hm hosts rest h" "hm' = setHostRef (Some (hName h)) hm"
        using Cons.IH lost(3) by simp_all
      from w(1) show ?thesis
        by (rule wonHostE) (use True l lost(1) w(2) in
          \<open>auto intro: wonHostI [where pre = "x # _" and lost = "(UpdateHost (labelled cl hm x), RHost (Inl e)) # _"]\<close>)
    qed
  qed
qed simp

text \<open>Every write a claim can make, whatever the replies.\<close>

definition claimWrite :: "(labels \<Rightarrow> bool) \<Rightarrow> cluster \<Rightarrow> hostMachine \<Rightarrow> host set \<Rightarrow> req \<Rightarrow> bool" where
  "claimWrite sel cl hm hosts q \<longleftrightarrow>
     (\<exists>g\<in>hosts. claimable sel g \<and> q = UpdateHost (labelled cl hm g)) \<or> (\<exists>h. q = UpdateHostStatus (claimed h hm))"

lemma calls_updateHostStatus:
  "P (UpdateHostStatus h) \<Longrightarrow> (\<And>x. calls P (f x)) \<Longrightarrow> calls P (bind (updateHostStatus h) f)"
  by (auto simp: updateHostStatus_def split: resp.split)

lemma calls_updateHost:
  "P (UpdateHost h) \<Longrightarrow> (\<And>x. calls P (f x)) \<Longrightarrow> calls P (bind (updateHost h) f)"
  by (auto simp: updateHost_def split: resp.split)

lemma calls_claimFree:
  "set hs \<subseteq> hosts \<Longrightarrow> calls (claimWrite sel cl hm hosts) (claimFree sel cl hm hs)"
proof (induction hs)
  case (Cons h hs)
  then show ?case
    by (auto intro!: calls_updateHost calls_updateHostStatus simp: claimWrite_def recordClaim_def split: sum.split)
qed simp

lemma find_None_set: "find P xs = None \<longleftrightarrow> (\<forall>x\<in>set xs. \<not> P x)"
  by (auto simp: find_None_iff)

lemma set_SortHosts: "set (SortHosts f hs) = set hs"
  by (simp add: SortHosts_def)

lemma cutoff_claimHost_update:
  assumes "cutoff (claimHost K cl hm) evs" "(UpdateHost x, r) \<in> set evs"
  shows "\<exists>sel items rest g. evs = (ListHosts (hmNamespace hm), RHosts (Inr items)) # rest \<and>
    selectorFor K (hmsHostSelector (hmSpec hm)) = Inr sel \<and> hmtHostRef (hmStatus hm) = None \<and>
    (\<forall>k\<in>set items. \<not> holdsClaim hm k \<and> \<not> labelledFor hm k) \<and>
    g \<in> set items \<and> claimable sel g \<and> x = labelled cl hm g"
proof -
  have "\<exists>sel items rest. hmtHostRef (hmStatus hm) = None \<and> selectorFor K (hmsHostSelector (hmSpec hm)) = Inr sel \<and>
     evs = (ListHosts (hmNamespace hm), RHosts (Inr items)) # rest \<and>
     find (holdsClaim hm) (SortHosts hName items) = None \<and> find (labelledFor hm) (SortHosts hName items) = None \<and>
     cutoff (claimFree sel cl hm (SortHosts hName items)) rest"
    using assms by (auto simp: claimHost_def Let_def cutoff_run recordClaim_def)
  then obtain sel items rest where c: "hmtHostRef (hmStatus hm) = None" "selectorFor K (hmsHostSelector (hmSpec hm)) = Inr sel"
     "evs = (ListHosts (hmNamespace hm), RHosts (Inr items)) # rest"
     "find (holdsClaim hm) (SortHosts hName items) = None" "find (labelledFor hm) (SortHosts hName items) = None"
     "cutoff (claimFree sel cl hm (SortHosts hName items)) rest" by blast
  have "claimWrite sel cl hm (set items) (UpdateHost x)"
    using calls_cutoff [OF calls_claimFree c(6), of "set items" "(UpdateHost x, r)"] assms(2) c(3)
    by (simp add: set_SortHosts)
  with c show ?thesis
    by (auto simp: claimWrite_def find_None_set set_SortHosts)
qed

text \<open>An event that a program cannot make comes from what follows it.\<close>

lemma cutoff_bind_skip:
  assumes "cutoff (bind p f) evs" "calls P p" "ev \<in> set evs" "\<not> P (fst ev)"
  obtains e1 a e2 where "evs = e1 @ e2" "replay p e1 = Some a" "cutoff (f a) e2" "ev \<in> set e2"
proof -
  have "\<not> cutoff p evs"
    using calls_cutoff [OF assms(2) _ assms(3)] assms(4) by blast
  then obtain e1 e2 a where e: "evs = e1 @ e2" "replay p e1 = Some a" "cutoff (f a) e2"
    using assms(1) by (auto simp: cutoff_bind)
  moreover have "ev \<notin> set e1"
    using calls_replay [OF assms(2) e(2)] assms(4) by blast
  ultimately show thesis using that assms(3) by auto
qed

subsection \<open>Lemmas: the run\<close>

definition readReq :: "req \<Rightarrow> bool" where
  "readReq q \<longleftrightarrow> (\<exists>n cmd. q = Exec n cmd None \<and>
     (cmd = readCommand checksumPath \<or> cmd = readCommand exitCodePath \<or> cmd = tailCommand))"

lemma calls_Status: "calls readReq (Status c desired)"
  unfolding Status_def readFile_Run tailLog_Run
  by (auto intro!: calls_bind_Run simp: readReq_def split: option.split prod.split)

lemma launch_not_read: "\<not> readReq (Exec n launchCommand None)"
  by (auto simp: readReq_def readCommand_def launchCommand_def tailCommand_def)

lemma Checksum_trim: "trimSpace (Checksum s) = Checksum s"
  by (simp add: Checksum_def)

lemma launch_not_quiet: "\<not> quietReq (Exec n launchCommand None)"
  by (auto simp: quietReq_def quietCommand_def launchCommand_def tailCommand_def)

lemma Start_launch:
  assumes "cutoff (Start c script checksum) evs" "(Exec n launchCommand None, x) \<in> set evs"
  shows "n = scConn c \<and> (\<exists>o2 e2. (Exec n (writeFileCommand scriptPath ''0700'') (Some script), RExec (Done o2 e2 RunOk)) \<in> set evs)"
proof -
  have "\<not> cutoff (preflight c) evs"
    using calls_cutoff [OF preflight_quiet _ assms(2)] launch_not_quiet by auto
  then obtain e1 e2 where e: "evs = e1 @ e2" "replay (preflight c) e1 = Some (Inr ())"
    "cutoff (startSteps c script checksum) e2"
    using assms(1) by (auto simp: Start_def cutoff_bindE)
  have "(Exec n launchCommand None, x) \<in> set e2"
    using assms(2) e(1) calls_replay [OF preflight_quiet e(2), of "(Exec n launchCommand None, x)"] launch_not_quiet by auto
  with e(3) show ?thesis
    by (cases rule: cutoff_startSteps) (use e(1) in \<open>auto simp: finishedOk_iff\<close>)
qed

lemma cutoff_bind_Ret: "cutoff (bind p (\<lambda>x. Ret (f x))) evs \<longleftrightarrow> cutoff p evs"
  by (auto simp: cutoff_bind dest: replay_cutoff)

lemma onPhase_launch:
  assumes "cutoff (onPhase K hm h script checksum conn st) evs" "(Exec n launchCommand None, x) \<in> set evs"
  shows "ssPhase st = PhaseIdle \<and> cutoff (Start conn script checksum) evs"
proof (cases "ssPhase st")
  case PhaseSucceeded
  then show ?thesis
    using assms by (auto simp: onPhase_def cutoff_bind_Ret markHostProvisioned_def cutoff_run bindE_def split: if_splits)
qed (use assms in \<open>auto simp: onPhase_def cutoff_bind_Ret\<close>)

text \<open>In a bootstrap step the launch comes after a status that read another checksum.\<close>

definition launchesAfterCheck :: "string \<Rightarrow> nat \<Rightarrow> trace \<Rightarrow> bool" where
  "launchesAfterCheck script n evs \<longleftrightarrow>
     (\<exists>out err. (Exec n (readCommand checksumPath) None, RExec (Done out err RunOk)) \<in> set evs \<and>
        trimSpace out \<noteq> Checksum script) \<and>
     (\<exists>o2 e2. (Exec n (writeFileCommand scriptPath ''0700'') (Some script), RExec (Done o2 e2 RunOk)) \<in> set evs)"

lemma bootstrapStep_launch:
  assumes "cutoff (bootstrapStep K hm h script (Checksum script) conn) evs" "(Exec n launchCommand None, x) \<in> set evs"
  shows "launchesAfterCheck script n evs"
proof -
  have "\<not> readReq (fst (Exec n launchCommand None, x))" using launch_not_read by simp
  with assms(1) [unfolded bootstrapStep_def] calls_Status assms(2)
  obtain e1 r e2 where e: "evs = e1 @ e2" "replay (Status conn (Checksum script)) e1 = Some r"
    and c: "cutoff (case r of Inl e \<Rightarrow> Ret (hm, 0, Some e)
      | Inr st \<Rightarrow> onPhase K hm h script (Checksum script) conn st) e2"
    and l: "(Exec n launchCommand None, x) \<in> set e2"
    by (rule cutoff_bind_skip)
  from c l obtain st where st: "r = Inr st" "cutoff (onPhase K hm h script (Checksum script) conn st) e2"
    by (cases r) auto
  have s: "ssPhase st = PhaseIdle" "cutoff (Start conn script (Checksum script)) e2"
    using onPhase_launch [OF st(2) l] by simp_all
  from e(2) [unfolded st(1)] obtain out err where
    "e1 = [(Exec (scConn conn) (readCommand checksumPath) None, RExec (Done out err RunOk))]"
    "trimSpace out = [] \<or> trimSpace out \<noteq> Checksum script"
    by (cases rule: replay_Status_ok) (use s(1) in auto)
  then show ?thesis
    using Start_launch [OF s(2) l] e(1) Checksum_nonempty [of script]
    unfolding launchesAfterCheck_def by (metis list.set_intros(1) in_set_conv_decomp set_append Un_iff)
qed

lemma calls_mono: "calls P p \<Longrightarrow> (\<And>q. P q \<Longrightarrow> Q q) \<Longrightarrow> calls Q p"
  by (induction p) auto

definition notLaunch :: "req \<Rightarrow> bool" where
  "notLaunch q \<longleftrightarrow> (\<forall>n. q \<noteq> Exec n launchCommand None)"

lemma notLaunch_simps [simp]:
  "notLaunch (GetHost k)" "notLaunch (GetHostMachine k)" "notLaunch (GetSecret k)" "notLaunch (ListHosts ns)"
  "notLaunch (UpdateHost h)" "notLaunch (UpdateHostStatus h)" "notLaunch (CloseConn n)"
  "notLaunch (Exec n cmd (Some inp))" "\<not> notLaunch (Exec n launchCommand None)"
  "notLaunch (GetOwnerMachine m)" "notLaunch (GetClusterFromMetadata m)" "notLaunch NewPatchHelper"
  "notLaunch (PatchHostMachine a b)"
  by (simp_all add: notLaunch_def)

lemma notLaunch_connect: "calls notLaunch (connect L h)"
  by (rule calls_connect) (auto simp: connectReq_def notLaunch_def split: req.splits)

lemma notLaunch_claimHost: "calls notLaunch (claimHost K cl hm)"
proof -
  have "calls notLaunch (claimFree sel cl hm hosts)" for sel hosts
    by (rule calls_mono [OF calls_claimFree [OF order_refl]]) (auto simp: claimWrite_def)
  then show ?thesis
    by (auto intro!: calls_bind simp: claimHost_def recordClaim_def call_defs Let_def
        split: option.split sum.split resp.split)
qed

lemma notLaunch_bootstrapData: "calls notLaunch (bootstrapData ns n)"
  by (auto intro!: calls_bind simp: bootstrapData_def call_defs Let_def split: option.split sum.split resp.split)

lemma notLaunch_Reset: "calls notLaunch (Reset c)"
  by (auto intro!: calls_bindE calls_bind_Run simp: Reset_def WriteFile_def execCmd_def notLaunch_def launchCommand_def resetCommand_def
      split: resp.split option.split prod.split)

lemma notLaunch_reconcileDelete: "calls notLaunch (reconcileDelete K L hm)"
  unfolding reconcileDelete_def resetHost_def releaseHost_def
  by (auto intro!: calls_bind notLaunch_connect notLaunch_Reset simp: call_defs Let_def
      split: option.split sum.split resp.split prod.split)

text \<open>The script that is run on a host is the one rendered for it.\<close>

definition rendersFor :: "lib \<Rightarrow> host \<Rightarrow> string \<Rightarrow> string \<Rightarrow> bool" where
  "rendersFor Y h data script \<longleftrightarrow>
     Render Y data \<lparr>optProviderID = ProviderID h, optHostAddress = hsAddress (hSpec h)\<rparr> = Inr script"

lemma launchesAfterCheck_mono:
  "launchesAfterCheck script n evs \<Longrightarrow> set evs \<subseteq> set evs' \<Longrightarrow> launchesAfterCheck script n evs'"
  unfolding launchesAfterCheck_def by blast

text \<open>Lifting a property of the runs that make a call from a part of a program to the whole.\<close>

lemma cutoff_lift:
  assumes "cutoff (bind p f) evs" "ev \<in> set evs" "calls P p" "\<not> P (fst ev)"
    and "\<And>a e. cutoff (f a) e \<Longrightarrow> ev \<in> set e \<Longrightarrow> Q e" "\<And>e e'. Q e \<Longrightarrow> set e \<subseteq> set e' \<Longrightarrow> Q e'"
  shows "Q evs"
  using assms(1,3,2,4) by (rule cutoff_bind_skip) (use assms(5,6) in fastforce)

lemma cutoff_lift_first:
  assumes "cutoff (bind p f) evs" "ev \<in> set evs" "\<And>a. calls P (f a)" "\<not> P (fst ev)"
    and "\<And>e. cutoff p e \<Longrightarrow> ev \<in> set e \<Longrightarrow> Q e" "\<And>e e'. Q e \<Longrightarrow> set e \<subseteq> set e' \<Longrightarrow> Q e'"
  shows "Q evs"
proof -
  from assms(1) consider "cutoff p evs" | e1 e2 a where "evs = e1 @ e2" "replay p e1 = Some a" "cutoff (f a) e2"
    by (auto simp: cutoff_bind)
  then show ?thesis
  proof cases
    case 2
    then have "ev \<notin> set e2"
      using calls_cutoff [OF assms(3) 2(3)] assms(4) by blast
    then have "Q e1"
      using assms(2,5) 2 replay_cutoff by fastforce
    then show ?thesis using assms(6) 2(1) by auto
  qed (use assms(2,5) in blast)
qed

lemma calls_closeConn: "P (CloseConn n) \<Longrightarrow> (\<And>a. calls P (f a)) \<Longrightarrow> calls P (bind (closeConn n) f)"
  by (auto simp: closeConn_def split: resp.split)

lemma runBootstrap_launch:
  assumes "cutoff (runBootstrap K L hm h script (Checksum script)) evs" "(Exec n launchCommand None, x) \<in> set evs"
  shows "launchesAfterCheck script n evs"
  using assms(1) [unfolded runBootstrap_def] assms(2) notLaunch_connect
proof (rule cutoff_lift)
  fix r e
  assume c: "cutoff (case r of
       Inl e \<Rightarrow>
         Ret (provisionedFalse K ReasonProbeFailed (truncateMsg (emsg e) conditionMessageLimit) hm,
              if ekind e = ErrHostKeyMismatch then 0 else requeueWaitingForDependency, None)
     | Inr (conn, h) \<Rightarrow>
         bind (bootstrapStep K hm h script (Checksum script) conn) (\<lambda>out.
         bind (closeConn (scConn conn)) (\<lambda>_. Ret out))) e"
    and l: "(Exec n launchCommand None, x) \<in> set e"
  then obtain conn h' where b: "cutoff (bind (bootstrapStep K hm h' script (Checksum script) conn) (\<lambda>out.
         bind (closeConn (scConn conn)) (\<lambda>_. Ret out))) e"
    by (auto simp: cutoff_cases)
  show "launchesAfterCheck script n e"
    by (rule cutoff_lift_first [OF b l, where P = notLaunch])
      (auto intro: calls_closeConn bootstrapStep_launch launchesAfterCheck_mono)
qed (auto intro: launchesAfterCheck_mono)

definition launchesRendered :: "lib \<Rightarrow> nat \<Rightarrow> trace \<Rightarrow> bool" where
  "launchesRendered Y n evs \<longleftrightarrow> (\<exists>h data script. rendersFor Y h data script \<and> launchesAfterCheck script n evs)"

lemma launchesRendered_mono: "launchesRendered Y n evs \<Longrightarrow> set evs \<subseteq> set evs' \<Longrightarrow> launchesRendered Y n evs'"
  unfolding launchesRendered_def using launchesAfterCheck_mono by blast

lemma bootstrapOn_launch:
  assumes "cutoff (bootstrapOn K Y L mc sn hm h) evs" "(Exec n launchCommand None, x) \<in> set evs"
  shows "launchesRendered Y n evs"
  using assms(1) [unfolded bootstrapOn_def Let_def] assms(2) notLaunch_bootstrapData
  by (rule cutoff_lift)
    (auto simp: cutoff_cases launchesRendered_def rendersFor_def intro: runBootstrap_launch launchesAfterCheck_mono)

lemma reconcileNormal_launch:
  assumes "cutoff (reconcileNormal K Y L cl mc hm) evs" "(Exec n launchCommand None, x) \<in> set evs"
  shows "launchesRendered Y n evs"
proof -
  obtain sn where "cutoff (bind (claimHost K cl hm) (\<lambda>(hm, r). case r of
            Inl e \<Rightarrow> Ret (hm, 0, Some e)
          | Inr None \<Rightarrow>
              Ret (provisionedFalse K ReasonNoMatchingHost noMatchingHostMessage
                     (machineCondition K HostMachineHostClaimed ConditionFalse ReasonNoMatchingHost noMatchingHostMessage hm),
                   requeueWaitingForDependency, None)
          | Inr (Some h) \<Rightarrow> bootstrapOn K Y L mc sn hm h)) evs"
    using assms unfolding reconcileNormal_def by (auto simp: cutoff_cases)
  from this assms(2) notLaunch_claimHost show ?thesis
    by (rule cutoff_lift) (auto simp: cutoff_cases intro: bootstrapOn_launch launchesRendered_mono)
qed

lemma reconcileMachine_launch:
  assumes "cutoff (reconcileMachine K Y L cl mc hm) evs" "(Exec n launchCommand None, x) \<in> set evs"
  shows "launchesRendered Y n evs"
  using assms calls_cutoff [OF notLaunch_reconcileDelete, of K L hm evs "(Exec n launchCommand None, x)"]
  by (auto simp: reconcileMachine_def intro: reconcileNormal_launch split: if_splits)

subsection \<open>Lemmas: a whole reconcile\<close>

definition readOnlyReq :: "req \<Rightarrow> bool" where
  "readOnlyReq q = (case q of GetHostMachine _ \<Rightarrow> True | GetOwnerMachine _ \<Rightarrow> True | GetClusterFromMetadata _ \<Rightarrow> True
     | NewPatchHelper \<Rightarrow> True | _ \<Rightarrow> False)"

text \<open>A reconcile looks its objects up, and only then does its work.\<close>

lemma cutoff_Reconcile:
  assumes "cutoff (ReconcileHostMachine K Y L key) evs" "ev \<in> set evs" "\<not> readOnlyReq (fst ev)"
  obtains hm mc cl rest where
    "evs = [(GetHostMachine key, RHostMachine (Inr hm)), (GetOwnerMachine (hmMeta hm), RMachine (Inr (Some mc))),
       (GetClusterFromMetadata (mcMeta mc), RCluster (Inr (Some cl))), (NewPatchHelper, RUnit (Inr ()))] @ rest"
    "\<not> isPausedMachine K cl hm" "ev \<in> set rest"
    "cutoff (bind (reconcileMachine K Y L cl mc hm) (\<lambda>(hm', res, err).
       bind (patchHostMachine hm hm') (\<lambda>p. case p of
         Inl e \<Rightarrow> Ret (res, case err of None \<Rightarrow> Some e | Some e' \<Rightarrow> Some e')
       | Inr _ \<Rightarrow> Ret (res, err)))) rest"
  using assms
  by (auto simp: ReconcileHostMachine_def cutoff_run readOnlyReq_def)

lemma calls_patchHostMachine:
  "P (PatchHostMachine a b) \<Longrightarrow> (\<And>x. calls P (f x)) \<Longrightarrow> calls P (bind (patchHostMachine a b) f)"
  by (auto simp: patchHostMachine_def split: resp.split)

text \<open>The work between the patch helper and the patch does not patch.\<close>

definition notPatch :: "req \<Rightarrow> bool" where
  "notPatch q = (case q of PatchHostMachine _ _ \<Rightarrow> False | _ \<Rightarrow> True)"

text \<open>Calls that neither patch nor dial: all of a reconcile's but those of \<^verbatim>\<open>connect\<close> and the patch.\<close>

definition plainReq :: "req \<Rightarrow> bool" where
  "plainReq q = (case q of PatchHostMachine _ _ \<Rightarrow> False | DialTCP _ \<Rightarrow> False | _ \<Rightarrow> True)"

lemma plain_notPatch: "plainReq q \<Longrightarrow> notPatch q"
  by (auto simp: plainReq_def notPatch_def split: req.splits)

lemma notPatch_connect: "calls notPatch (connect L h)"
  by (rule calls_connect) (auto simp: connectReq_def notPatch_def split: req.splits)

lemma plain_Status: "calls plainReq (Status c d)"
  by (rule calls_mono [OF calls_Status]) (auto simp: readReq_def plainReq_def)

lemma calls_WriteFile:
  "P (Exec (scConn c) (writeFileCommand p m) (Some t)) \<Longrightarrow> (\<And>x. calls P (f x)) \<Longrightarrow> calls P (bindE (WriteFile c p t m) f)"
  by (intro calls_bindE) (auto simp: WriteFile_def execCmd_def split: resp.split)

lemma plain_Start: "calls plainReq (Start c s d)"
  unfolding Start_def startSteps_def
  by (intro calls_bindE calls_mono [OF preflight_quiet])
    (auto simp: quietReq_def plainReq_def intro!: calls_bind_Run calls_WriteFile split: option.split prod.split)

lemma plain_Reset: "calls plainReq (Reset c)"
  by (auto intro!: calls_WriteFile calls_bind_Run simp: Reset_def plainReq_def split: option.split prod.split)

lemma plain_claimHost: "calls plainReq (claimHost K cl hm)"
proof -
  have "calls plainReq (claimFree sel cl hm hosts)" for sel hosts
    by (rule calls_mono [OF calls_claimFree [OF order_refl]]) (auto simp: claimWrite_def plainReq_def)
  then show ?thesis
    by (auto intro!: calls_bind simp: claimHost_def recordClaim_def call_defs Let_def plainReq_def
        split: option.split sum.split resp.split)
qed

lemma plain_onPhase: "calls plainReq (onPhase K hm h script checksum conn st)"
  unfolding onPhase_def markHostProvisioned_def
  by (auto intro!: calls_bind calls_bindE plain_Start simp: call_defs plainReq_def split: phase.split resp.split)

lemma plain_bootstrapStep: "calls plainReq (bootstrapStep K hm h script checksum conn)"
  unfolding bootstrapStep_def by (auto intro!: calls_bind plain_Status plain_onPhase split: sum.split)

lemma plain_bootstrapData: "calls plainReq (bootstrapData ns sn)"
  unfolding bootstrapData_def
  by (auto intro!: calls_bind simp: call_defs Let_def plainReq_def split: option.split sum.split resp.split)

lemmas notPatch_plain = plain_Status [THEN calls_mono, OF plain_notPatch] plain_Reset [THEN calls_mono, OF plain_notPatch]
  plain_claimHost [THEN calls_mono, OF plain_notPatch] plain_bootstrapStep [THEN calls_mono, OF plain_notPatch]
  plain_bootstrapData [THEN calls_mono, OF plain_notPatch]

lemma notPatch_reconcileMachine: "calls notPatch (reconcileMachine K Y L cl mc hm)"
proof -
  have 1: "calls notPatch (bootstrapOn K Y L mc sn hm h)" for sn hm h
    unfolding bootstrapOn_def runBootstrap_def
    by (auto intro!: calls_bind notPatch_connect notPatch_plain calls_closeConn
        simp: Let_def notPatch_def split: sum.split prod.split)
  have 2: "calls notPatch (reconcileDelete K L hm)" for hm
    unfolding reconcileDelete_def resetHost_def releaseHost_def
    by (auto intro!: calls_bind notPatch_connect notPatch_plain simp: call_defs Let_def notPatch_def
        split: option.split sum.split resp.split prod.split)
  show ?thesis
    unfolding reconcileMachine_def reconcileNormal_def
    by (auto intro!: calls_bind 1 2 notPatch_plain split: option.split sum.split prod.split)
qed

text \<open>A reconcile that patched, taken apart.\<close>

lemma replay_ReconcileHostMachine:
  assumes "replay (ReconcileHostMachine K Y L key) evs = Some out" "(PatchHostMachine hm hm', x) \<in> set evs"
  obtains mc cl body res err p where
    "evs = [(GetHostMachine key, RHostMachine (Inr hm)), (GetOwnerMachine (hmMeta hm), RMachine (Inr (Some mc))),
       (GetClusterFromMetadata (mcMeta mc), RCluster (Inr (Some cl))), (NewPatchHelper, RUnit (Inr ()))] @
       body @ [(PatchHostMachine hm hm', RUnit p)]"
    "\<not> isPausedMachine K cl hm" "replay (reconcileMachine K Y L cl mc hm) body = Some (hm', res, err)"
    "out = (res, case err of Some e \<Rightarrow> Some e | None \<Rightarrow> (case p of Inl e \<Rightarrow> Some e | Inr _ \<Rightarrow> None))"
proof -
  obtain g mc cl rest where e: "evs = [(GetHostMachine key, RHostMachine (Inr g)), (GetOwnerMachine (hmMeta g), RMachine (Inr (Some mc))),
       (GetClusterFromMetadata (mcMeta mc), RCluster (Inr (Some cl))), (NewPatchHelper, RUnit (Inr ()))] @ rest"
    "\<not> isPausedMachine K cl g"
    "replay (bind (reconcileMachine K Y L cl mc g) (\<lambda>(hm', res, err).
       bind (patchHostMachine g hm') (\<lambda>p. case p of
         Inl e \<Rightarrow> Ret (res, case err of None \<Rightarrow> Some e | Some e' \<Rightarrow> Some e')
       | Inr _ \<Rightarrow> Ret (res, err)))) rest = Some out"
    using assms by (auto simp: ReconcileHostMachine_def replay_run)
  then obtain body g' res err p where b: "rest = body @ [(PatchHostMachine g g', RUnit p)]"
    "replay (reconcileMachine K Y L cl mc g) body = Some (g', res, err)"
    "out = (res, case err of Some e \<Rightarrow> Some e | None \<Rightarrow> (case p of Inl e \<Rightarrow> Some e | Inr _ \<Rightarrow> None))"
    by (auto simp: replay_bind [of "reconcileMachine K Y L cl mc g"] replay_run split: option.split)
  have "(PatchHostMachine hm hm', x) \<notin> set body"
    using calls_replay [OF notPatch_reconcileMachine b(2), of "(PatchHostMachine hm hm', x)"]
    by (auto simp: notPatch_def)
  then have "hm = g" "hm' = g'" using assms(2) e(1) b(1) by auto
  then show thesis using that e(1,2) b by blast
qed

lemma bootstrapped_sel [simp]:
  "hmtProvisioned (hmStatus (bootstrapped K c hm)) = Some True" "hmSpec (bootstrapped K c hm) = hmSpec hm"
  "hmMeta (bootstrapped K c hm) = hmMeta hm" "hmtHostRef (hmStatus (bootstrapped K c hm)) = hmtHostRef (hmStatus hm)"
  by (simp_all add: bootstrapped_def)

lemma addMachineFinalizer_keeps [simp]:
  "hmSpec (addMachineFinalizer K hm) = hmSpec hm" "hmStatus (addMachineFinalizer K hm) = hmStatus hm"
  "mNamespace (hmMeta (addMachineFinalizer K hm)) = mNamespace (hmMeta hm)"
  "mName (hmMeta (addMachineFinalizer K hm)) = mName (hmMeta hm)"
  "mUID (hmMeta (addMachineFinalizer K hm)) = mUID (hmMeta hm)"
  by (simp_all add: addMachineFinalizer_def)

text \<open>What a machine needs to be reported provisioned.\<close>

definition ranToSuccess :: "nat \<Rightarrow> string \<Rightarrow> trace \<Rightarrow> bool" where
  "ranToSuccess n script evs \<longleftrightarrow> (\<exists>out err out' err'.
     (Exec n (readCommand checksumPath) None, RExec (Done out err RunOk)) \<in> set evs \<and>
     trimSpace out = Checksum script \<and>
     (Exec n (readCommand exitCodePath) None, RExec (Done out' err' RunOk)) \<in> set evs \<and>
     parseInt 64 (trimSpace out') = Some 0)"

lemma ranToSuccess_mono: "ranToSuccess n script evs \<Longrightarrow> set evs \<subseteq> set evs' \<Longrightarrow> ranToSuccess n script evs'"
  unfolding ranToSuccess_def by blast

lemma bootstrapStep_provisioned:
  assumes "replay (bootstrapStep K hm h script (Checksum script) conn) evs = Some (hm', res)"
    and "hmtProvisioned (hmStatus hm') \<noteq> hmtProvisioned (hmStatus hm)"
  shows "ranToSuccess (scConn conn) script evs \<and> hmSpec hm' = hmSpec hm \<and> hmtHostRef (hmStatus hm') = hmtHostRef (hmStatus hm)"
proof -
  obtain e1 e2 r where e: "evs = e1 @ e2" "replay (Status conn (Checksum script)) e1 = Some r"
    "replay (case r of Inl e \<Rightarrow> Ret (hm, 0, Some e)
      | Inr st \<Rightarrow> onPhase K hm h script (Checksum script) conn st) e2 = Some (hm', res)"
    using assms(1) by (auto simp: bootstrapStep_def replay_bind)
  then obtain st where st: "r = Inr st" "replay (onPhase K hm h script (Checksum script) conn st) e2 = Some (hm', res)"
    using assms(2) by (cases r) auto
  have s: "ssPhase st = PhaseSucceeded \<and> hmSpec hm' = hmSpec hm \<and> hmtHostRef (hmStatus hm') = hmtHostRef (hmStatus hm)"
    using st(2) assms(2)
    by (auto simp: onPhase_def replay_bind split: phase.splits) (auto split: sum.split_asm)
  from e(2) [unfolded st(1)] show ?thesis
    by (cases rule: replay_Status_ok) (use s e(1) in \<open>auto simp: ranToSuccess_def\<close>)
qed

text \<open>Where \<^verbatim>\<open>connect\<close> dials for a host, and only there.\<close>

definition hostEndpoint :: "host \<Rightarrow> string" where
  "hostEndpoint h = joinHostPort (hsAddress (hSpec h)) (itoa (if hsPort (hSpec h) = 0 then 22 else hsPort (hSpec h)))"

definition dialsOnly :: "string \<Rightarrow> req \<Rightarrow> bool" where
  "dialsOnly a q = (case q of DialTCP x \<Rightarrow> x = a | _ \<Rightarrow> True)"

lemma dialAddr_configOf [simp]: "dialAddr (configOf h s) = hostEndpoint h"
  by (simp add: dialAddr_def dialPort_def configOf_def hostEndpoint_def)

lemma plain_dialsOnly: "plainReq q \<Longrightarrow> dialsOnly a q"
  by (auto simp: plainReq_def dialsOnly_def split: req.splits)

lemma dialsOnly_connect: "calls (dialsOnly (hostEndpoint h)) (connect L h)"
proof -
  have "calls (dialsOnly (dialAddr cfg)) (Dial L cfg)" for cfg
    unfolding Dial_def
    by (auto intro!: calls_bind simp: call_defs Let_def dialsOnly_def dialAddr_def split: resp.split sum.split)
  then have "calls (dialsOnly (hostEndpoint h)) (Dial L (configOf h s))" for s by (metis dialAddr_configOf)
  then show ?thesis
    unfolding connect_def sshConfigFor_def
    by (auto intro!: calls_bind simp: bindE_def bind_assoc call_defs Let_def dialsOnly_def split: resp.split sum.split)
qed

text \<open>
  \<open>ranOn Y h data n script evs\<close>: over connection \<open>n\<close>, the one the run dialled, the host \<open>h\<close> showed
  that the script rendered for it from \<open>data\<close> ran to success.
\<close>

definition ranOn :: "lib \<Rightarrow> host \<Rightarrow> string \<Rightarrow> string \<Rightarrow> nat \<Rightarrow> trace \<Rightarrow> bool" where
  "ranOn Y h data script n evs \<longleftrightarrow> rendersFor Y h data script \<and> ranToSuccess n script evs \<and>
     (DialTCP (hostEndpoint h), RConn (Inr n)) \<in> set evs \<and> (\<forall>e\<in>set evs. dialsOnly (hostEndpoint h) (fst e))"

lemma runBootstrap_provisioned:
  assumes "replay (runBootstrap K L hm h script (Checksum script)) evs = Some (hm', res)" "rendersFor Y h data script"
    and "hmtProvisioned (hmStatus hm') \<noteq> hmtProvisioned (hmStatus hm)"
  shows "(\<exists>n. ranOn Y h data script n evs) \<and> hmSpec hm' = hmSpec hm \<and> hmtHostRef (hmStatus hm') = hmtHostRef (hmStatus hm)"
proof -
  obtain e1 e2 conn h' where e: "evs = e1 @ e2" "replay (connect L h) e1 = Some (Inr (conn, h'))"
    "replay (bind (bootstrapStep K hm h' script (Checksum script) conn) (\<lambda>out.
         bind (closeConn (scConn conn)) (\<lambda>_. Ret out))) e2 = Some (hm', res)"
    using assms by (auto simp: runBootstrap_def replay_bind [of "connect L h"] replay_cases)
  then obtain e3 e4 where b: "e2 = e3 @ e4" "replay (bootstrapStep K hm h' script (Checksum script) conn) e3 = Some (hm', res)"
    by (auto simp: replay_bind [of "bootstrapStep K hm h' script (Checksum script) conn"] replay_steps)
  have ran: "ranToSuccess (scConn conn) script evs" "hmSpec hm' = hmSpec hm" "hmtHostRef (hmStatus hm') = hmtHostRef (hmStatus hm)"
    using bootstrapStep_provisioned [OF b(2) assms(3)] ranToSuccess_mono [of _ _ e3 evs] e(1) b(1) by auto
  have dialled: "(DialTCP (hostEndpoint h), RConn (Inr (scConn conn))) \<in> set evs"
    using e(1,2) by (auto elim!: replay_connect dest!: replay_Dial_ok)
  have "dialsOnly (hostEndpoint h) (fst x)" if "x \<in> set e1" for x
    using calls_replay [OF dialsOnly_connect e(2) that] .
  moreover have "dialsOnly (hostEndpoint h) (fst x)" if "x \<in> set e2" for x
  proof -
    have "calls (dialsOnly (hostEndpoint h)) (bind (bootstrapStep K hm h' script (Checksum script) conn) (\<lambda>out.
         bind (closeConn (scConn conn)) (\<lambda>_. Ret out)))"
      by (intro calls_bind calls_mono [OF plain_bootstrapStep plain_dialsOnly] calls_closeConn) (simp_all add: dialsOnly_def)
    from calls_replay [OF this e(3) that] show ?thesis .
  qed
  ultimately show ?thesis using ran dialled assms(2) e(1) unfolding ranOn_def by auto
qed

text \<open>The data is what the secret of the machine holds, and the provider id the host's.\<close>

definition provisionedBy :: "lib \<Rightarrow> machine \<Rightarrow> string \<Rightarrow> host \<Rightarrow> hostMachine \<Rightarrow> trace \<Rightarrow> bool" where
  "provisionedBy Y mc sn h hm' evs \<longleftrightarrow> (\<exists>s data script n.
     (GetSecret (mNamespace (mcMeta mc), sn), RSecret (Inr s)) \<in> set evs \<and> map_of (scData s) ''value'' = Some data \<and>
     ranOn Y h data script n evs \<and> hmsProviderID (hmSpec hm') = Some (ProviderID h))"

lemma replay_bootstrapData:
  assumes "replay (bootstrapData ns sn) evs = Some (Inr data)"
  shows "\<exists>s. evs = [(GetSecret (ns, sn), RSecret (Inr s))] \<and> map_of (scData s) ''value'' = Some data"
  using assms by (auto simp: bootstrapData_def Let_def replay_run split: option.splits if_splits)

lemma ranOn_before: "ranOn Y h data script n e2 \<Longrightarrow> (\<And>x. x \<in> set e1 \<Longrightarrow> dialsOnly (hostEndpoint h) (fst x)) \<Longrightarrow>
  ranOn Y h data script n (e1 @ e2)"
  using ranToSuccess_mono [of n script e2 "e1 @ e2"] unfolding ranOn_def by auto

lemma bootstrapOn_provisioned:
  assumes "replay (bootstrapOn K Y L mc sn hm h) evs = Some (hm', res)"
    and "hmtProvisioned (hmStatus hm') \<noteq> hmtProvisioned (hmStatus hm)"
  shows "provisionedBy Y mc sn h hm' evs \<and> hmtHostRef (hmStatus hm') = hmtHostRef (hmStatus hm)"
proof -
  have *: "provisionedBy Y mc sn h hm' (e1 @ e2) \<and> hmtHostRef (hmStatus hm') = hmtHostRef (hmStatus hm)"
    if run: "replay (bootstrapData (mNamespace (mcMeta mc)) sn) e1 = Some (Inr data)"
      "replay (runBootstrap K L hm2 h script (Checksum script)) e2 = Some (hm', res)" "rendersFor Y h data script"
      "hmtProvisioned (hmStatus hm2) = hmtProvisioned (hmStatus hm)" "hmtHostRef (hmStatus hm2) = hmtHostRef (hmStatus hm)"
      "hmsProviderID (hmSpec hm2) = Some (ProviderID h)" for hm2 e1 e2 script data
  proof -
    obtain n where n: "ranOn Y h data script n e2" "hmSpec hm' = hmSpec hm2" "hmtHostRef (hmStatus hm') = hmtHostRef (hmStatus hm2)"
      using runBootstrap_provisioned [OF run(2,3)] run(4) assms(2) by metis
    obtain s where s: "e1 = [(GetSecret (mNamespace (mcMeta mc), sn), RSecret (Inr s))]" "map_of (scData s) ''value'' = Some data"
      using replay_bootstrapData [OF run(1)] by blast
    have "ranOn Y h data script n (e1 @ e2)" by (rule ranOn_before [OF n(1)]) (simp add: s(1) dialsOnly_def)
    then show ?thesis using n(2,3) s run(5,6) unfolding provisionedBy_def by auto
  qed
  show ?thesis
    using assms
    by (auto simp: bootstrapOn_def Let_def replay_bind [of "bootstrapData _ _"] replay_cases rendersFor_def dest!: *)
qed

text \<open>The host of a machine in a reconcile: the one its status names afterwards, or what a lookup of that name found.\<close>

definition machineHost :: "hostMachine \<Rightarrow> hostMachine \<Rightarrow> host \<Rightarrow> trace \<Rightarrow> bool" where
  "machineHost hm hm' h evs \<longleftrightarrow> (\<exists>ref. hmtHostRef (hmStatus hm') = Some ref \<and>
     (hName h = ref \<or> (GetHost (hmNamespace hm, ref), RHost (Inr h)) \<in> set evs))"

lemma claimFree_host:
  "replay (claimFree sel cl hm hosts) evs = Some (hm', Inr (Some h)) \<Longrightarrow> hmtHostRef (hmStatus hm') = Some (hName h)"
  by (induction hosts arbitrary: evs) (auto simp: replay_run recordClaim_def split: if_splits)

lemma claimHost_host:
  "replay (claimHost K cl hm) evs = Some (hm', Inr (Some h)) \<Longrightarrow> machineHost hm hm' h evs"
  by (auto simp: claimHost_def Let_def replay_run recordClaim_def machineHost_def dest!: claimFree_host split: option.splits sum.splits)

lemma claimFree_keeps:
  "replay (claimFree sel cl hm hosts) evs = Some (hm', r) \<Longrightarrow>
   hmtProvisioned (hmStatus hm') = hmtProvisioned (hmStatus hm) \<and> hmMeta hm' = hmMeta hm \<and> hmSpec hm' = hmSpec hm"
  by (induction hosts arbitrary: evs) (auto simp: replay_run recordClaim_def split: if_splits)

lemma claimHost_keeps:
  "replay (claimHost K cl hm) evs = Some (hm', r) \<Longrightarrow>
   hmtProvisioned (hmStatus hm') = hmtProvisioned (hmStatus hm) \<and> hmMeta hm' = hmMeta hm \<and> hmSpec hm' = hmSpec hm"
  by (auto simp: claimHost_def Let_def replay_run recordClaim_def dest!: claimFree_keeps)

lemma reconcileDelete_keeps:
  "replay (reconcileDelete K L hm) evs = Some (hm', r) \<Longrightarrow>
   hmtProvisioned (hmStatus hm') = hmtProvisioned (hmStatus hm)"
  by (auto simp: reconcileDelete_def Let_def replay_run dropMachineFinalizer_def replay_bind [of "resetHost _ _ _"]
      replay_bind [of "releaseHost _ _ _"])

lemma reconcileMachine_provisioned:
  assumes "replay (reconcileMachine K Y L cl mc hm) evs = Some (hm', res)"
    and "hmtProvisioned (hmStatus hm') \<noteq> hmtProvisioned (hmStatus hm)"
  shows "\<exists>sn h. mcDataSecretName mc = Some sn \<and> provisionedBy Y mc sn h hm' evs \<and> machineHost hm hm' h evs"
proof -
  have *: "\<exists>h. provisionedBy Y mc sn h hm' (e1 @ e2) \<and> machineHost hm hm' h (e1 @ e2)"
    if c: "replay (claimHost K cl (addMachineFinalizer K hm)) e1 = Some (g, Inr (Some h))"
      and b: "replay (bootstrapOn K Y L mc sn g h) e2 = Some (hm', res)" for sn g h e1 e2
  proof -
    have p: "hmtProvisioned (hmStatus g) = hmtProvisioned (hmStatus hm)" using claimHost_keeps [OF c] by simp
    then have o: "provisionedBy Y mc sn h hm' e2" "hmtHostRef (hmStatus hm') = hmtHostRef (hmStatus g)"
      using bootstrapOn_provisioned [OF b] assms(2) by auto
    have "dialsOnly (hostEndpoint h) (fst x)" if "x \<in> set e1" for x
      using calls_replay [OF plain_claimHost c that] plain_dialsOnly by blast
    then have "provisionedBy Y mc sn h hm' (e1 @ e2)"
      using o(1) ranOn_before [of Y h _ _ _ e2 e1] unfolding provisionedBy_def by fastforce
    moreover have "machineHost hm hm' h (e1 @ e2)" using claimHost_host [OF c] o(2) by (auto simp: machineHost_def)
    ultimately show ?thesis by blast
  qed
  show ?thesis
    using assms reconcileDelete_keeps [of K L hm evs hm' res]
    by (auto simp: reconcileMachine_def reconcileNormal_def replay_bind [of "claimHost _ _ _"] replay_cases
        split: if_splits option.splits dest: claimHost_keeps intro: *)
qed

subsection \<open>Lemmas: deletion\<close>

lemma released_sel [simp]:
  "stClaimRef (hStatus (released K c h)) = None" "stPhase (hStatus (released K c h)) = HostPhasePending"
  "hMeta (released K c h) = hMeta h"
  by (simp_all add: released_def)

lemma released_condition:
  "conditionsLib K \<Longrightarrow> findCondition (stConditions (hStatus (released K c h))) (cdType c) =
     Some (c\<lparr>cdObservedGeneration := mGeneration (hMeta h)\<rparr>)"
  by (simp add: released_def hostCondition_def findCondition_setCondition)

lemma unlabelled_sel [simp]:
  "hLabel (unlabelled h) ClaimedByLabel = []" "hLabel (unlabelled h) ClusterNameLabel = []"
  "hName (unlabelled h) = hName h" "mResourceVersion (hMeta (unlabelled h)) = mResourceVersion (hMeta h)"
  "hSpec (unlabelled h) = hSpec h" "hStatus (unlabelled h) = hStatus h"
  by (simp_all add: unlabelled_def mapGet_delete)

text \<open>A reply after which the write is done, or the object is gone.\<close>

definition settled :: "resp \<Rightarrow> bool" where
  "settled r = (case r of RHost (Inr _) \<Rightarrow> True | RHost (Inl e) \<Rightarrow> ekind e = ErrNotFound | _ \<Rightarrow> False)"

lemma replay_releaseHost:
  assumes "replay (releaseHost K h rst) evs = Some (Inr u)"
  shows "\<exists>r1 h1 r2. evs = [(UpdateHost (unlabelled h), r1), (UpdateHostStatus (released K rst h1), r2)] \<and>
    settled r1 \<and> settled r2"
  using assms by (auto simp: releaseHost_def Let_def replay_run settled_def)

lemma connect_no_exec:
  "replay (connect L h) evs = Some r \<Longrightarrow> (Exec n cmd inp, x) \<notin> set evs"
  using connect_calls [OF replay_cutoff, of L h evs r "(Exec n cmd inp, x)"] by (auto simp: connectReq_def)

lemma resetRan_connect:
  assumes "replay (connect L h) e1 = Some r"
  shows "resetRan (e1 @ e2) \<longleftrightarrow> resetRan e2"
  using connect_no_exec [OF assms] unfolding resetRan_def by simp

lemma resetRan_close: "resetRan (evs @ [(CloseConn n, r)]) \<longleftrightarrow> resetRan evs"
  by (simp add: resetRan_def)

lemma replay_resetHost:
  assumes "replay (resetHost L hm h) evs = Some (h', c)"
  shows "hMeta h' = hMeta h \<and> cdType c = HostReset \<and>
    cdStatus c = (if resetRan evs then ConditionTrue else ConditionFalse)"
proof -
  obtain e1 e2 r where e: "evs = e1 @ e2" "replay (connect L h) e1 = Some r"
    "replay (case r of
       Inl e \<Rightarrow> Ret (h, resetCondition ConditionFalse ReasonHostUnreachable (truncateMsg (emsg e) conditionMessageLimit))
     | Inr (conn, h) \<Rightarrow>
         bind (Reset conn) (\<lambda>r.
         bind (closeConn (scConn conn)) (\<lambda>_. case r of
           Inl e \<Rightarrow> Ret (h, resetCondition ConditionFalse ReasonResetIncomplete (truncateMsg (emsg e) conditionMessageLimit))
         | Inr _ \<Rightarrow> Ret (h, resetCondition ConditionTrue ReasonResetSucceeded
                       (''kubeadm state removed for '' @ hmNamespace hm @ ''/'' @ hmName hm))))) e2 = Some (h', c)"
    using assms unfolding resetHost_def replay_bind [of "connect L h"] by blast
  show ?thesis
  proof (cases r)
    case (Inl er)
    then show ?thesis
      using e resetRan_connect [OF e(2), of "[]"] by (auto simp: resetCondition_def resetRan_def [of "[]"])
  next
    case (Inr cg)
    obtain conn g where cg: "cg = (conn, g)" by (cases cg)
    have g: "hMeta g = hMeta h"
      using e(2) Inr cg by (auto elim: replay_connect)
    obtain e3 x u where x: "e2 = e3 @ [(CloseConn (scConn conn), RUnit u)]" "replay (Reset conn) e3 = Some x"
      and c: "(h', c) = (case x of
           Inl e \<Rightarrow> (g, resetCondition ConditionFalse ReasonResetIncomplete (truncateMsg (emsg e) conditionMessageLimit))
         | Inr _ \<Rightarrow> (g, resetCondition ConditionTrue ReasonResetSucceeded
                       (''kubeadm state removed for '' @ hmNamespace hm @ ''/'' @ hmName hm)))"
      using e(3) Inr cg by (fastforce simp: replay_bind [of "Reset conn"] replay_run)
    have "resetRan evs \<longleftrightarrow> x = Inr ()"
      using replay_Reset [OF x(2)] e(1) x(1) resetRan_connect [OF e(2)] resetRan_close by simp
    then show ?thesis
      using c g by (cases x) (simp_all add: resetCondition_def)
  qed
qed

text \<open>What a machine leaves behind when it goes: its host released, and the outcome of the reset on record.\<close>

definition hostReleased :: "string \<Rightarrow> string \<Rightarrow> trace \<Rightarrow> bool" where
  "hostReleased ns ref evs \<longleftrightarrow> (\<exists>h g g' r1 r2 c.
     (GetHost (ns, ref), RHost (Inr h)) \<in> set evs \<and>
     (UpdateHost g, r1) \<in> set evs \<and> settled r1 \<and> hName g = hName h \<and>
     mResourceVersion (hMeta g) = mResourceVersion (hMeta h) \<and>
     hLabel g ClaimedByLabel = [] \<and> hLabel g ClusterNameLabel = [] \<and>
     (UpdateHostStatus g', r2) \<in> set evs \<and> settled r2 \<and>
     stClaimRef (hStatus g') = None \<and> stPhase (hStatus g') = HostPhasePending \<and>
     findCondition (stConditions (hStatus g')) HostReset = Some c \<and>
     cdStatus c = (if resetRan evs then ConditionTrue else ConditionFalse))"

lemma replay_reconcileDelete:
  assumes "conditionsLib K" "replay (reconcileDelete K L hm) evs = Some (hm', res)"
  shows "hm' = hm \<or>
    hmtHostRef (hmStatus hm') = None \<and>
    (hmtHostRef (hmStatus hm) = None \<or>
     (\<exists>ref e. hmtHostRef (hmStatus hm) = Some ref \<and> (GetHost (hmNamespace hm, ref), RHost (Inl e)) \<in> set evs \<and>
        ekind e = ErrNotFound) \<or>
     (\<exists>ref. hmtHostRef (hmStatus hm) = Some ref \<and> hostReleased (hmNamespace hm) ref evs))"
proof -
  have released: "hostReleased (hmNamespace hm) ref ((GetHost (hmNamespace hm, ref), RHost (Inr h)) # e1 @ e2)"
    if rs: "replay (resetHost L hm h) e1 = Some (g, c)" and rl: "replay (releaseHost K g c) e2 = Some (Inr u)"
    for ref h e1 e2 g c u
  proof -
    obtain r1 h1 r2 where r: "e2 = [(UpdateHost (unlabelled g), r1), (UpdateHostStatus (released K c h1), r2)]"
      "settled r1" "settled r2"
      using replay_releaseHost [OF rl] by blast
    note c = replay_resetHost [OF rs]
    let ?evs = "(GetHost (hmNamespace hm, ref), RHost (Inr h)) # e1 @ e2"
    have "resetRan ?evs \<longleftrightarrow> resetRan e1"
      using r(1) by (auto simp: resetRan_def)
    moreover have "findCondition (stConditions (hStatus (released K c h1))) HostReset =
        Some (c\<lparr>cdObservedGeneration := mGeneration (hMeta h1)\<rparr>)"
      using released_condition [OF assms(1), of c h1] c by simp
    ultimately show ?thesis
      unfolding hostReleased_def
      using c r by (intro exI [of _ h] exI [of _ "unlabelled g"] exI [of _ "released K c h1"] exI [of _ r1]
          exI [of _ r2] exI [of _ "c\<lparr>cdObservedGeneration := mGeneration (hMeta h1)\<rparr>"]) simp
  qed
  show ?thesis
    using assms(2)
    by (auto simp: reconcileDelete_def replay_run replay_bind [of "resetHost _ _ _"] replay_bind [of "releaseHost _ _ _"]
        dropMachineFinalizer_def intro: released split: option.splits)
qed

lemma hostReleased_extend:
  assumes "hostReleased ns ref body" "\<And>n cmd inp r. (Exec n cmd inp, r) \<notin> set pre \<union> set post"
  shows "hostReleased ns ref (pre @ body @ post)"
proof -
  have "resetRan (pre @ body @ post) = resetRan body"
    using assms(2) unfolding resetRan_def by auto
  then show ?thesis using assms(1) unfolding hostReleased_def by (simp only: set_append Un_iff) blast
qed

lemma reconcileNormal_meta:
  assumes "replay (reconcileNormal K Y L cl mc hm) evs = Some (hm', res)"
  shows "hmMeta hm' = hmMeta hm"
proof -
  have on: "replay (onPhase K g h script c conn st) e = Some (g', r) \<Longrightarrow> hmMeta g' = hmMeta g" for g h script c conn st e g' r
    by (auto simp: onPhase_def replay_bind split: phase.splits) (auto split: sum.split_asm)
  have step: "replay (bootstrapStep K g h script c conn) e = Some (g', r) \<Longrightarrow> hmMeta g' = hmMeta g" for g h script c conn e g' r
    by (auto simp: bootstrapStep_def replay_bind [of "Status _ _"] replay_cases dest: on)
  have run: "replay (runBootstrap K L g h script c) e = Some (g', r) \<Longrightarrow> hmMeta g' = hmMeta g" for g h script c e g' r
    by (auto simp: runBootstrap_def replay_bind [of "connect _ _"] replay_bind [of "bootstrapStep _ _ _ _ _ _"]
        replay_run dest: step)
  have boot: "replay (bootstrapOn K Y L mc sn g h) e = Some (g', r) \<Longrightarrow> hmMeta g' = hmMeta g" for sn g h e g' r
    by (auto simp: bootstrapOn_def Let_def replay_bind [of "bootstrapData _ _"] replay_cases dest!: run)
  show ?thesis
    using assms
    by (auto simp: reconcileNormal_def replay_bind [of "claimHost _ _ _"] replay_cases dest!: claimHost_keeps boot)
qed

lemma addMachineFinalizer_contains:
  "containsFinalizer K (mFinalizers (hmMeta hm)) MachineFinalizer \<Longrightarrow> addMachineFinalizer K hm = hm"
  by (simp add: addMachineFinalizer_def)

subsection \<open>Properties\<close>

text \<open>
  Which host a machine gets, exactly. A machine without a host reference that lists the
  pool gets, in inventory order, the first host whose recorded claim is this machine's,
  without any write; otherwise the first host that carries this machine's claim label, on
  which the claim is recorded again; otherwise the first claimable host for which both
  writes went through, every claimable host before it having been lost to a conflict. The
  reference to the host is set in the same step.
\<close>

theorem claimHost_choice:
  assumes "hmtHostRef (hmStatus hm) = None" and "selectorFor K (hmsHostSelector (hmSpec hm)) = Inr sel"
    and "replay (claimHost K cl hm) ((ListHosts (hmNamespace hm), RHosts (Inr items)) # evs) = Some (hm', Inr (Some h))"
  shows "hmtHostRef (hmStatus hm') = Some (hName h) \<and>
    (case find (holdsClaim hm) (SortHosts hName items) of
       Some g \<Rightarrow> h = g \<and> evs = []
     | None \<Rightarrow>
         (case find (labelledFor hm) (SortHosts hName items) of
            Some g \<Rightarrow> evs = [(UpdateHostStatus (claimed g hm), RHost (Inr h))]
          | None \<Rightarrow> wonHost sel cl hm (SortHosts hName items) evs h))"
  using assms
  by (auto simp: claimHost_def Let_def replay_run recordClaim_def dest!: replay_claimFree split: option.split)

text \<open>
  C34. A claim writes only to a host that is free. In any run of a claim, finished or cut
  off, an update of a host's labels is of a host of the list the claim has just read, as it
  was read and so under its resource version; that host had no claim, was not unhealthy, not
  being deleted, Available and matched the selector; and no host of the list was already
  this machine's, by claim or by label: a machine never takes a second host.
\<close>

theorem claimHost_only_free_hosts:
  assumes "cutoff (claimHost K cl hm) evs" "(UpdateHost x, r) \<in> set evs"
  shows "\<exists>sel items rest g. evs = (ListHosts (hmNamespace hm), RHosts (Inr items)) # rest \<and>
    selectorFor K (hmsHostSelector (hmSpec hm)) = Inr sel \<and> g \<in> set items \<and>
    x = labelled cl hm g \<and> mResourceVersion (hMeta x) = mResourceVersion (hMeta g) \<and>
    stClaimRef (hStatus g) = None \<and> \<not> hsUnhealthy (hSpec g) \<and> mDeletionTimestamp (hMeta g) = None \<and>
    stPhase (hStatus g) = HostPhaseAvailable \<and> sel (mLabels (hMeta g)) \<and>
    (\<forall>k\<in>set items. \<not> holdsClaim hm k \<and> \<not> labelledFor hm k)"
proof -
  obtain sel items rest g where "evs = (ListHosts (hmNamespace hm), RHosts (Inr items)) # rest"
    "selectorFor K (hmsHostSelector (hmSpec hm)) = Inr sel"
    "\<forall>k\<in>set items. \<not> holdsClaim hm k \<and> \<not> labelledFor hm k"
    "g \<in> set items" "claimable sel g" "x = labelled cl hm g"
    using cutoff_claimHost_update [OF assms] by blast
  then show ?thesis
    by (intro exI [of _ sel] exI [of _ items] exI [of _ rest] exI [of _ g]) (simp add: claimable_def)
qed

text \<open>
  C6. Bootstrap is started at most once for the same script on a host. In any run of a
  reconcile, finished or cut off, the launch command is sent only after this reconcile read,
  on the same connection, a recorded checksum that is not the checksum of the script it has
  uploaded there, with success, and that script is one rendered for a host with that host's identity.
\<close>

theorem Reconcile_launches_once:
  assumes "cutoff (ReconcileHostMachine K Y L key) evs" "(Exec n launchCommand None, x) \<in> set evs"
  shows "\<exists>h data script out err o2 e2.
    Render Y data \<lparr>optProviderID = ProviderID h, optHostAddress = hsAddress (hSpec h)\<rparr> = Inr script \<and>
    (Exec n (readCommand checksumPath) None, RExec (Done out err RunOk)) \<in> set evs \<and>
    trimSpace out \<noteq> Checksum script \<and>
    (Exec n (writeFileCommand scriptPath ''0700'') (Some script), RExec (Done o2 e2 RunOk)) \<in> set evs"
proof -
  have "\<not> readOnlyReq (fst (Exec n launchCommand None, x))" by (simp add: readOnlyReq_def)
  with assms obtain hm mc cl rest where r: "set rest \<subseteq> set evs" "(Exec n launchCommand None, x) \<in> set rest"
    "cutoff (bind (reconcileMachine K Y L cl mc hm) (\<lambda>(hm', res, err).
       bind (patchHostMachine hm hm') (\<lambda>p. case p of
         Inl e \<Rightarrow> Ret (res, case err of None \<Rightarrow> Some e | Some e' \<Rightarrow> Some e')
       | Inr _ \<Rightarrow> Ret (res, err)))) rest"
    by (elim cutoff_Reconcile) auto
  from r(3,2) have "launchesRendered Y n rest"
    by (rule cutoff_lift_first [where P = notLaunch])
      (auto intro!: calls_patchHostMachine intro: reconcileMachine_launch launchesRendered_mono split: sum.split prod.split)
  then have "launchesRendered Y n evs" using launchesRendered_mono r(1) by blast
  then show ?thesis
    unfolding launchesRendered_def launchesAfterCheck_def rendersFor_def by blast
qed

text \<open>
  C7. A machine is reported provisioned only when its script succeeded on its host. Whenever a
  reconcile turns \<open>provisioned\<close> to true, it has a host, the one the machine's status names; it read
  the bootstrap data from the secret that the owning Machine names and rendered it for that
  host; it dialled the address of that host and no other, and over that connection it read
  the checksum of the rendered script and the exit code 0 of its run; and the provider
  id it writes to the machine is that host's, the one the script gave to the kubelet.
\<close>

theorem Reconcile_provisioned_means_succeeded:
  assumes "replay (ReconcileHostMachine K Y L key) evs = Some out" "(PatchHostMachine hm hm', x) \<in> set evs"
    and "hmtProvisioned (hmStatus hm') = Some True" "hmtProvisioned (hmStatus hm) \<noteq> Some True"
  shows "\<exists>h mc sn s data script n o1 e1 o2 e2.
    machineHost hm hm' h evs \<and>
    (GetOwnerMachine (hmMeta hm), RMachine (Inr (Some mc))) \<in> set evs \<and> mcDataSecretName mc = Some sn \<and>
    (GetSecret (mNamespace (mcMeta mc), sn), RSecret (Inr s)) \<in> set evs \<and> map_of (scData s) ''value'' = Some data \<and>
    Render Y data \<lparr>optProviderID = ProviderID h, optHostAddress = hsAddress (hSpec h)\<rparr> = Inr script \<and>
    hmsProviderID (hmSpec hm') = Some (ProviderID h) \<and>
    (DialTCP (hostEndpoint h), RConn (Inr n)) \<in> set evs \<and> (\<forall>e\<in>set evs. dialsOnly (hostEndpoint h) (fst e)) \<and>
    (Exec n (readCommand checksumPath) None, RExec (Done o1 e1 RunOk)) \<in> set evs \<and>
    trimSpace o1 = Checksum script \<and>
    (Exec n (readCommand exitCodePath) None, RExec (Done o2 e2 RunOk)) \<in> set evs \<and>
    parseInt 64 (trimSpace o2) = Some 0"
  using assms(1,2)
proof (rule replay_ReconcileHostMachine)
  fix mc cl body res err p
  assume e: "evs = [(GetHostMachine key, RHostMachine (Inr hm)), (GetOwnerMachine (hmMeta hm), RMachine (Inr (Some mc))),
       (GetClusterFromMetadata (mcMeta mc), RCluster (Inr (Some cl))), (NewPatchHelper, RUnit (Inr ()))] @
       body @ [(PatchHostMachine hm hm', RUnit p)]"
    and r: "replay (reconcileMachine K Y L cl mc hm) body = Some (hm', res, err)"
  obtain sn h where b: "mcDataSecretName mc = Some sn" "provisionedBy Y mc sn h hm' body" "machineHost hm hm' h body"
    using reconcileMachine_provisioned [OF r] assms(3,4) by metis
  obtain s data script n where c: "(GetSecret (mNamespace (mcMeta mc), sn), RSecret (Inr s)) \<in> set body"
      "map_of (scData s) ''value'' = Some data" "ranOn Y h data script n body" "hmsProviderID (hmSpec hm') = Some (ProviderID h)"
    using b(2) unfolding provisionedBy_def by blast
  have "(GetOwnerMachine (hmMeta hm), RMachine (Inr (Some mc))) \<in> set evs" "machineHost hm hm' h evs"
    using e b(3) by (auto simp: machineHost_def)
  moreover have "\<forall>e\<in>set evs. dialsOnly (hostEndpoint h) (fst e)"
    using e c(3) by (auto simp: ranOn_def dialsOnly_def)
  moreover have "set body \<subseteq> set evs" using e by auto
  ultimately show ?thesis
    using b(1) c unfolding ranOn_def ranToSuccess_def rendersFor_def by (meson subsetD)
qed

text \<open>
  C8. A machine's finalizer goes only when its host was given back. When a reconcile takes
  the finalizer away, the machine is being deleted and either refers to no host, or its host
  was looked up and does not exist, or the host was released in this reconcile: labels
  removed under the resource version that was read, claim cleared, phase Pending so that only
  a new probe can offer it, both writes answered with success or with NotFound, and a Reset
  condition that is true exactly when the reset script ran to success on the host.
\<close>

theorem Reconcile_delete_releases:
  assumes "conditionsLib K" "finalizersLib K"
    and "replay (ReconcileHostMachine K Y L key) evs = Some out" "(PatchHostMachine hm hm', x) \<in> set evs"
    and "containsFinalizer K (mFinalizers (hmMeta hm)) MachineFinalizer"
    and "\<not> containsFinalizer K (mFinalizers (hmMeta hm')) MachineFinalizer"
  shows "mDeletionTimestamp (hmMeta hm) \<noteq> None \<and> hmtHostRef (hmStatus hm') = None \<and>
    (hmtHostRef (hmStatus hm) = None \<or>
     (\<exists>ref e. hmtHostRef (hmStatus hm) = Some ref \<and> (GetHost (hmNamespace hm, ref), RHost (Inl e)) \<in> set evs \<and>
        ekind e = ErrNotFound) \<or>
     (\<exists>ref. hmtHostRef (hmStatus hm) = Some ref \<and> hostReleased (hmNamespace hm) ref evs))"
  using assms(3,4)
proof (rule replay_ReconcileHostMachine)
  fix mc cl body res err p
  assume e: "evs = [(GetHostMachine key, RHostMachine (Inr hm)), (GetOwnerMachine (hmMeta hm), RMachine (Inr (Some mc))),
       (GetClusterFromMetadata (mcMeta mc), RCluster (Inr (Some cl))), (NewPatchHelper, RUnit (Inr ()))] @
       body @ [(PatchHostMachine hm hm', RUnit p)]" (is "_ = ?pre @ body @ ?post")
    and r: "replay (reconcileMachine K Y L cl mc hm) body = Some (hm', res, err)"
  have d: "mDeletionTimestamp (hmMeta hm) \<noteq> None"
    using r assms(5,6) reconcileNormal_meta [of K Y L cl mc hm body hm']
    by (auto simp: reconcileMachine_def addMachineFinalizer_contains split: if_splits)
  then have "replay (reconcileDelete K L hm) body = Some (hm', res, err)"
    using r by (auto simp: reconcileMachine_def)
  from replay_reconcileDelete [OF assms(1) this] have
    "hmtHostRef (hmStatus hm') = None \<and>
    (hmtHostRef (hmStatus hm) = None \<or>
     (\<exists>ref e. hmtHostRef (hmStatus hm) = Some ref \<and> (GetHost (hmNamespace hm, ref), RHost (Inl e)) \<in> set body \<and>
        ekind e = ErrNotFound) \<or>
     (\<exists>ref. hmtHostRef (hmStatus hm) = Some ref \<and> hostReleased (hmNamespace hm) ref body))"
    using assms(5,6) by auto
  moreover have "hostReleased (hmNamespace hm) ref body \<Longrightarrow> hostReleased (hmNamespace hm) ref evs" for ref
    unfolding e by (rule hostReleased_extend) auto
  moreover have "set body \<subseteq> set evs" using e by auto
  ultimately show ?thesis using d by blast
qed

text \<open>
  A paused machine is left alone: when the cluster that a reconcile read, or the
  machine itself, is paused, the run makes no call but the lookups that told it so.
\<close>

theorem Reconcile_paused_does_nothing:
  assumes "cutoff (ReconcileHostMachine K Y L key) evs" "isPausedMachine K cl hm"
    and "evs = [(GetHostMachine key, RHostMachine (Inr hm)), (GetOwnerMachine om, r),
      (GetClusterFromMetadata m, RCluster (Inr (Some cl)))] @ rest"
  shows "rest = []"
  using assms by (auto simp: ReconcileHostMachine_def cutoff_run)

text \<open>
  A failed patch of a machine is reported: when the API server refuses the patch at the
  end, the reconcile returns an error, so that the controller runtime tries again.
\<close>

theorem Reconcile_reports_patch_error:
  assumes "replay (ReconcileHostMachine K Y L key) evs = Some (res, err)"
    and "(PatchHostMachine hm hm', RUnit (Inl e)) \<in> set evs"
  shows "err \<noteq> None"
  using assms
proof (rule replay_ReconcileHostMachine)
  fix mc cl body res' err' p
  assume "evs = [(GetHostMachine key, RHostMachine (Inr hm)), (GetOwnerMachine (hmMeta hm), RMachine (Inr (Some mc))),
       (GetClusterFromMetadata (mcMeta mc), RCluster (Inr (Some cl))), (NewPatchHelper, RUnit (Inr ()))] @
       body @ [(PatchHostMachine hm hm', RUnit p)]"
    and "replay (reconcileMachine K Y L cl mc hm) body = Some (hm', res', err')"
    and o: "(res, err) = (res', case err' of Some e \<Rightarrow> Some e | None \<Rightarrow> (case p of Inl e \<Rightarrow> Some e | Inr _ \<Rightarrow> None))"
  then have "p = Inl e"
    using assms(2) calls_replay [OF notPatch_reconcileMachine, of K Y L cl mc hm body _ "(PatchHostMachine hm hm', RUnit (Inl e))"]
    by (auto simp: notPatch_def)
  then show ?thesis using o by (auto split: option.splits)
qed

text \<open>
  A claim that only the host remembers is not given back. A machine that is deleted
  while its status names no host, as after a claim that was interrupted before the final
  patch or after a move that dropped the status, loses its finalizer without any call that
  looks for its host or writes to one: a host claimed by it stays claimed.
\<close>

theorem Reconcile_delete_forgets_claim:
  assumes "finalizersLib K" "cutoff (ReconcileHostMachine K Y L key) evs"
    and "evs = (GetHostMachine key, RHostMachine (Inr hm)) # rest"
    and "mDeletionTimestamp (hmMeta hm) \<noteq> None" "hmtHostRef (hmStatus hm) = None"
  shows "\<forall>q r. (q, r) \<in> set evs \<longrightarrow>
    (case q of GetHost _ \<Rightarrow> False | ListHosts _ \<Rightarrow> False | UpdateHost _ \<Rightarrow> False | UpdateHostStatus _ \<Rightarrow> False
     | PatchHost _ _ \<Rightarrow> False
     | PatchHostMachine _ hm' \<Rightarrow> \<not> containsFinalizer K (mFinalizers (hmMeta hm')) MachineFinalizer
     | _ \<Rightarrow> True)"
  using assms
  by (auto simp: ReconcileHostMachine_def reconcileMachine_def reconcileDelete_def cutoff_run
      dropMachineFinalizer_def finalizersLib_def)

subsection \<open>Concrete runs\<close>

lemma replay_bindI: "replay p e1 = Some a \<Longrightarrow> replay (f a) e2 = Some b \<Longrightarrow> replay (bind p f) (e1 @ e2) = Some b"
  unfolding replay_bind by blast

lemma cutoff_bindI: "replay p e1 = Some a \<Longrightarrow> cutoff (f a) e2 \<Longrightarrow> cutoff (bind p f) (e1 @ e2)"
  unfolding cutoff_bind by blast

definition exampleHM :: hostMachine where
  "exampleHM = \<lparr>hmMeta = (exampleMeta ''m-1'')\<lparr>mFinalizers := [MachineFinalizer]\<rparr>,
     hmSpec = \<lparr>hmsProviderID = None, hmsHostSelector = None\<rparr>,
     hmStatus = \<lparr>hmtProvisioned = None, hmtHostRef = Some ''kg-worker-1'', hmtAddresses = [],
       hmtBootstrapDataChecksum = [], hmtConditions = []\<rparr>\<rparr>"

definition exampleMC :: machine where
  "exampleMC = \<lparr>mcMeta = exampleMeta ''machine-1'', mcDataSecretName = Some ''boot'',
     mcInfraKind = ''HostMachine'', mcInfraName = ''m-1''\<rparr>"

definition exampleCL :: cluster where
  "exampleCL = \<lparr>clMeta = exampleMeta ''lab'', clPaused = None, clInfraKind = ''HostCluster'', clInfraName = ''lab'',
     clInfraProvisioned = Some True\<rparr>"

definition exampleBootSecret :: secret where
  "exampleBootSecret = \<lparr>scMeta = exampleMeta ''boot'', scData = [(''value'', ''user-data'')]\<rparr>"

definition exampleScript :: string where
  "exampleScript = (case Render exampleLib ''user-data''
      \<lparr>optProviderID = ProviderID exampleClaimedHost, optHostAddress = hsAddress (hSpec exampleClaimedHost)\<rparr> of
        Inr s \<Rightarrow> s | Inl _ \<Rightarrow> [])"

lemma exampleScript_rendered:
  "Render exampleLib ''user-data''
     \<lparr>optProviderID = ProviderID exampleClaimedHost, optHostAddress = hsAddress (hSpec exampleClaimedHost)\<rparr> = Inr exampleScript"
proof -
  have "\<not> isl (Render exampleLib ''user-data''
     \<lparr>optProviderID = ProviderID exampleClaimedHost, optHostAddress = hsAddress (hSpec exampleClaimedHost)\<rparr>)"
    by code_simp
  then show ?thesis unfolding exampleScript_def by (auto split: sum.splits)
qed

definition exampleLookups :: "hostMachine \<Rightarrow> cluster \<Rightarrow> trace" where
  "exampleLookups hm cl = [(GetHostMachine (''default'', ''m-1''), RHostMachine (Inr hm)),
     (GetOwnerMachine (hmMeta hm), RMachine (Inr (Some exampleMC))),
     (GetClusterFromMetadata (mcMeta exampleMC), RCluster (Inr (Some cl)))]"

text \<open>From the claimed host to an open connection.\<close>

definition exampleReach :: trace where
  "exampleReach = [(GetHost (''default'', ''kg-worker-1''), RHost (Inr exampleClaimedHost))] @
     [(GetSecret (''default'', ''boot''), RSecret (Inr exampleBootSecret))] @
     exampleConnect 7 @ [(UserAuth 7 exampleAuth, RUnit (Inr ()))]"

definition examplePinned :: host where
  "examplePinned = pinKey exampleClaimedHost ''ssh-ed25519 AkeyZ''"

definition exampleReady :: hostMachine where
  "exampleReady =
     (let hm = machineCondition exampleK8s HostMachineHostClaimed ConditionTrue ReasonHostClaimed
            (''Claimed host '' @ hName exampleClaimedHost @ '' ('' @ hsAddress (hSpec exampleClaimedHost) @ '')'') exampleHM
      in hm\<lparr>hmSpec := (hmSpec hm)\<lparr>hmsProviderID := Some (ProviderID exampleClaimedHost)\<rparr>,
            hmStatus := (hmStatus hm)\<lparr>hmtAddresses := addressesFor exampleClaimedHost\<rparr>\<rparr>)"

lemma example_claim:
  "replay (claimHost exampleK8s exampleCL exampleHM)
     [(GetHost (''default'', ''kg-worker-1''), RHost (Inr exampleClaimedHost))] = Some (exampleHM, Inr (Some exampleClaimedHost))"
  by code_simp

lemma example_data:
  "replay (bootstrapData (mNamespace (mcMeta exampleMC)) ''boot'')
     [(GetSecret (''default'', ''boot''), RSecret (Inr exampleBootSecret))] = Some (Inr ''user-data'')"
  by code_simp

lemma example_connect:
  "replay (connect exampleSshLib exampleClaimedHost) (exampleConnect 7 @ [(UserAuth 7 exampleAuth, RUnit (Inr ()))]) =
     Some (Inr (exampleClient, examplePinned))"
  by code_simp

text \<open>The run of a reconcile whose bootstrap step makes the given calls.\<close>

lemma example_reconcile:
  assumes "replay (bootstrapStep exampleK8s exampleReady examplePinned exampleScript (Checksum exampleScript) exampleClient) evs
    = Some out"
  shows "replay (reconcileMachine exampleK8s exampleLib exampleSshLib exampleCL exampleMC exampleHM)
    (exampleReach @ evs @ [(CloseConn 7, RUnit (Inr ()))]) = Some out"
proof -
  have run: "replay (runBootstrap exampleK8s exampleSshLib exampleReady exampleClaimedHost exampleScript (Checksum exampleScript))
    ((exampleConnect 7 @ [(UserAuth 7 exampleAuth, RUnit (Inr ()))]) @ evs @ [(CloseConn 7, RUnit (Inr ()))]) = Some out"
    unfolding runBootstrap_def
    by (rule replay_bindI [OF example_connect])
      (simp, rule replay_bindI [OF assms], simp add: replay_steps exampleClient_def)
  have on: "replay (bootstrapOn exampleK8s exampleLib exampleSshLib exampleMC ''boot'' exampleHM exampleClaimedHost)
    ([(GetSecret (''default'', ''boot''), RSecret (Inr exampleBootSecret))] @
     (exampleConnect 7 @ [(UserAuth 7 exampleAuth, RUnit (Inr ()))]) @ evs @ [(CloseConn 7, RUnit (Inr ()))]) = Some out"
    unfolding bootstrapOn_def Let_def
    by (rule replay_bindI [OF example_data]) (use run in \<open>simp add: exampleScript_rendered exampleReady_def Let_def\<close>)
  have g: "\<not> (\<not> ptrTo (clInfraProvisioned exampleCL))" "mcDataSecretName exampleMC = Some ''boot''"
    "mDeletionTimestamp (hmMeta exampleHM) = None" "addMachineFinalizer exampleK8s exampleHM = exampleHM"
    by code_simp+
  show ?thesis
    unfolding reconcileMachine_def reconcileNormal_def exampleReach_def append_assoc
    using g by simp (rule replay_bindI [OF example_claim, simplified], use on in simp)
qed

text \<open>A claim from a pool of two free hosts, read in the order of the cache.\<close>

definition exampleNewHM :: hostMachine where
  "exampleNewHM = setHostRef None exampleHM"

definition exampleFreeHost :: "string \<Rightarrow> host" where
  "exampleFreeHost name = exampleTofuHost\<lparr>hMeta := exampleMeta name\<rparr>"

definition exampleWon :: host where
  "exampleWon = labelled exampleCL exampleNewHM (exampleFreeHost ''kg-worker-2'')"

definition exampleClaimRun :: trace where
  "exampleClaimRun = [(UpdateHost exampleWon, RHost (Inr exampleWon)),
     (UpdateHostStatus (claimed exampleWon exampleNewHM), RHost (Inr (claimed exampleWon exampleNewHM)))]"

abbreviation examplePool :: "host list" where
  "examplePool \<equiv> [exampleFreeHost ''kg-worker-10'', exampleFreeHost ''kg-worker-2'']"

lemma exampleClaim_replay:
  "replay (claimHost exampleK8s exampleCL exampleNewHM)
     ((ListHosts (hmNamespace exampleNewHM), RHosts (Inr examplePool)) # exampleClaimRun) =
   Some (setHostRef (Some ''kg-worker-2'') exampleNewHM, Inr (Some (claimed exampleWon exampleNewHM)))"
  by code_simp

theorem claimHost_choice_witness:
  "wonHost (\<lambda>_. True) exampleCL exampleNewHM (SortHosts hName examplePool) exampleClaimRun
     (claimed exampleWon exampleNewHM)"
proof -
  have s: "selectorFor exampleK8s (hmsHostSelector (hmSpec exampleNewHM)) = Inr (\<lambda>_. True)"
    by (simp add: selectorFor_def exampleNewHM_def exampleHM_def)
  have n: "hmtHostRef (hmStatus exampleNewHM) = None" by (simp add: exampleNewHM_def)
  have f: "find (holdsClaim exampleNewHM) (SortHosts hName examplePool) = None"
    "find (labelledFor exampleNewHM) (SortHosts hName examplePool) = None"
    by code_simp+
  show ?thesis
    using claimHost_choice [OF n s exampleClaim_replay] unfolding f option.case by (elim conjE)
qed

theorem claimHost_only_free_hosts_witness:
  "\<exists>g\<in>set examplePool. exampleWon = labelled exampleCL exampleNewHM g \<and> stClaimRef (hStatus g) = None"
proof -
  have m: "(UpdateHost exampleWon, RHost (Inr exampleWon)) \<in>
      set ((ListHosts (hmNamespace exampleNewHM), RHosts (Inr examplePool)) # exampleClaimRun)"
    by (simp add: exampleClaimRun_def)
  show ?thesis
    using claimHost_only_free_hosts [OF replay_cutoff [OF exampleClaim_replay] m] by auto
qed

text \<open>A reconcile that starts the run.\<close>

definition exampleStartRun :: trace where
  "exampleStartRun = (Exec 7 (readCommand checksumPath) None, RExec (Done [] [] RunOk)) # examplePreflight @
     [(Exec 7 prepareCommand None, RExec (Done [] [] RunOk)),
      (Exec 7 (writeFileCommand scriptPath ''0700'') (Some exampleScript), RExec (Done [] [] RunOk)),
      (Exec 7 (writeFileCommand runnerPath ''0700'') (Some (runnerScript (Checksum exampleScript))), RExec (Done [] [] RunOk)),
      (Exec 7 (writeFileCommand checksumPath ''0600'') (Some (Checksum exampleScript)), RExec (Done [] [] RunOk)),
      (Exec 7 launchCommand None, RExec (Done [] [] RunOk))]"

lemma example_preflight: "replay (preflight exampleClient) examplePreflight = Some (Inr ())"
  by code_simp

lemma exampleStartRun_replay:
  "\<exists>hm'. replay (bootstrapStep exampleK8s exampleReady examplePinned exampleScript (Checksum exampleScript) exampleClient)
     exampleStartRun = Some (hm', requeueAfterStart, None)"
proof -
  have steps: "replay (startSteps exampleClient exampleScript cs)
     [(Exec 7 prepareCommand None, RExec (Done [] [] RunOk)),
      (Exec 7 (writeFileCommand scriptPath ''0700'') (Some exampleScript), RExec (Done [] [] RunOk)),
      (Exec 7 (writeFileCommand runnerPath ''0700'') (Some (runnerScript cs)), RExec (Done [] [] RunOk)),
      (Exec 7 (writeFileCommand checksumPath ''0600'') (Some cs), RExec (Done [] [] RunOk)),
      (Exec 7 launchCommand None, RExec (Done [] [] RunOk))] = Some (Inr ())" for cs
    by (simp add: startSteps_def replay_ssh exampleClient_def runReply_def writeReply_def)
  have start: "replay (Start exampleClient exampleScript cs) (examplePreflight @
     [(Exec 7 prepareCommand None, RExec (Done [] [] RunOk)),
      (Exec 7 (writeFileCommand scriptPath ''0700'') (Some exampleScript), RExec (Done [] [] RunOk)),
      (Exec 7 (writeFileCommand runnerPath ''0700'') (Some (runnerScript cs)), RExec (Done [] [] RunOk)),
      (Exec 7 (writeFileCommand checksumPath ''0600'') (Some cs), RExec (Done [] [] RunOk)),
      (Exec 7 launchCommand None, RExec (Done [] [] RunOk))]) = Some (Inr ())" for cs
    unfolding Start_def bindE_def by (rule replay_bindI [OF example_preflight]) (simp add: steps)
  have status: "replay (Status exampleClient cs) [(Exec 7 (readCommand checksumPath) None, RExec (Done [] [] RunOk))] =
      Some (Inr (plainState PhaseIdle []))" for cs
    unfolding Status_def readFile_Run by (simp add: replay_ssh exampleClient_def runReply_def)
  let ?starts = "examplePreflight @
     [(Exec 7 prepareCommand None, RExec (Done [] [] RunOk)),
      (Exec 7 (writeFileCommand scriptPath ''0700'') (Some exampleScript), RExec (Done [] [] RunOk)),
      (Exec 7 (writeFileCommand runnerPath ''0700'') (Some (runnerScript (Checksum exampleScript))), RExec (Done [] [] RunOk)),
      (Exec 7 (writeFileCommand checksumPath ''0600'') (Some (Checksum exampleScript)), RExec (Done [] [] RunOk)),
      (Exec 7 launchCommand None, RExec (Done [] [] RunOk))]"
  have "\<exists>hm'. replay (onPhase exampleK8s exampleReady examplePinned exampleScript (Checksum exampleScript) exampleClient
      (plainState PhaseIdle [])) (?starts @ []) = Some (hm', requeueAfterStart, None)"
    unfolding onPhase_def plainState_def state.simps phase.case
    by (rule exI, rule replay_bindI [OF start]) simp
  then obtain hm' where on: "replay (onPhase exampleK8s exampleReady examplePinned exampleScript (Checksum exampleScript)
      exampleClient (plainState PhaseIdle [])) (?starts @ []) = Some (hm', requeueAfterStart, None)" by blast
  have "replay (bootstrapStep exampleK8s exampleReady examplePinned exampleScript (Checksum exampleScript) exampleClient)
     ([(Exec 7 (readCommand checksumPath) None, RExec (Done [] [] RunOk))] @ ?starts @ []) = Some (hm', requeueAfterStart, None)"
    unfolding bootstrapStep_def by (rule replay_bindI [OF status]) (simp only: sum.case on)
  then show ?thesis unfolding exampleStartRun_def by simp
qed

lemma example_whole:
  assumes "replay (reconcileMachine exampleK8s exampleLib exampleSshLib exampleCL exampleMC hm) body = Some (hm', res, err)"
  shows "replay (ReconcileHostMachine exampleK8s exampleLib exampleSshLib (''default'', ''m-1''))
    (exampleLookups hm exampleCL @ (NewPatchHelper, RUnit (Inr ())) # body @ [(PatchHostMachine hm hm', RUnit (Inr ()))]) =
    Some (res, err)"
proof -
  have "replay (bind (reconcileMachine exampleK8s exampleLib exampleSshLib exampleCL exampleMC hm) (\<lambda>(hm', res, err).
       bind (patchHostMachine hm hm') (\<lambda>p. case p of
         Inl e \<Rightarrow> Ret (res, case err of None \<Rightarrow> Some e | Some e' \<Rightarrow> Some e')
       | Inr _ \<Rightarrow> Ret (res, err)))) (body @ [(PatchHostMachine hm hm', RUnit (Inr ()))]) = Some (res, err)"
    by (rule replay_bindI [OF assms]) (simp add: replay_steps)
  moreover have "\<not> isPausedMachine exampleK8s exampleCL hm"
    by (simp add: exampleK8s_def exampleCL_def)
  ultimately show ?thesis
    by (simp add: ReconcileHostMachine_def exampleLookups_def replay_run)
qed

theorem Reconcile_launches_once_witness:
  "\<exists>evs h data script out err o2 e2.
    cutoff (ReconcileHostMachine exampleK8s exampleLib exampleSshLib (''default'', ''m-1'')) evs \<and>
    (Exec 7 launchCommand None, RExec (Done [] [] RunOk)) \<in> set evs \<and>
    Render exampleLib data \<lparr>optProviderID = ProviderID h, optHostAddress = hsAddress (hSpec h)\<rparr> = Inr script \<and>
    (Exec 7 (readCommand checksumPath) None, RExec (Done out err RunOk)) \<in> set evs \<and>
    trimSpace out \<noteq> Checksum script \<and>
    (Exec 7 (writeFileCommand scriptPath ''0700'') (Some script), RExec (Done o2 e2 RunOk)) \<in> set evs"
proof -
  obtain hm' where "replay (bootstrapStep exampleK8s exampleReady examplePinned exampleScript (Checksum exampleScript)
     exampleClient) exampleStartRun = Some (hm', requeueAfterStart, None)"
    using exampleStartRun_replay by blast
  note c = replay_cutoff [OF example_whole [OF example_reconcile [OF this]]]
  have m: "(Exec 7 launchCommand None, RExec (Done [] [] RunOk)) \<in> set (exampleLookups exampleHM exampleCL @
      (NewPatchHelper, RUnit (Inr ())) # (exampleReach @ exampleStartRun @ [(CloseConn 7, RUnit (Inr ()))]) @
      [(PatchHostMachine exampleHM hm', RUnit (Inr ()))])"
    by (simp add: exampleStartRun_def)
  show ?thesis
    using Reconcile_launches_once [OF c m] c m by blast
qed

text \<open>A reconcile that finds the run finished.\<close>

definition exampleDoneRun :: trace where
  "exampleDoneRun = [(Exec 7 (readCommand checksumPath) None, RExec (Done (Checksum exampleScript) [] RunOk)),
     (Exec 7 (readCommand exitCodePath) None, RExec (Done ''0'' [] RunOk))] @
     [(UpdateHostStatus (setPhase HostPhaseProvisioned examplePinned), RHost (Inr examplePinned))]"

lemma exampleDoneRun_replay:
  "replay (bootstrapStep exampleK8s exampleReady examplePinned exampleScript (Checksum exampleScript) exampleClient)
     exampleDoneRun = Some (bootstrapped exampleK8s (Checksum exampleScript) exampleReady, 0, None)"
proof -
  have z: "parseInt 64 ''0'' = Some 0" "trimSpace ''0'' = ''0''" by code_simp+
  have status: "replay (Status exampleClient (Checksum exampleScript))
     [(Exec 7 (readCommand checksumPath) None, RExec (Done (Checksum exampleScript) [] RunOk)),
      (Exec 7 (readCommand exitCodePath) None, RExec (Done ''0'' [] RunOk))] =
      Some (Inr (plainState PhaseSucceeded (Checksum exampleScript)))"
    unfolding Status_def readFile_Run
    by (simp add: replay_ssh exampleClient_def runReply_def z Checksum_trim)
  have p: "stPhase (hStatus examplePinned) = HostPhaseClaimed" by code_simp
  show ?thesis
    unfolding exampleDoneRun_def bootstrapStep_def
    by (rule replay_bindI [OF status])
      (simp add: onPhase_def plainState_def markHostProvisioned_def p bindE_def bind_assoc replay_steps)
qed

theorem Reconcile_provisioned_means_succeeded_witness:
  "\<exists>evs hm' h. replay (ReconcileHostMachine exampleK8s exampleLib exampleSshLib (''default'', ''m-1'')) evs = Some (0, None) \<and>
     (PatchHostMachine exampleHM hm', RUnit (Inr ())) \<in> set evs \<and>
     hmtProvisioned (hmStatus hm') = Some True \<and> hmsProviderID (hmSpec hm') = Some (ProviderID h)"
proof -
  let ?hm = "bootstrapped exampleK8s (Checksum exampleScript) exampleReady"
  let ?evs = "exampleLookups exampleHM exampleCL @ (NewPatchHelper, RUnit (Inr ())) #
      (exampleReach @ exampleDoneRun @ [(CloseConn 7, RUnit (Inr ()))]) @ [(PatchHostMachine exampleHM ?hm, RUnit (Inr ()))]"
  note r = example_whole [OF example_reconcile [OF exampleDoneRun_replay]]
  have m: "(PatchHostMachine exampleHM ?hm, RUnit (Inr ())) \<in> set ?evs" by simp
  have p: "hmtProvisioned (hmStatus ?hm) = Some True" "hmtProvisioned (hmStatus exampleHM) \<noteq> Some True"
    by (simp_all add: exampleHM_def)
  show ?thesis
    using Reconcile_provisioned_means_succeeded [OF r m p] r m p(1) by blast
qed

text \<open>A machine that goes: its host is reset and released.\<close>

definition exampleGoneHM :: "string option \<Rightarrow> hostMachine" where
  "exampleGoneHM ref = (setHostRef ref exampleHM)\<lparr>hmMeta := (hmMeta exampleHM)\<lparr>mDeletionTimestamp := Some 60\<rparr>\<rparr>"

definition exampleReset :: condition where
  "exampleReset = resetCondition ConditionTrue ReasonResetSucceeded ''kubeadm state removed for default/m-1''"

definition exampleDeleteRun :: trace where
  "exampleDeleteRun = [(GetHost (''default'', ''kg-worker-1''), RHost (Inr exampleClaimedHost))] @
     exampleConnect 7 @
     [(UserAuth 7 exampleAuth, RUnit (Inr ())),
      (Exec 7 (writeFileCommand resetPath ''0700'') (Some resetScript), RExec (Done [] [] RunOk)),
      (Exec 7 resetCommand None, RExec (Done [] [] RunOk)),
      (CloseConn 7, RUnit (Inr ())),
      (UpdateHost (unlabelled examplePinned), RHost (Inr (unlabelled examplePinned))),
      (UpdateHostStatus (released exampleK8s exampleReset (unlabelled examplePinned)), RHost (Inr examplePinned))]"

lemma exampleDelete_replay:
  "replay (reconcileMachine exampleK8s exampleLib exampleSshLib exampleCL exampleMC (exampleGoneHM (Some ''kg-worker-1'')))
     exampleDeleteRun =
   Some (dropMachineFinalizer exampleK8s (setHostRef None (exampleGoneHM (Some ''kg-worker-1''))), 0, None)"
  by code_simp

theorem Reconcile_delete_releases_witness:
  "\<exists>evs. replay (ReconcileHostMachine exampleK8s exampleLib exampleSshLib (''default'', ''m-1'')) evs = Some (0, None) \<and>
     hostReleased ''default'' ''kg-worker-1'' evs"
proof -
  let ?hm = "exampleGoneHM (Some ''kg-worker-1'')"
  let ?hm' = "dropMachineFinalizer exampleK8s (setHostRef None ?hm)"
  let ?evs = "exampleLookups ?hm exampleCL @ (NewPatchHelper, RUnit (Inr ())) # exampleDeleteRun @
      [(PatchHostMachine ?hm ?hm', RUnit (Inr ()))]"
  note r = example_whole [OF exampleDelete_replay]
  have m: "(PatchHostMachine ?hm ?hm', RUnit (Inr ())) \<in> set ?evs" by simp
  have f: "containsFinalizer exampleK8s (mFinalizers (hmMeta ?hm)) MachineFinalizer"
    "\<not> containsFinalizer exampleK8s (mFinalizers (hmMeta ?hm')) MachineFinalizer"
    by code_simp+
  have ref: "hmtHostRef (hmStatus ?hm) = Some ''kg-worker-1''" "hmNamespace ?hm = ''default''"
    by (simp_all add: exampleGoneHM_def exampleHM_def exampleMeta_def)
  have "(GetHost (''default'', ''kg-worker-1''), RHost (Inl e)) \<notin> set ?evs" for e
    by (simp add: exampleLookups_def exampleDeleteRun_def exampleConnect_def)
  then show ?thesis
    using Reconcile_delete_releases [OF exampleK8s_ok r m f] r unfolding ref by auto
qed

theorem Reconcile_paused_does_nothing_witness:
  "cutoff (ReconcileHostMachine exampleK8s exampleLib exampleSshLib (''default'', ''m-1''))
     (exampleLookups exampleHM (exampleCL\<lparr>clPaused := Some True\<rparr>) @ []) \<and> ([] :: trace) = []"
proof -
  let ?cl = "exampleCL\<lparr>clPaused := Some True\<rparr>"
  have c: "cutoff (ReconcileHostMachine exampleK8s exampleLib exampleSshLib (''default'', ''m-1''))
     (exampleLookups exampleHM ?cl @ [])"
    by code_simp
  have p: "isPausedMachine exampleK8s ?cl exampleHM" by (simp add: exampleK8s_def)
  show ?thesis
    using Reconcile_paused_does_nothing [OF c p, of _ _ _ "[]"] c by (simp add: exampleLookups_def)
qed

lemma exampleForget_replay:
  "replay (reconcileMachine exampleK8s exampleLib exampleSshLib exampleCL exampleMC (exampleGoneHM None)) [] =
   Some (dropMachineFinalizer exampleK8s (exampleGoneHM None), 0, None)"
  by code_simp

theorem Reconcile_delete_forgets_claim_witness:
  "\<exists>evs. replay (ReconcileHostMachine exampleK8s exampleLib exampleSshLib (''default'', ''m-1'')) evs = Some (0, None) \<and>
     (\<forall>h r. (UpdateHost h, r) \<notin> set evs)"
proof -
  note r = example_whole [OF exampleForget_replay]
  have d: "mDeletionTimestamp (hmMeta (exampleGoneHM None)) \<noteq> None" "hmtHostRef (hmStatus (exampleGoneHM None)) = None"
    by (simp_all add: exampleGoneHM_def)
  show ?thesis
    using Reconcile_delete_forgets_claim [OF exampleK8s_ok(2) replay_cutoff [OF r] _ d] r
    by (fastforce simp: exampleLookups_def)
qed

theorem Reconcile_reports_patch_error_witness:
  "\<exists>evs res err. replay (ReconcileHostMachine exampleK8s exampleLib exampleSshLib (''default'', ''m-1'')) evs = Some (res, err) \<and>
     err \<noteq> None"
proof -
  let ?hm = "exampleGoneHM None"
  let ?hm' = "dropMachineFinalizer exampleK8s ?hm"
  let ?evs = "exampleLookups ?hm exampleCL @ [(NewPatchHelper, RUnit (Inr ())),
     (PatchHostMachine ?hm ?hm', RUnit (Inl (errorf ''conflict'')))]"
  have r: "replay (ReconcileHostMachine exampleK8s exampleLib exampleSshLib (''default'', ''m-1'')) ?evs =
      Some (0, Some (errorf ''conflict''))"
    by code_simp
  have m: "(PatchHostMachine ?hm ?hm', RUnit (Inl (errorf ''conflict''))) \<in> set ?evs" by simp
  show ?thesis
    using Reconcile_reports_patch_error [OF r m] r by blast
qed

end
