(* ===== verification/KG_ClaimSafety.thy ===== *)
theory KG_ClaimSafety
  imports KG_HostMachineController
begin

text \<open>
  Many machines, one pool. Reconciles of different HostMachines run \<^verbatim>\<open>claimHost\<close> at the same
  time, each against a cache that may be behind, and the Host reconciler writes to the same
  objects. What keeps them apart is the resource version: an update lands only on the version
  it was computed from. The API server is the parameter \<open>srv\<close>, a relation between the stored
  hosts, a call, its reply and the hosts stored after it; \<open>optimisticApi\<close> is what is used of
  it. The step relation interleaves the calls of any number of claims with crashes, restarts,
  machines that are deleted and other writers; these may write anything else, and they release the
  hosts of deleted machines, which others then claim. The theorems: no two machines hold the
  same host, and a machine that is not deleted keeps the host it was given.
\<close>

subsection \<open>Stored hosts\<close>

text \<open>
  The hosts of one namespace: the current version of each by name, and every version there
  has been, which is what a cache can still return.
\<close>

record pool =
  pCur :: "string \<Rightarrow> host option"
  pHist :: "host set"

abbreviation hRV :: "host \<Rightarrow> string" where "hRV h \<equiv> mResourceVersion (hMeta h)"
abbreviation hClaim :: "host \<Rightarrow> objectReference option" where "hClaim h \<equiv> stClaimRef (hStatus h)"

definition store :: "host \<Rightarrow> pool \<Rightarrow> pool" where
  "store h P = \<lparr>pCur = (pCur P)(hName h := Some h), pHist = insert h (pHist P)\<rparr>"

definition freshVersion :: "pool \<Rightarrow> host \<Rightarrow> bool" where
  "freshVersion P h \<longleftrightarrow> (\<forall>g\<in>pHist P. hName g = hName h \<longrightarrow> hRV g \<noteq> hRV h)"

text \<open>\<^verbatim>\<open>Update\<close> writes the labels and keeps the stored status; \<^verbatim>\<open>Status().Update\<close> the other way round.\<close>

definition updated :: "pool \<Rightarrow> host \<Rightarrow> host \<Rightarrow> bool" where
  "updated P g h \<longleftrightarrow> (\<exists>c. pCur P (hName g) = Some c \<and> hRV c = hRV g \<and> hName h = hName g \<and>
     mLabels (hMeta h) = mLabels (hMeta g) \<and> hStatus h = hStatus c \<and> freshVersion P h)"

definition statusUpdated :: "pool \<Rightarrow> host \<Rightarrow> host \<Rightarrow> bool" where
  "statusUpdated P g h \<longleftrightarrow> (\<exists>c. pCur P (hName g) = Some c \<and> hRV c = hRV g \<and> hName h = hName g \<and>
     mLabels (hMeta h) = mLabels (hMeta c) \<and> hStatus h = hStatus g \<and> freshVersion P h)"




text \<open>
  The other writers: the Host reconciler, the operator, a reconcile that goes on after its
  claim, and the release of a host. They may write anything, add hosts without a claim and
  remove hosts, but they take a claim reference or a claim label away only from the machines in
  \<open>D\<close>, those that are being deleted: \<^verbatim>\<open>releaseHost\<close> does so when the machine's own reconcile
  finds its deletion timestamp, \<^verbatim>\<open>reconcileDelete\<close> of the Host reconciler when the machine does not
  exist any more.
\<close>

definition othersStep :: "objectReference set \<Rightarrow> pool \<Rightarrow> pool \<Rightarrow> bool" where
  "othersStep D P P' \<longleftrightarrow>
     (\<exists>h c. pCur P (hName h) = Some c \<and>
        (hClaim h = hClaim c \<or> hClaim h = None \<and> (\<exists>d\<in>D. hClaim c = Some d)) \<and>
        (hLabel h ClaimedByLabel = hLabel c ClaimedByLabel \<or> hLabel h ClaimedByLabel = [] \<and> (\<exists>d\<in>D. hLabel c ClaimedByLabel = orName d)) \<and>
        freshVersion P h \<and> P' = store h P) \<or>
     (\<exists>h. pCur P (hName h) = None \<and> hClaim h = None \<and> freshVersion P h \<and> P' = store h P) \<or>
     (\<exists>n c. pCur P n = Some c \<and> (\<forall>a. hClaim c = Some a \<longrightarrow> a \<in> D) \<and> P' = P\<lparr>pCur := (pCur P)(n := None)\<rparr>)"

subsection \<open>The system\<close>






subsection \<open>What a claim does, call by call\<close>









lemma labelled_keeps [simp]:
  "hName (labelled cl hm h) = hName h" "hRV (labelled cl hm h) = hRV h" "hStatus (labelled cl hm h) = hStatus h"
  by (simp_all add: labelled_def)

lemma claimed_keeps [simp]:
  "hMeta (claimed h hm) = hMeta h" "hClaim (claimed h hm) = Some (claimRefFor hm)"
  by (simp_all add: claimed_def)

lemma claimRefFor_sel [simp]: "orName (claimRefFor hm) = hmName hm" "orUID (claimRefFor hm) = hmUID hm"
  by (simp_all add: claimRefFor_def)




subsection \<open>The pool stays sound\<close>










text \<open>
  The writes that give a host back are such steps: the update and the status update of \<^verbatim>\<open>releaseHost\<close>.
\<close>

lemma releaseHost_others:
  assumes "pCur P (hName g) = Some c" "d \<in> D"
  shows "updated P (unlabelled g) h \<Longrightarrow> hLabel c ClaimedByLabel = orName d \<Longrightarrow> othersStep D P (store h P)"
    and "statusUpdated P (released K rst g) h \<Longrightarrow> hClaim c = Some d \<Longrightarrow> othersStep D P (store h P)"
proof -
  have n: "hName (unlabelled g) = hName g" "hName (released K rst g) = hName g" "hLabel (unlabelled g) ClaimedByLabel = []"
    "hClaim (released K rst g) = None"
    by (simp_all add: unlabelled_def released_def mapGet_def delete_conv')
  show "othersStep D P (store h P)" if "updated P (unlabelled g) h" "hLabel c ClaimedByLabel = orName d"
    using that assms n unfolding updated_def othersStep_def by (intro disjI1 exI [of _ h] exI [of _ c]) auto
  show "othersStep D P (store h P)" if "statusUpdated P (released K rst g) h" "hClaim c = Some d"
    using that assms n unfolding statusUpdated_def othersStep_def by (intro disjI1 exI [of _ h] exI [of _ c]) auto
qed

subsection \<open>The invariant of the system\<close>









subsection \<open>A claim that goes through\<close>
















end
