(* ===== verification/KG_HostClusterController.thy ===== *)
theory KG_HostClusterController
  imports KG_HostController
begin

text \<open>
  \<^verbatim>\<open>internal/controller/hostcluster_controller.go\<close>: the reconciler that reports the cluster
  infrastructure provisioned once a control plane endpoint is set, which is what the machine
  reconciler waits for. The theorem characterises the object it writes on every branch.
\<close>

definition clusterReady ::
  "k8sLib \<Rightarrow> bool \<Rightarrow> conditionStatus \<Rightarrow> reason \<Rightarrow> string \<Rightarrow> hostCluster \<Rightarrow> hostCluster" where
  "clusterReady K provisioned s r m hc = hc\<lparr>hcProvisioned := Some provisioned,
     hcConditions := setCondition K (hcConditions hc) Ready s r m (mGeneration (hcMeta hc))\<rparr>"

definition missingEndpointMessage :: string where
  "missingEndpointMessage = ''spec.controlPlaneEndpoint must be set: ''
     @ ''kg does not allocate one for pre-provisioned hosts''"

definition clusterFinalizers :: "(string list \<Rightarrow> string list) \<Rightarrow> hostCluster \<Rightarrow> hostCluster" where
  "clusterFinalizers f hc = hc\<lparr>hcMeta := (hcMeta hc)\<lparr>mFinalizers := f (mFinalizers (hcMeta hc))\<rparr>\<rparr>"

text \<open>The body of \<^verbatim>\<open>Reconcile\<close>, between the patch helper and the deferred patch. It makes no call.\<close>

definition reconcileCluster :: "k8sLib \<Rightarrow> hostCluster \<Rightarrow> hostCluster" where
  "reconcileCluster K hc =
     (if mDeletionTimestamp (hcMeta hc) \<noteq> None
      then clusterFinalizers (\<lambda>fs. removeFinalizer K fs ClusterFinalizer) hc
      else
        let hc = (if \<not> containsFinalizer K (mFinalizers (hcMeta hc)) ClusterFinalizer
                  then clusterFinalizers (\<lambda>fs. addFinalizer K fs ClusterFinalizer) hc else hc)
        in if hcEndpointHost hc = [] \<or> hcEndpointPort hc = 0
           then clusterReady K False ConditionFalse MissingControlPlaneEndpoint missingEndpointMessage hc
           else clusterReady K True ConditionTrue ControlPlaneEndpointSet ''Control plane endpoint is set'' hc)"

text \<open>The result is named here, so an error of the deferred patch is what \<^verbatim>\<open>Reconcile\<close> returns.\<close>

definition ReconcileHostCluster :: "k8sLib \<Rightarrow> objectKey \<Rightarrow> ctrlResult prog" where
  "ReconcileHostCluster K key =
     bind (getHostCluster key) (\<lambda>r. case r of
       Inl e \<Rightarrow> Ret (0, ignoreNotFound e)
     | Inr hc \<Rightarrow>
         bind (getOwnerCluster (hcMeta hc)) (\<lambda>r. case r of
           Inl e \<Rightarrow> Ret (0, Some e)
         | Inr None \<Rightarrow> Ret (0, None)
         | Inr (Some cl) \<Rightarrow>
             if isPausedCluster K cl hc then Ret (0, None)
             else bind newPatchHelper (\<lambda>p. case p of
               Inl e \<Rightarrow> Ret (0, Some e)
             | Inr _ \<Rightarrow>
                 bind (patchHostCluster hc (reconcileCluster K hc)) (\<lambda>p. case p of
                   Inl e \<Rightarrow> Ret (0, Some e)
                 | Inr _ \<Rightarrow> Ret (0, None)))))"

definition clusterToHostCluster :: "cluster \<Rightarrow> objectKey list" where
  "clusterToHostCluster cl =
     (if clInfraKind cl \<noteq> ''HostCluster'' then [] else [(mNamespace (clMeta cl), clInfraName cl)])"

subsection \<open>Lemmas\<close>

lemma clusterFinalizers_keeps [simp]:
  "hcEndpointHost (clusterFinalizers f hc) = hcEndpointHost hc"
  "hcEndpointPort (clusterFinalizers f hc) = hcEndpointPort hc"
  "hcProvisioned (clusterFinalizers f hc) = hcProvisioned hc"
  "hcConditions (clusterFinalizers f hc) = hcConditions hc"
  "mFinalizers (hcMeta (clusterFinalizers f hc)) = f (mFinalizers (hcMeta hc))"
  by (simp_all add: clusterFinalizers_def)

lemma clusterReady_keeps [simp]:
  "hcMeta (clusterReady K p s r m hc) = hcMeta hc"
  "hcProvisioned (clusterReady K p s r m hc) = Some p"
  by (simp_all add: clusterReady_def)

lemma findCondition_clusterReady:
  assumes "conditionsLib K"
  shows "findCondition (hcConditions (clusterReady K p s r m hc)) t =
    (if t = Ready then Some \<lparr>cdType = Ready, cdStatus = s, cdReason = r, cdMessage = m,
       cdObservedGeneration = mGeneration (hcMeta hc)\<rparr> else findCondition (hcConditions hc) t)"
  using assms by (simp add: clusterReady_def findCondition_setCondition)

text \<open>The endpoint is set: what the reconciler and the machines' wait come down to.\<close>

definition endpointSet :: "hostCluster \<Rightarrow> bool" where
  "endpointSet hc \<longleftrightarrow> hcEndpointHost hc \<noteq> [] \<and> hcEndpointPort hc \<noteq> 0"

lemma reconcileCluster_live:
  assumes "mDeletionTimestamp (hcMeta hc) = None" "finalizersLib K" "conditionsLib K"
  shows "hcProvisioned (reconcileCluster K hc) = Some (endpointSet hc)"
    and "containsFinalizer K (mFinalizers (hcMeta (reconcileCluster K hc))) ClusterFinalizer"
    and "map_option cdStatus (findCondition (hcConditions (reconcileCluster K hc)) Ready) =
      Some (if endpointSet hc then ConditionTrue else ConditionFalse)"
  using assms
  by (auto simp: reconcileCluster_def Let_def endpointSet_def finalizersLib_def findCondition_clusterReady)

lemma ReconcileHostCluster_patch:
  assumes "cutoff (ReconcileHostCluster K key) evs" "(PatchHostCluster hc hc', r) \<in> set evs"
  shows "hc' = reconcileCluster K hc"
  using assms by (auto simp: ReconcileHostCluster_def cutoff_run)

text \<open>
  What \<^verbatim>\<open>HostClusterReconciler.Reconcile\<close> writes. An object that is not being deleted is
  reported provisioned, with \<^verbatim>\<open>Ready\<close> true, exactly when its endpoint has a host and a port,
  and it carries the finalizer; one that is being deleted loses the finalizer and keeps its
  status, whatever its endpoint.
\<close>

theorem ReconcileHostCluster_reports_endpoint:
  assumes "conditionsLib K" "finalizersLib K"
    and "cutoff (ReconcileHostCluster K key) evs" "(PatchHostCluster hc hc', r) \<in> set evs"
  shows "(if mDeletionTimestamp (hcMeta hc) = None
     then hcProvisioned hc' = Some (hcEndpointHost hc \<noteq> [] \<and> hcEndpointPort hc \<noteq> 0) \<and>
       map_option cdStatus (findCondition (hcConditions hc') Ready) =
         Some (if hcEndpointHost hc \<noteq> [] \<and> hcEndpointPort hc \<noteq> 0 then ConditionTrue else ConditionFalse) \<and>
       containsFinalizer K (mFinalizers (hcMeta hc')) ClusterFinalizer
     else \<not> containsFinalizer K (mFinalizers (hcMeta hc')) ClusterFinalizer \<and>
       hcProvisioned hc' = hcProvisioned hc \<and> hcConditions hc' = hcConditions hc)"
proof (cases "mDeletionTimestamp (hcMeta hc) = None")
  case True
  note hc' = ReconcileHostCluster_patch [OF assms(3,4)]
  show ?thesis
    using reconcileCluster_live [OF True assms(2,1)] unfolding hc' endpointSet_def by (simp add: True)
next
  case False
  then show ?thesis
    using ReconcileHostCluster_patch [OF assms(3,4)] assms(2)
    by (simp add: reconcileCluster_def finalizersLib_def)
qed

definition exampleHC :: hostCluster where
  "exampleHC = \<lparr>hcMeta = \<lparr>mNamespace = ''default'', mName = ''lab'', mUID = ''u-9'', mResourceVersion = ''1'',
      mGeneration = 1, mLabels = [], mAnnotations = [], mFinalizers = [], mOwnerRefs = [], mDeletionTimestamp = None\<rparr>,
    hcEndpointHost = ''10.0.0.9'', hcEndpointPort = 6443, hcProvisioned = None, hcConditions = []\<rparr>"

definition exampleHCRun :: trace where
  "exampleHCRun = [(GetHostCluster (''default'', ''lab''), RHostCluster (Inr exampleHC)),
     (GetOwnerCluster (hcMeta exampleHC), RCluster (Inr (Some \<lparr>clMeta = hcMeta exampleHC, clPaused = None,
        clInfraKind = ''HostCluster'', clInfraName = ''lab'', clInfraProvisioned = None\<rparr>))),
     (NewPatchHelper, RUnit (Inr ())),
     (PatchHostCluster exampleHC (reconcileCluster exampleK8s exampleHC), RUnit (Inr ()))]"

theorem ReconcileHostCluster_reports_endpoint_witness:
  "hcProvisioned (reconcileCluster exampleK8s exampleHC) = Some True"
proof -
  have c: "cutoff (ReconcileHostCluster exampleK8s (''default'', ''lab'')) exampleHCRun" by code_simp
  have m: "(PatchHostCluster exampleHC (reconcileCluster exampleK8s exampleHC), RUnit (Inr ())) \<in> set exampleHCRun"
    by (simp add: exampleHCRun_def)
  show ?thesis
    using ReconcileHostCluster_reports_endpoint [OF exampleK8s_ok c m] by (simp add: exampleHC_def)
qed

end
