(* ===== verification/KG_GoPath.thy ===== *)
theory KG_GoPath
  imports KG_GoStrings
begin

text \<open>
  The parts of Go's \<^verbatim>\<open>path/filepath\<close> (on a Unix system) and \<^verbatim>\<open>net\<close> that the configuration
  loader and the registry use: cleaning and joining paths, and whether a string is a CIDR
  block. \<open>Clean\<close> works on the list of path elements, with the elements kept so far as a stack.
\<close>

subsection \<open>filepath\<close>

definition isAbs :: "string \<Rightarrow> bool" where
  "isAbs p \<longleftrightarrow> hasPrefix p ''/''"

definition cleanStep :: "bool \<Rightarrow> string list \<Rightarrow> string \<Rightarrow> string list" where
  "cleanStep rooted st c =
     (if c = [] \<or> c = ''.'' then st
      else if c = ''..'' then
        (case st of
           [] \<Rightarrow> if rooted then [] else [''..'']
         | x # xs \<Rightarrow> if x = ''..'' then ''..'' # st else xs)
      else c # st)"

definition Clean :: "string \<Rightarrow> string" where
  "Clean p =
     (let rooted = isAbs p;
          body = joinWith ''/'' (rev (foldl (cleanStep rooted) [] (splitOn CHR ''/'' p)))
      in if rooted then CHR ''/'' # body else if body = [] then ''.'' else body)"

definition pathJoin :: "string list \<Rightarrow> string" where
  "pathJoin elems =
     (case dropWhile (\<lambda>e. e = []) elems of [] \<Rightarrow> [] | es \<Rightarrow> Clean (joinWith ''/'' es))"

definition pathDir :: "string \<Rightarrow> string" where
  "pathDir p = Clean (case lastIndex CHR ''/'' p of None \<Rightarrow> [] | Some i \<Rightarrow> take (Suc i) p)"

text \<open>\<^verbatim>\<open>filepath.Base\<close>: the last element, without trailing slashes.\<close>

definition pathBase :: "string \<Rightarrow> string" where
  "pathBase p =
     (if p = [] then ''.''
      else let q = rev (dropWhile (\<lambda>c. c = CHR ''/'') (rev p))
           in if q = [] then ''/'' else last (splitOn CHR ''/'' q))"

text \<open>A stack of elements that \<open>Clean\<close> leaves alone.\<close>

fun normalStack :: "bool \<Rightarrow> string list \<Rightarrow> bool" where
  "normalStack rooted [] \<longleftrightarrow> True"
| "normalStack rooted (x # xs) \<longleftrightarrow>
     x \<noteq> [] \<and> x \<noteq> ''.'' \<and> CHR ''/'' \<notin> set x \<and> (x = ''..'' \<longrightarrow> \<not> rooted \<and> set xs \<subseteq> {''..''}) \<and> normalStack rooted xs"

lemma normal_cleanStep: "normalStack r st \<Longrightarrow> CHR ''/'' \<notin> set c \<Longrightarrow> normalStack r (cleanStep r st c)"
  by (cases st) (auto simp: cleanStep_def)

lemma normal_foldl:
  "normalStack r st \<Longrightarrow> (\<And>c. c \<in> set cs \<Longrightarrow> CHR ''/'' \<notin> set c) \<Longrightarrow> normalStack r (foldl (cleanStep r) st cs)"
  by (induction cs arbitrary: st) (simp_all add: normal_cleanStep)

lemma cleanStep_normal: "normalStack r (x # xs) \<Longrightarrow> cleanStep r xs x = x # xs"
  by (cases xs) (auto simp: cleanStep_def)

lemma foldl_normal: "normalStack r st \<Longrightarrow> foldl (cleanStep r) [] (rev st) = st"
proof (induction st)
  case (Cons x xs)
  then show ?case using cleanStep_normal [OF Cons.prems] by simp
qed simp

lemma splitOn_elements: "x \<in> set (splitOn c s) \<Longrightarrow> c \<notin> set x"
  by (induction c s arbitrary: x rule: splitOn.induct) (auto split: if_splits list.splits)

text \<open>The elements of a cleaned path.\<close>

definition pathElements :: "string \<Rightarrow> string list" where
  "pathElements p = foldl (cleanStep (isAbs p)) [] (splitOn CHR ''/'' p)"

lemma normal_elements: "normalStack (isAbs p) (pathElements p)"
  unfolding pathElements_def by (rule normal_foldl) (auto dest: splitOn_elements)

lemma joinWith_Cons: "joinWith s (x # xs) = x @ (if xs = [] then [] else s @ joinWith s xs)"
  by (cases xs) auto

lemma normal_nonempty: "normalStack r st \<Longrightarrow> x \<in> set st \<Longrightarrow> x \<noteq> [] \<and> CHR ''/'' \<notin> set x"
  by (induction st) auto

definition pathBody :: "string list \<Rightarrow> string" where
  "pathBody st = joinWith ''/'' (rev st)"

lemma splitOn_body: "normalStack r st \<Longrightarrow> st \<noteq> [] \<Longrightarrow> splitOn CHR ''/'' (pathBody st) = rev st"
  unfolding pathBody_def using normal_nonempty by (intro splitOn_joinWith) auto

lemma body_head:
  assumes "normalStack r st" "st \<noteq> []"
  shows "pathBody st \<noteq> []" "\<not> isAbs (pathBody st)"
proof -
  obtain x xs where x: "rev st = x # xs" using assms(2) by (cases "rev st") auto
  then have "x \<in> set st" by (metis list.set_intros(1) set_rev)
  then have "x \<noteq> [] \<and> CHR ''/'' \<notin> set x" by (rule normal_nonempty [OF assms(1)])
  then obtain c cs where "x = c # cs" "c \<noteq> CHR ''/''" by (cases x) auto
  then show "pathBody st \<noteq> []" "\<not> isAbs (pathBody st)"
    by (simp_all add: pathBody_def x joinWith_Cons isAbs_def)
qed

lemma Clean_elements:
  "Clean p = (if isAbs p then CHR ''/'' # pathBody (pathElements p) else if pathElements p = [] then ''.'' else pathBody (pathElements p))"
proof -
  have "Clean p = (if isAbs p then CHR ''/'' # pathBody (pathElements p) else if pathBody (pathElements p) = [] then ''.'' else pathBody (pathElements p))"
    by (simp only: Clean_def Let_def pathElements_def pathBody_def)
  moreover have "pathBody (pathElements p) = [] \<longleftrightarrow> pathElements p = []"
    using body_head(1) [OF normal_elements, of p] by (auto simp: pathBody_def)
  ultimately show ?thesis by simp
qed

lemma isAbs_Clean [simp]: "isAbs (Clean p) \<longleftrightarrow> isAbs p"
  using body_head(2) [OF normal_elements, of p] by (auto simp: Clean_elements) (auto simp: isAbs_def)

lemma elements_Clean: "pathElements (Clean p) = pathElements p"
proof -
  have skip: "foldl (cleanStep r) [] ([] # cs) = foldl (cleanStep r) [] cs" for r cs
    by (simp add: cleanStep_def)
  have st: "foldl (cleanStep (isAbs p)) [] (rev (pathElements p)) = pathElements p"
    by (rule foldl_normal [OF normal_elements])
  have split: "splitOn CHR ''/'' (pathBody (pathElements p)) = (if pathElements p = [] then [[]] else rev (pathElements p))"
    using splitOn_body [OF normal_elements, of p] by (auto simp: pathBody_def)
  have "pathElements (Clean p) = foldl (cleanStep (isAbs p)) [] (splitOn CHR ''/'' (Clean p))"
    by (simp add: pathElements_def)
  also have "\<dots> = pathElements p"
    using st split skip by (auto simp: Clean_elements) (simp add: cleanStep_def)+
  finally show ?thesis .
qed

lemma Clean_idem [simp]: "Clean (Clean p) = Clean p"
  unfolding Clean_elements [of "Clean p"] elements_Clean isAbs_Clean by (rule Clean_elements [symmetric])

lemma isAbs_pathJoin: "isAbs base \<Longrightarrow> isAbs (pathJoin [base, p])"
proof -
  assume "isAbs base"
  then obtain b where "base = CHR ''/'' # b" by (cases base) (auto simp: isAbs_def)
  then show ?thesis by (simp add: pathJoin_def joinWith_Cons) (simp add: isAbs_def)
qed

lemma Clean_pathJoin: "pathJoin es \<noteq> [] \<Longrightarrow> Clean (pathJoin es) = pathJoin es"
  unfolding pathJoin_def by (cases "dropWhile (\<lambda>e. e = []) es") simp_all

subsection \<open>net.ParseCIDR\<close>

text \<open>
  Whether \<^verbatim>\<open>net.ParseCIDR\<close> accepts a string; the loader uses nothing else of it. Four decimal
  fields without leading zeros are an IPv4 address; up to eight groups of one to four
  hexadecimal digits, with at most one \<^verbatim>\<open>::\<close> that stands for at least one group and possibly
  an IPv4 address at the end, are an IPv6 address. A zone is refused.
\<close>

definition ipv4Field :: "string \<Rightarrow> bool" where
  "ipv4Field s \<longleftrightarrow> s \<noteq> [] \<and> list_all asciiDigit s \<and> (hd s = CHR ''0'' \<longrightarrow> length s = 1) \<and> decVal s \<le> 255"

definition parseIPv4 :: "string \<Rightarrow> bool" where
  "parseIPv4 s \<longleftrightarrow> (let fs = splitOn CHR ''.'' s in length fs = 4 \<and> list_all ipv4Field fs)"

definition isHex :: "char \<Rightarrow> bool" where
  "isHex c \<longleftrightarrow> asciiDigit c \<or> CHR ''a'' \<le> c \<and> c \<le> CHR ''f'' \<or> CHR ''A'' \<le> c \<and> c \<le> CHR ''F''"

text \<open>
  The loop over the groups: how many of the eight groups are still free, whether the ellipsis
  has been seen, and the text left. \<open>None\<close> is a parse error.
\<close>

fun ipv6Groups :: "nat \<Rightarrow> bool \<Rightarrow> string \<Rightarrow> (nat \<times> bool \<times> string) option" where
  "ipv6Groups 0 ell s = Some (0, ell, s)"
| "ipv6Groups (Suc n) ell s =
     (let digits = takeWhile isHex s; rest = dropWhile isHex s
      in if digits = [] \<or> 4 < length digits then None
         else if hasPrefix rest ''.'' then
           (if \<not> ell \<and> n \<noteq> 1 \<or> n < 1 \<or> \<not> parseIPv4 s then None else Some (n - 1, ell, []))
         else if rest = [] then Some (n, ell, [])
         else if hd rest \<noteq> CHR '':'' \<or> length rest = 1 then None
         else if hasPrefix (tl rest) '':'' then
           (if ell then None
            else if length rest = 2 then Some (n, True, [])
            else ipv6Groups n True (drop 2 rest))
         else ipv6Groups n ell (tl rest))"

definition parseIPv6 :: "string \<Rightarrow> bool" where
  "parseIPv6 s \<longleftrightarrow>
     (let ell = hasPrefix s ''::''; r = (if ell then drop 2 s else s)
      in ell \<and> r = [] \<or>
         (case ipv6Groups 8 ell r of
            None \<Rightarrow> False
          | Some (left, ell, rest) \<Rightarrow> rest = [] \<and> (if 0 < left then ell else \<not> ell)))"

text \<open>The number of bits of the address, by the first separator, as \<^verbatim>\<open>netip.ParseAddr\<close> decides.\<close>

definition parseAddrBits :: "string \<Rightarrow> nat option" where
  "parseAddrBits s =
     (if CHR ''%'' \<in> set s then None
      else case dropWhile (\<lambda>c. c \<noteq> CHR ''.'' \<and> c \<noteq> CHR '':'') s of
          [] \<Rightarrow> None
        | c # _ \<Rightarrow> if c = CHR ''.'' then (if parseIPv4 s then Some 32 else None)
                  else if parseIPv6 s then Some 128 else None)"

definition parseCIDR :: "string \<Rightarrow> bool" where
  "parseCIDR s =
     (case cutAt CHR ''/'' s of
        None \<Rightarrow> False
      | Some (addr, bitsText) \<Rightarrow>
          (case parseAddrBits addr of
             None \<Rightarrow> False
           | Some bits \<Rightarrow> bitsText \<noteq> [] \<and> list_all asciiDigit bitsText \<and> decVal bitsText \<le> bits))"

lemma parseCIDR_examples:
  "parseCIDR ''10.244.0.0/16''" "parseCIDR ''fd00::/64''" "parseCIDR ''::ffff:10.0.0.1/128''"
  "\<not> parseCIDR ''10.244.0.0''" "\<not> parseCIDR ''10.244.0.0/33''" "\<not> parseCIDR ''10.01.0.0/16''"
  "\<not> parseCIDR ''1:2:3:4:5:6:7::8/64''" "\<not> parseCIDR ''fe80::1%eth0/64''"
  by code_simp+

end
