(* ===== verification/KG_Registry.thy ===== *)
theory KG_Registry
  imports KG_GoPath KG_Sha256 "HOL-Library.AList"
begin

text \<open>
  \<^verbatim>\<open>internal/registry\<close>: one JSON file per cluster identity, written through a temporary file
  and a rename. The file system is explicit: files by path, directories that exist, and the
  errors a read meets. Every step of \<^verbatim>\<open>Put\<close> can fail, and a crash can stop it between any two.
  The JSON encoder is the parameter \<open>codec\<close>. The interface the command line relies on is the
  locale \<open>record_store\<close>, interpreted on these operations; what follows from it once is that
  any sequence of operations behaves like a map from identities to records.
\<close>

subsection \<open>Records\<close>

definition Managed :: string where "Managed = ''managed''"
definition SelfManaged :: string where "SelfManaged = ''self-managed''"
definition Released :: string where "Released = ''released''"

lemmas mode_defs = Managed_def SelfManaged_def Released_def

record clusterRecord =
  rcVersion :: int
  rcName :: string
  rcNamespace :: string
  rcMode :: string
  rcEndpoint :: string
  rcManagementKubeconfig :: string
  rcWorkloadKubeconfig :: string
  rcUpdatedAt :: int

definition Key :: "string \<Rightarrow> string \<Rightarrow> string" where
  "Key namespace name = sha256Hex (namespace @ [CHR 0x00] @ name)"

definition ValidateRecord :: "clusterRecord \<Rightarrow> goerror option" where
  "ValidateRecord r =
     (if rcVersion r \<noteq> 1 then Some (errorf (''unsupported registry version '' @ itoa (rcVersion r)))
      else if rcName r = [] \<or> rcNamespace r = [] then Some (errorf ''cluster name and namespace are required'')
      else if (rcMode r = Managed \<or> rcMode r = SelfManaged) \<and> \<not> isAbs (rcManagementKubeconfig r)
        then Some (errorf ''management kubeconfig must be an absolute path'')
      else if rcMode r = Released \<and> rcManagementKubeconfig r \<noteq> []
        then Some (errorf ''released clusters have no management kubeconfig'')
      else if rcMode r \<noteq> Managed \<and> rcMode r \<noteq> SelfManaged \<and> rcMode r \<noteq> Released
        then Some (errorf (''unknown management mode '' @ goQuote (rcMode r)))
      else if \<not> isAbs (rcWorkloadKubeconfig r) then Some (errorf ''workload kubeconfig must be an absolute path'')
      else None)"

subsection \<open>File system\<close>

record codec =
  marshalRecord :: "clusterRecord \<Rightarrow> string result"
  unmarshalRecord :: "string \<Rightarrow> clusterRecord result"

record fsys =
  fsFiles :: "(string \<times> string) list"
  fsDirs :: "string list"
  fsReadErr :: "string \<Rightarrow> goerror option"

definition notExist :: "string \<Rightarrow> goerror" where
  "notExist p = \<lparr>emsg = ''open '' @ p @ '': no such file or directory'', ekind = ErrNotExist\<rparr>"

definition fsRead :: "fsys \<Rightarrow> string \<Rightarrow> string result" where
  "fsRead fs p = (case fsReadErr fs p of
     Some e \<Rightarrow> Inl e
   | None \<Rightarrow> (case map_of (fsFiles fs) p of None \<Rightarrow> Inl (notExist p) | Some d \<Rightarrow> Inr d))"

definition setFile :: "string \<Rightarrow> string \<Rightarrow> fsys \<Rightarrow> fsys" where
  "setFile p d fs = fs\<lparr>fsFiles := AList.update p d (fsFiles fs)\<rparr>"

definition removeFile :: "string \<Rightarrow> fsys \<Rightarrow> fsys" where
  "removeFile p fs = fs\<lparr>fsFiles := AList.delete p (fsFiles fs)\<rparr>"

definition makeDir :: "string \<Rightarrow> fsys \<Rightarrow> fsys" where
  "makeDir d fs = fs\<lparr>fsDirs := List.insert d (fsDirs fs)\<rparr>"

definition renameFile :: "string \<Rightarrow> string \<Rightarrow> fsys \<Rightarrow> fsys" where
  "renameFile a b fs = (case map_of (fsFiles fs) a of None \<Rightarrow> fs | Some d \<Rightarrow> removeFile a (setFile b d fs))"

text \<open>\<^verbatim>\<open>os.ReadDir\<close>: the names of the files of a directory, sorted.\<close>

definition fsNames :: "fsys \<Rightarrow> string \<Rightarrow> string list" where
  "fsNames fs d = sortStrings (map (\<lambda>(p, _). drop (length d + 1) p)
     (filter (\<lambda>(p, _). hasPrefix p (d @ ''/'') \<and> CHR ''/'' \<notin> set (drop (length d + 1) p)) (fsFiles fs)))"

subsection \<open>Store\<close>

definition storePath :: "string \<Rightarrow> string \<Rightarrow> string \<Rightarrow> string" where
  "storePath dir namespace name = pathJoin [dir, ''clusters'', Key namespace name @ ''.json'']"

definition readRecord :: "codec \<Rightarrow> fsys \<Rightarrow> string \<Rightarrow> clusterRecord result" where
  "readRecord C fs path =
     (case fsRead fs path of
        Inl e \<Rightarrow> Inl e
      | Inr data \<Rightarrow>
          (case unmarshalRecord C data of
             Inl e \<Rightarrow> Inl (wrapf (''read registry '' @ path) e)
           | Inr r \<Rightarrow>
               (case ValidateRecord r of
                  Some e \<Rightarrow> Inl (wrapf (''read registry '' @ path) e)
                | None \<Rightarrow> Inr r)))"

definition Get :: "codec \<Rightarrow> string \<Rightarrow> fsys \<Rightarrow> string \<Rightarrow> string \<Rightarrow> clusterRecord option result" where
  "Get C dir fs namespace name =
     (case readRecord C fs (storePath dir namespace name) of
        Inl e \<Rightarrow> if ekind e = ErrNotExist then Inr None else Inl e
      | Inr r \<Rightarrow>
          if rcName r \<noteq> name \<or> rcNamespace r \<noteq> namespace
          then Inl (errorf ''registry identity does not match its filename'') else Inr (Some r))"

fun listEntries :: "codec \<Rightarrow> string \<Rightarrow> fsys \<Rightarrow> string list \<Rightarrow> clusterRecord list result" where
  "listEntries C d fs [] = Inr []"
| "listEntries C d fs (n # ns) =
     (if \<not> hasSuffix n ''.json'' then listEntries C d fs ns
      else let path = pathJoin [d, n]
           in case readRecord C fs path of
                Inl e \<Rightarrow> Inl e
              | Inr r \<Rightarrow>
                  if pathBase path \<noteq> Key (rcNamespace r) (rcName r) @ ''.json''
                  then Inl (errorf (''registry identity does not match '' @ path))
                  else (case listEntries C d fs ns of Inl e \<Rightarrow> Inl e | Inr rs \<Rightarrow> Inr (r # rs)))"

definition recordLess :: "clusterRecord \<Rightarrow> clusterRecord \<Rightarrow> bool" where
  "recordLess a b \<longleftrightarrow>
     (if rcNamespace a \<noteq> rcNamespace b then rcNamespace a < rcNamespace b else rcName a < rcName b)"

definition ListRecords :: "codec \<Rightarrow> string \<Rightarrow> fsys \<Rightarrow> clusterRecord list result" where
  "ListRecords C dir fs =
     (let d = pathJoin [dir, ''clusters'']
      in case (case fsReadErr fs d of Some e \<Rightarrow> Some e | None \<Rightarrow> if d \<notin> set (fsDirs fs) then Some (notExist d) else None) of
           Some e \<Rightarrow> if ekind e = ErrNotExist then Inr [] else Inl e
         | None \<Rightarrow>
             (case listEntries C d fs (fsNames fs d) of
                Inl e \<Rightarrow> Inl e
              | Inr rs \<Rightarrow> Inr (sliceStable recordLess rs)))"

text \<open>
  What can go wrong in a \<^verbatim>\<open>Put\<close>: the first step that fails, with its error and, for the write,
  how much of the data reached the file. The random part of the temporary name comes from
  the system.
\<close>

datatype putStep = StepMkdir | StepMarshal | StepCreate | StepWrite nat | StepSync | StepClose | StepRename

definition tempPath :: "string \<Rightarrow> string \<Rightarrow> string" where
  "tempPath d random = d @ ''/.record-'' @ random"

definition stamp :: "int \<Rightarrow> clusterRecord \<Rightarrow> clusterRecord" where
  "stamp now r = r\<lparr>rcVersion := 1, rcUpdatedAt := now\<rparr>"

text \<open>
  The file operations of a \<^verbatim>\<open>Put\<close> in their order: the directory, the empty temporary file, a
  part of the data, all of it (synced and closed), the rename.
\<close>

definition putOps :: "string \<Rightarrow> string \<Rightarrow> string \<Rightarrow> nat \<Rightarrow> (fsys \<Rightarrow> fsys) list" where
  "putOps path random data k =
     (let d = pathDir path; tmp = tempPath d random
      in [makeDir d, setFile tmp [], setFile tmp (take k (data @ [CHR 0x0A])), setFile tmp (data @ [CHR 0x0A]),
          renameFile tmp path])"

text \<open>
  \<^verbatim>\<open>Put\<close>, with the fault the system injects, if any. The deferred removal of the temporary
  file runs on every return after its creation.
\<close>

definition Put ::
  "codec \<Rightarrow> string \<Rightarrow> int \<Rightarrow> string \<Rightarrow> (putStep \<times> goerror) option \<Rightarrow> clusterRecord \<Rightarrow> fsys \<Rightarrow> fsys \<times> goerror option" where
  "Put C dir now random fault r0 fs =
     (let r = stamp now r0
      in case ValidateRecord r of
           Some e \<Rightarrow> (fs, Some e)
         | None \<Rightarrow>
             let path = storePath dir (rcNamespace r) (rcName r); d = pathDir path; tmp = tempPath d random
             in case fault of
                  Some (StepMkdir, e) \<Rightarrow> (fs, Some e)
                | _ \<Rightarrow>
                    let fs1 = makeDir d fs
                    in case (case fault of Some (StepMarshal, e) \<Rightarrow> Inl e | _ \<Rightarrow> marshalRecord C r) of
                         Inl e \<Rightarrow> (fs1, Some e)
                       | Inr data \<Rightarrow>
                           (case fault of
                              Some (StepCreate, e) \<Rightarrow> (fs1, Some e)
                            | Some (StepWrite n, e) \<Rightarrow> (removeFile tmp (setFile tmp (take n (data @ [CHR 0x0A])) fs1), Some e)
                            | Some (_, e) \<Rightarrow> (removeFile tmp (setFile tmp (data @ [CHR 0x0A]) fs1), Some e)
                            | None \<Rightarrow> (removeFile tmp (renameFile tmp path (setFile tmp (data @ [CHR 0x0A]) fs1)), None)))"

text \<open>A crash after the first \<open>n\<close> file operations of a \<^verbatim>\<open>Put\<close>: nothing after them runs, the deferred removal included.\<close>

definition crashedPut :: "codec \<Rightarrow> string \<Rightarrow> int \<Rightarrow> string \<Rightarrow> nat \<Rightarrow> nat \<Rightarrow> clusterRecord \<Rightarrow> fsys \<Rightarrow> fsys" where
  "crashedPut C dir now random k n r0 fs =
     (let r = stamp now r0
      in case marshalRecord C r of
           Inl _ \<Rightarrow> fs
         | Inr data \<Rightarrow> fold (\<lambda>f s. f s) (take n (putOps (storePath dir (rcNamespace r) (rcName r)) random data k)) fs)"

text \<open>\<^verbatim>\<open>os.Remove\<close> can also be refused, with a message that is not about a missing file.\<close>

definition Forget :: "string \<Rightarrow> string option \<Rightarrow> string \<Rightarrow> string \<Rightarrow> fsys \<Rightarrow> fsys \<times> goerror option" where
  "Forget dir refused namespace name fs =
     (let p = storePath dir namespace name
      in case (case refused of Some m \<Rightarrow> Some (errorf m) | None \<Rightarrow> if map_of (fsFiles fs) p = None then Some (notExist p) else None) of
           Some e \<Rightarrow> (fs, if ekind e = ErrNotExist then None else Some e)
         | None \<Rightarrow> (removeFile p fs, None))"

subsection \<open>Paths of the store\<close>

text \<open>A file name that \<open>Clean\<close> keeps as the last element.\<close>

definition plainName :: "string \<Rightarrow> bool" where
  "plainName f \<longleftrightarrow> f \<noteq> [] \<and> f \<noteq> ''.'' \<and> f \<noteq> ''..'' \<and> CHR ''/'' \<notin> set f"

lemma splitOn_snoc: "c \<notin> set f \<Longrightarrow> splitOn c (p @ c # f) = splitOn c p @ [f]"
  by (induction p) (auto simp: splitOn_free split: list.splits)

lemma Clean_snoc:
  assumes "p \<noteq> []" "plainName f"
  shows "pathElements (p @ ''/'' @ f) = f # pathElements p" "isAbs (p @ ''/'' @ f) \<longleftrightarrow> isAbs p"
proof -
  show abs: "isAbs (p @ ''/'' @ f) \<longleftrightarrow> isAbs p" using assms(1) by (cases p) (auto simp: isAbs_def)
  have step: "cleanStep r st f = f # st" for r st using assms(2) by (simp add: cleanStep_def plainName_def)
  show "pathElements (p @ ''/'' @ f) = f # pathElements p"
    using splitOn_snoc [of "CHR ''/''" f p] assms(2) by (simp add: pathElements_def abs [simplified] step plainName_def)
qed

lemma pathBody_Cons: "pathBody (f # st) = (if st = [] then f else pathBody st @ ''/'' @ f)"
proof -
  have "xs \<noteq> [] \<Longrightarrow> joinWith s (xs @ [f]) = joinWith s xs @ s @ f" for s xs
    by (induction xs rule: induct_list012) auto
  then show ?thesis by (simp add: pathBody_def)
qed

definition clustersDir :: "string \<Rightarrow> string" where
  "clustersDir dir = pathJoin [dir, ''clusters'']"

lemma clustersDir_elements: "\<exists>st. pathElements (clustersDir dir) = ''clusters'' # st" "clustersDir dir \<noteq> []"
proof -
  have p: "plainName ''clusters''" by (simp add: plainName_def)
  have "clustersDir dir = (if dir = [] then Clean ''clusters'' else Clean (dir @ ''/'' @ ''clusters''))"
    by (simp add: clustersDir_def pathJoin_def)
  moreover have "pathElements ''clusters'' = [''clusters'']" by code_simp
  ultimately have e: "\<exists>st. pathElements (clustersDir dir) = ''clusters'' # st"
    using Clean_snoc(1) [OF _ p, of dir] by (auto simp: elements_Clean)
  then show "\<exists>st. pathElements (clustersDir dir) = ''clusters'' # st" "clustersDir dir \<noteq> []"
    by (auto simp: pathElements_def cleanStep_def)
qed

lemma Clean_clustersDir [simp]: "Clean (clustersDir dir) = clustersDir dir"
  using clustersDir_elements(2) [of dir] unfolding clustersDir_def by (rule Clean_pathJoin)

lemma pathJoin_clusters:
  assumes "plainName f"
  shows "pathJoin [clustersDir dir, f] = clustersDir dir @ ''/'' @ f"
proof -
  obtain st where st: "pathElements (clustersDir dir) = ''clusters'' # st" using clustersDir_elements(1) by blast
  have c: "clustersDir dir = (if isAbs (clustersDir dir) then CHR ''/'' # pathBody (''clusters'' # st) else pathBody (''clusters'' # st))"
    using Clean_elements [of "clustersDir dir"] unfolding st Clean_clustersDir by (simp only: list.simps if_False)
  have "Clean (clustersDir dir @ ''/'' @ f) =
      (if isAbs (clustersDir dir) then CHR ''/'' # pathBody (f # ''clusters'' # st) else pathBody (f # ''clusters'' # st))"
    unfolding Clean_elements Clean_snoc [OF clustersDir_elements(2) assms] st by simp
  also have "\<dots> = clustersDir dir @ ''/'' @ f"
    by (cases "isAbs (clustersDir dir)") (use c in \<open>simp_all add: pathBody_Cons [of f]\<close>)
  finally show ?thesis
    using clustersDir_elements(2) [of dir] by (simp add: pathJoin_def)
qed

lemma storePath_eq:
  assumes "plainName f"
  shows "pathJoin [dir, ''clusters'', f] = clustersDir dir @ ''/'' @ f"
proof -
  have "pathJoin [dir, ''clusters'', f] = Clean ((if dir = [] then ''clusters'' else dir @ ''/'' @ ''clusters'') @ ''/'' @ f)"
    by (simp add: pathJoin_def)
  also have "\<dots> = Clean (clustersDir dir @ ''/'' @ f)"
  proof -
    have p: "clustersDir dir = Clean (if dir = [] then ''clusters'' else dir @ ''/'' @ ''clusters'')"
      by (simp add: clustersDir_def pathJoin_def)
    have ne: "(if dir = [] then ''clusters'' else dir @ ''/'' @ ''clusters'') \<noteq> []" by simp
    show ?thesis
      unfolding Clean_elements [of "_ @ ''/'' @ f"] Clean_snoc [OF ne assms] Clean_snoc [OF clustersDir_elements(2) assms]
      unfolding p elements_Clean isAbs_Clean by (rule refl)
  qed
  also have "\<dots> = clustersDir dir @ ''/'' @ f"
    using pathJoin_clusters [OF assms, of dir] clustersDir_elements(2) [of dir] by (simp add: pathJoin_def)
  finally show ?thesis .
qed

lemma hexDigit_plain: "n < 16 \<Longrightarrow> hexDigit n \<noteq> CHR ''/'' \<and> hexDigit n \<noteq> CHR ''.''"
proof -
  have "list_all (\<lambda>n. hexDigit n \<noteq> CHR ''/'' \<and> hexDigit n \<noteq> CHR ''.'') [0..<16]" by code_simp
  then show "n < 16 \<Longrightarrow> hexDigit n \<noteq> CHR ''/'' \<and> hexDigit n \<noteq> CHR ''.''" by (simp add: list_all_iff)
qed

lemma sha256Hex_plain:
  assumes "c \<in> set (sha256Hex s)"
  shows "c \<noteq> CHR ''/'' \<and> c \<noteq> CHR ''.''"
proof -
  obtain b where "0 \<le> b" "b < 256" and c: "c = hexDigit (nat (b div 16)) \<or> c = hexDigit (nat (b mod 16))"
    using assms by (auto simp: sha256Hex_def hexEncode_def sum256_def dest!: bigEndian_range)
  then have "nat (b div 16) < 16" "nat (b mod 16) < 16" by auto
  then show ?thesis using c hexDigit_plain by metis
qed

lemma plainName_json: "plainName (Key ns n @ ''.json'')"
  using sha256Hex_plain [of "CHR ''/''" "ns @ [CHR 0x00] @ n"] by (auto simp: plainName_def Key_def)

lemma storePath_clusters: "storePath dir ns n = clustersDir dir @ ''/'' @ Key ns n @ ''.json''"
  unfolding storePath_def by (rule storePath_eq [OF plainName_json])

lemma storePath_inj: "storePath dir ns n = storePath dir ns' n' \<longleftrightarrow> Key ns n = Key ns' n'"
  by (simp add: storePath_clusters)

lemma pathDir_storePath: "pathDir (storePath dir ns n) = clustersDir dir"
proof -
  let ?f = "Key ns n @ ''.json''"
  have f: "CHR ''/'' \<notin> set ?f" using plainName_json [of ns n] by (simp add: plainName_def)
  have "lastIndex CHR ''/'' (storePath dir ns n) = Some (length (clustersDir dir))"
    unfolding storePath_clusters using lastIndex_append_free [OF f] by simp
  then have "pathDir (storePath dir ns n) = Clean (clustersDir dir @ ''/'')"
    by (simp add: pathDir_def storePath_clusters)
  also have "\<dots> = Clean (clustersDir dir)"
  proof -
    have "splitOn CHR ''/'' (clustersDir dir @ ''/'') = splitOn CHR ''/'' (clustersDir dir) @ [[]]"
      using splitOn_snoc [of "CHR ''/''" "[]"] by simp
    moreover have "isAbs (clustersDir dir @ ''/'') \<longleftrightarrow> isAbs (clustersDir dir)"
      using clustersDir_elements(2) [of dir] by (cases "clustersDir dir") (auto simp: isAbs_def)
    ultimately have "pathElements (clustersDir dir @ ''/'') = pathElements (clustersDir dir)" 
        "isAbs (clustersDir dir @ ''/'') \<longleftrightarrow> isAbs (clustersDir dir)"
      by (simp_all add: pathElements_def cleanStep_def)
    then show ?thesis by (simp only: Clean_elements)
  qed
  finally show ?thesis by simp
qed

lemma tempPath_fresh: "tempPath (clustersDir dir) random \<noteq> storePath dir ns n"
proof
  assume "tempPath (clustersDir dir) random = storePath dir ns n"
  then have e: "CHR ''.'' # ''record-'' @ random = Key ns n @ ''.json''"
    by (simp add: tempPath_def storePath_clusters)
  have "Key ns n \<noteq> []" using length_sha256Hex by (metis Key_def list.size(3) zero_neq_numeral)
  then have "CHR ''.'' \<in> set (Key ns n)" using e by (cases "Key ns n") auto
  then show False using sha256Hex_plain by (auto simp: Key_def)
qed

subsection \<open>What the operations do to a file\<close>

lemma fsReadErr_simps [simp]:
  "fsReadErr (setFile p d fs) = fsReadErr fs" "fsReadErr (removeFile p fs) = fsReadErr fs"
  "fsReadErr (makeDir d fs) = fsReadErr fs" "fsReadErr (renameFile a b fs) = fsReadErr fs"
  by (simp_all add: setFile_def removeFile_def makeDir_def renameFile_def split: option.split)

lemma fileAt_simps [simp]:
  "map_of (fsFiles (setFile p d fs)) q = (if q = p then Some d else map_of (fsFiles fs) q)"
  "map_of (fsFiles (removeFile p fs)) q = (if q = p then None else map_of (fsFiles fs) q)"
  "map_of (fsFiles (makeDir e fs)) q = map_of (fsFiles fs) q"
  by (auto simp: setFile_def removeFile_def makeDir_def update_conv' delete_conv')

lemma fileAt_rename:
  "map_of (fsFiles (renameFile a b fs)) q =
    (case map_of (fsFiles fs) a of None \<Rightarrow> map_of (fsFiles fs) q
     | Some d \<Rightarrow> if q = a then None else if q = b then Some d else map_of (fsFiles fs) q)"
  by (auto simp: renameFile_def split: option.split)

lemma Get_cong:
  assumes "fsReadErr fs' = fsReadErr fs" "map_of (fsFiles fs') (storePath dir ns n) = map_of (fsFiles fs) (storePath dir ns n)"
  shows "Get C dir fs' ns n = Get C dir fs ns n"
proof -
  have "fsRead fs' (storePath dir ns n) = fsRead fs (storePath dir ns n)" unfolding fsRead_def assms ..
  then show ?thesis unfolding Get_def readRecord_def by (rule arg_cong)
qed

text \<open>A \<^verbatim>\<open>Put\<close> either fails and changes no record file, or writes exactly the file of its identity.\<close>

lemma Put_readErr: "Put C dir now rnd fault r fs = (fs', e) \<Longrightarrow> fsReadErr fs' = fsReadErr fs"
  by (auto simp: Put_def Let_def split: option.splits sum.splits prod.splits putStep.splits)

lemma Put_failed_files:
  assumes "Put C dir now rnd fault r fs = (fs', Some e)"
  shows "map_of (fsFiles fs') (storePath dir ns n) = map_of (fsFiles fs) (storePath dir ns n)"
  using assms tempPath_fresh [of dir rnd ns n]
  by (auto simp: Put_def Let_def pathDir_storePath split: option.splits sum.splits prod.splits putStep.splits)

lemma Put_done_files:
  assumes "Put C dir now rnd fault r fs = (fs', None)"
  obtains data where "marshalRecord C (stamp now r) = Inr data" "ValidateRecord (stamp now r) = None"
    "map_of (fsFiles fs') (storePath dir (rcNamespace r) (rcName r)) = Some (data @ [CHR 0x0A])"
    "\<And>ns n. storePath dir ns n \<noteq> storePath dir (rcNamespace r) (rcName r) \<Longrightarrow>
      map_of (fsFiles fs') (storePath dir ns n) = map_of (fsFiles fs) (storePath dir ns n)"
proof -
  have st: "rcNamespace (stamp now r) = rcNamespace r" "rcName (stamp now r) = rcName r" by (simp_all add: stamp_def)
  let ?p = "storePath dir (rcNamespace r) (rcName r)" and ?t = "tempPath (clustersDir dir) rnd"
  have v: "ValidateRecord (stamp now r) = None"
    using assms by (auto simp: Put_def Let_def split: option.splits)
  obtain data where m: "marshalRecord C (stamp now r) = Inr data" and
    fs': "fs' = removeFile ?t (renameFile ?t ?p (setFile ?t (data @ [CHR 0x0A]) (makeDir (clustersDir dir) fs)))"
    using assms v by (auto simp: Put_def Let_def st pathDir_storePath split: option.splits sum.splits prod.splits putStep.splits)
  have "map_of (fsFiles fs') ?p = Some (data @ [CHR 0x0A])"
    using tempPath_fresh [of dir rnd "rcNamespace r" "rcName r"] by (simp add: fs' fileAt_rename)
  moreover have "map_of (fsFiles fs') (storePath dir ns n) = map_of (fsFiles fs) (storePath dir ns n)"
    if "storePath dir ns n \<noteq> ?p" for ns n
    using tempPath_fresh [of dir rnd ns n] that by (simp add: fs' fileAt_rename)
  ultimately show thesis using m v that by blast
qed

text \<open>The record survives the encoder.\<close>

definition roundTrips :: "codec \<Rightarrow> clusterRecord \<Rightarrow> bool" where
  "roundTrips C r \<longleftrightarrow> (\<forall>data. marshalRecord C r = Inr data \<longrightarrow> unmarshalRecord C (data @ [CHR 0x0A]) = Inr r)"

lemma Get_stored:
  assumes "map_of (fsFiles fs) (storePath dir (rcNamespace r) (rcName r)) = Some (data @ [CHR 0x0A])"
    and "fsReadErr fs (storePath dir (rcNamespace r) (rcName r)) = None"
    and "unmarshalRecord C (data @ [CHR 0x0A]) = Inr r" "ValidateRecord r = None"
  shows "Get C dir fs (rcNamespace r) (rcName r) = Inr (Some r)"
  using assms by (simp add: Get_def readRecord_def fsRead_def)

lemma Put_Get:
  assumes "Put C dir now rnd fault r fs = (fs', None)" "roundTrips C (stamp now r)"
    and "fsReadErr fs (storePath dir (rcNamespace r) (rcName r)) = None"
  shows "Get C dir fs' (rcNamespace r) (rcName r) = Inr (Some (stamp now r))"
proof -
  have st: "rcNamespace (stamp now r) = rcNamespace r" "rcName (stamp now r) = rcName r" by (simp_all add: stamp_def)
  obtain data where d: "marshalRecord C (stamp now r) = Inr data" "ValidateRecord (stamp now r) = None"
    "map_of (fsFiles fs') (storePath dir (rcNamespace r) (rcName r)) = Some (data @ [CHR 0x0A])"
    by (rule Put_done_files [OF assms(1)])
  have "unmarshalRecord C (data @ [CHR 0x0A]) = Inr (stamp now r)" using assms(2) d(1) by (simp add: roundTrips_def)
  then show ?thesis
    using Get_stored [of fs' dir "stamp now r" data C] d assms(3) Put_readErr [OF assms(1)] by (simp add: st)
qed

lemma Put_other:
  assumes "Put C dir now rnd fault r fs = (fs', e)" "Key (rcNamespace r) (rcName r) \<noteq> Key ns n"
  shows "Get C dir fs' ns n = Get C dir fs ns n"
proof (cases e)
  case None
  have "storePath dir ns n \<noteq> storePath dir (rcNamespace r) (rcName r)" using assms(2) by (auto simp: storePath_inj)
  then have "map_of (fsFiles fs') (storePath dir ns n) = map_of (fsFiles fs) (storePath dir ns n)"
    using Put_done_files [OF assms(1) [unfolded None]] by metis
  then show ?thesis using Put_readErr [OF assms(1)] by (intro Get_cong)
next
  case (Some x)
  show ?thesis
    using Put_failed_files [OF assms(1) [unfolded Some]] Put_readErr [OF assms(1)] by (intro Get_cong)
qed

lemma Put_failed: "Put C dir now rnd fault r fs = (fs', Some e) \<Longrightarrow> Get C dir fs' ns n = Get C dir fs ns n"
  by (rule Get_cong [OF Put_readErr Put_failed_files])

lemma Forget_readErr: "Forget dir refused ns n fs = (fs', e) \<Longrightarrow> fsReadErr fs' = fsReadErr fs"
  by (auto simp: Forget_def Let_def split: option.splits if_splits)

lemma Forget_Get:
  assumes "Forget dir refused ns n fs = (fs', None)" "fsReadErr fs (storePath dir ns n) = None"
  shows "Get C dir fs' ns n = Inr None"
proof -
  have "map_of (fsFiles fs') (storePath dir ns n) = None"
    using assms(1) by (auto simp: Forget_def Let_def split: option.splits if_splits)
  then show ?thesis
    using assms(2) Forget_readErr [OF assms(1)] by (simp add: Get_def readRecord_def fsRead_def notExist_def)
qed

lemma Forget_other:
  assumes "Forget dir refused ns n fs = (fs', e)" "Key ns n \<noteq> Key ns' n' \<or> e \<noteq> None"
  shows "Get C dir fs' ns' n' = Get C dir fs ns' n'"
proof -
  have "storePath dir ns' n' \<noteq> storePath dir ns n \<or> e \<noteq> None" using assms(2) by (auto simp: storePath_inj)
  then have "map_of (fsFiles fs') (storePath dir ns' n') = map_of (fsFiles fs) (storePath dir ns' n')"
    using assms(1) by (auto simp: Forget_def Let_def split: option.splits if_splits)
  then show ?thesis using Forget_readErr [OF assms(1)] by (intro Get_cong)
qed

subsection \<open>The interface of the store\<close>

text \<open>
  A call of the store: write a record, with what the system decides about the call, or drop an
  identity. \<open>runOps\<close> runs a sequence of calls against the store, \<open>specOps\<close> against a map; a
  call that reports an error does not change the map.
\<close>

datatype ('i, 'r, 'j, 'k) storeOp = OpPut 'i 'r | OpForget 'j 'k

fun runOps :: "('i \<Rightarrow> 'r \<Rightarrow> 's \<Rightarrow> 's \<times> goerror option) \<Rightarrow> ('j \<Rightarrow> 'k \<Rightarrow> 's \<Rightarrow> 's \<times> goerror option) \<Rightarrow>
  ('i, 'r, 'j, 'k) storeOp list \<Rightarrow> 's \<Rightarrow> 's" where
  "runOps put forget [] s = s"
| "runOps put forget (OpPut i r # ops) s = runOps put forget ops (fst (put i r s))"
| "runOps put forget (OpForget j k # ops) s = runOps put forget ops (fst (forget j k s))"

fun specOps :: "('i \<Rightarrow> 'r \<Rightarrow> 's \<Rightarrow> 's \<times> goerror option) \<Rightarrow> ('j \<Rightarrow> 'k \<Rightarrow> 's \<Rightarrow> 's \<times> goerror option) \<Rightarrow>
  ('r \<Rightarrow> 'k) \<Rightarrow> ('i \<Rightarrow> 'r \<Rightarrow> 'r) \<Rightarrow> ('i, 'r, 'j, 'k) storeOp list \<Rightarrow> 's \<Rightarrow> ('k \<Rightarrow> 'r option) \<Rightarrow> 'k \<Rightarrow> 'r option" where
  "specOps put forget key stored [] s m = m"
| "specOps put forget key stored (OpPut i r # ops) s m = specOps put forget key stored ops (fst (put i r s))
     (if snd (put i r s) = None then m(key r := Some (stored i r)) else m)"
| "specOps put forget key stored (OpForget j k # ops) s m = specOps put forget key stored ops (fst (forget j k s))
     (if snd (forget j k s) = None then m(k := None) else m)"

fun opWithin :: "('r \<Rightarrow> 'k) \<Rightarrow> ('i \<Rightarrow> 'r \<Rightarrow> bool) \<Rightarrow> 'k set \<Rightarrow> ('i, 'r, 'j, 'k) storeOp \<Rightarrow> bool" where
  "opWithin key faithful K (OpPut i r) \<longleftrightarrow> key r \<in> K \<and> faithful i r"
| "opWithin key faithful K (OpForget j k) \<longleftrightarrow> k \<in> K"

locale record_store =
  fixes get :: "'s \<Rightarrow> 'k \<Rightarrow> 'r option result"
    and put :: "'i \<Rightarrow> 'r \<Rightarrow> 's \<Rightarrow> 's \<times> goerror option"
    and forget :: "'j \<Rightarrow> 'k \<Rightarrow> 's \<Rightarrow> 's \<times> goerror option"
    and key :: "'r \<Rightarrow> 'k" and stored :: "'i \<Rightarrow> 'r \<Rightarrow> 'r"
    and readable :: "'s \<Rightarrow> 'k \<Rightarrow> bool" and faithful :: "'i \<Rightarrow> 'r \<Rightarrow> bool" and apart :: "'k \<Rightarrow> 'k \<Rightarrow> bool"
  assumes put_get: "put i r s = (s', None) \<Longrightarrow> readable s (key r) \<Longrightarrow> faithful i r \<Longrightarrow> get s' (key r) = Inr (Some (stored i r))"
    and put_other: "put i r s = (s', e) \<Longrightarrow> apart (key r) k \<Longrightarrow> get s' k = get s k"
    and put_failed: "put i r s = (s', Some x) \<Longrightarrow> get s' k = get s k"
    and put_readable: "put i r s = (s', e) \<Longrightarrow> readable s' k = readable s k"
    and forget_get: "forget j k s = (s', None) \<Longrightarrow> readable s k \<Longrightarrow> get s' k = Inr None"
    and forget_other: "forget j k s = (s', e) \<Longrightarrow> apart k k' \<Longrightarrow> get s' k' = get s k'"
    and forget_failed: "forget j k s = (s', Some x) \<Longrightarrow> get s' k' = get s k'"
    and forget_readable: "forget j k s = (s', e) \<Longrightarrow> readable s' k' = readable s k'"
begin

definition agrees :: "'k set \<Rightarrow> 's \<Rightarrow> ('k \<Rightarrow> 'r option) \<Rightarrow> bool" where
  "agrees K s m \<longleftrightarrow> (\<forall>k\<in>K. readable s k \<and> get s k = Inr (m k))"

lemma agrees_put:
  assumes "agrees K s m" "\<forall>k\<in>K. \<forall>k'\<in>K. k \<noteq> k' \<longrightarrow> apart k k'" "key r \<in> K" "faithful i r" "put i r s = (s', e)"
  shows "agrees K s' (if e = None then m(key r := Some (stored i r)) else m)"
proof (cases e)
  case None
  have "get s' (key r) = Inr (Some (stored i r))"
    using put_get assms None by (simp add: agrees_def)
  moreover have "get s' k = Inr (m k)" if "k \<in> K" "k \<noteq> key r" for k
    using put_other [OF assms(5)] assms that by (auto simp: agrees_def)
  ultimately show ?thesis using assms(1) put_readable [OF assms(5)] None by (auto simp: agrees_def)
next
  case (Some x)
  then show ?thesis
    using assms(1,5) put_readable [OF assms(5)] put_failed [of i r s s' x] by (auto simp: agrees_def)
qed

lemma agrees_forget:
  assumes "agrees K s m" "\<forall>k\<in>K. \<forall>k'\<in>K. k \<noteq> k' \<longrightarrow> apart k k'" "k \<in> K" "forget j k s = (s', e)"
  shows "agrees K s' (if e = None then m(k := None) else m)"
proof (cases e)
  case None
  have "get s' k = Inr None" using forget_get assms None by (simp add: agrees_def)
  moreover have "get s' k' = Inr (m k')" if "k' \<in> K" "k' \<noteq> k" for k'
    using forget_other [OF assms(4)] assms that by (auto simp: agrees_def)
  ultimately show ?thesis using assms(1) forget_readable [OF assms(4)] None by (auto simp: agrees_def)
next
  case (Some x)
  then show ?thesis
    using assms(1,4) forget_readable [OF assms(4)] forget_failed [of j k s s' x] by (auto simp: agrees_def)
qed

lemma refines:
  assumes "agrees K s m" "\<forall>k\<in>K. \<forall>k'\<in>K. k \<noteq> k' \<longrightarrow> apart k k'" "\<forall>op\<in>set ops. opWithin key faithful K op"
  shows "agrees K (runOps put forget ops s) (specOps put forget key stored ops s m)"
  using assms(1,3)
proof (induction ops arbitrary: s m)
  case (Cons op ops)
  show ?case
  proof (cases op)
    case (OpPut i r)
    obtain s' e where p: "put i r s = (s', e)" by fastforce
    show ?thesis using Cons.IH [OF agrees_put [OF Cons.prems(1) assms(2) _ _ p]] Cons.prems(2) by (simp add: OpPut p)
  next
    case (OpForget j k)
    obtain s' e where p: "forget j k s = (s', e)" by fastforce
    show ?thesis using Cons.IH [OF agrees_forget [OF Cons.prems(1) assms(2) _ p]] Cons.prems(2) by (simp add: OpForget p)
  qed
qed simp

end

text \<open>The file store provides the interface: an identity is a namespace and a name.\<close>

type_synonym identity = "string \<times> string"

definition recordKey :: "clusterRecord \<Rightarrow> identity" where
  "recordKey r = (rcNamespace r, rcName r)"

definition storeGet :: "codec \<Rightarrow> string \<Rightarrow> fsys \<Rightarrow> identity \<Rightarrow> clusterRecord option result" where
  "storeGet C dir fs k = Get C dir fs (fst k) (snd k)"

definition storePut :: "codec \<Rightarrow> string \<Rightarrow> int \<times> string \<times> (putStep \<times> goerror) option \<Rightarrow> clusterRecord \<Rightarrow> fsys \<Rightarrow> fsys \<times> goerror option" where
  "storePut C dir i r fs = (case i of (now, rnd, fault) \<Rightarrow> Put C dir now rnd fault r fs)"

definition storeForget :: "string \<Rightarrow> string option \<Rightarrow> identity \<Rightarrow> fsys \<Rightarrow> fsys \<times> goerror option" where
  "storeForget dir refused k fs = Forget dir refused (fst k) (snd k) fs"

definition storeStamp :: "int \<times> string \<times> (putStep \<times> goerror) option \<Rightarrow> clusterRecord \<Rightarrow> clusterRecord" where
  "storeStamp i r = stamp (fst i) r"

definition keyApart :: "identity \<Rightarrow> identity \<Rightarrow> bool" where
  "keyApart k k' \<longleftrightarrow> Key (fst k) (snd k) \<noteq> Key (fst k') (snd k')"

interpretation files: record_store "storeGet C dir" "storePut C dir" "storeForget dir" recordKey storeStamp
  "\<lambda>fs k. fsReadErr fs (storePath dir (fst k) (snd k)) = None" "\<lambda>i r. roundTrips C (storeStamp i r)" keyApart
  for C dir
proof unfold_locales
  fix i r s s' e k x j k'
  show "storePut C dir i r s = (s', None) \<Longrightarrow> fsReadErr s (storePath dir (fst (recordKey r)) (snd (recordKey r))) = None \<Longrightarrow>
      roundTrips C (storeStamp i r) \<Longrightarrow> storeGet C dir s' (recordKey r) = Inr (Some (storeStamp i r))"
    by (cases i) (auto simp: storePut_def storeGet_def storeStamp_def recordKey_def intro: Put_Get)
  show "storePut C dir i r s = (s', e) \<Longrightarrow> keyApart (recordKey r) k \<Longrightarrow> storeGet C dir s' k = storeGet C dir s k"
    by (cases i) (auto simp: storePut_def storeGet_def keyApart_def recordKey_def intro: Put_other)
  show "storePut C dir i r s = (s', Some x) \<Longrightarrow> storeGet C dir s' k = storeGet C dir s k"
    by (cases i) (auto simp: storePut_def storeGet_def intro: Put_failed)
  show "storePut C dir i r s = (s', e) \<Longrightarrow> (fsReadErr s' (storePath dir (fst k) (snd k)) = None) =
      (fsReadErr s (storePath dir (fst k) (snd k)) = None)"
    by (cases i) (auto simp: storePut_def dest: Put_readErr)
  show "storeForget dir j k s = (s', None) \<Longrightarrow> fsReadErr s (storePath dir (fst k) (snd k)) = None \<Longrightarrow> storeGet C dir s' k = Inr None"
    by (simp add: storeForget_def storeGet_def Forget_Get)
  show "storeForget dir j k s = (s', e) \<Longrightarrow> keyApart k k' \<Longrightarrow> storeGet C dir s' k' = storeGet C dir s k'"
    by (simp add: storeForget_def storeGet_def keyApart_def Forget_other)
  show "storeForget dir j k s = (s', Some x) \<Longrightarrow> storeGet C dir s' k' = storeGet C dir s k'"
    by (simp add: storeForget_def storeGet_def Forget_other)
  show "storeForget dir j k s = (s', e) \<Longrightarrow> (fsReadErr s' (storePath dir (fst k') (snd k')) = None) =
      (fsReadErr s (storePath dir (fst k') (snd k')) = None)"
    by (simp add: storeForget_def) (metis Forget_readErr)
qed

text \<open>
  C9. The registry is a map from identities to records. Whatever sequence of \<^verbatim>\<open>Put\<close> and
  \<^verbatim>\<open>Forget\<close> runs, with whatever steps failing, \<^verbatim>\<open>Get\<close> returns for every identity what a map
  updated by the calls that reported success holds: the last record written, stamped, or none
  once forgotten. The hypotheses are that the record files can be read, that the JSON encoder
  returns what it was given, and that SHA-256 tells the identities in use apart.
\<close>

theorem registry_refines_map:
  assumes "\<forall>k\<in>K. fsReadErr fs (storePath dir (fst k) (snd k)) = None \<and> storeGet C dir fs k = Inr (m k)"
    and "\<forall>k\<in>K. \<forall>k'\<in>K. k \<noteq> k' \<longrightarrow> keyApart k k'"
    and "\<forall>op\<in>set ops. opWithin recordKey (\<lambda>i r. roundTrips C (storeStamp i r)) K op"
  shows "\<forall>k\<in>K. storeGet C dir (runOps (storePut C dir) (storeForget dir) ops fs) k =
    Inr (specOps (storePut C dir) (storeForget dir) recordKey storeStamp ops fs m k)"
  using files.refines [where K = K and s = fs and dir = dir and C = C and m = m and ops = ops] assms by (auto simp: files.agrees_def)

subsection \<open>Crashes\<close>

lemma putOps_prefix:
  assumes "n \<le> 4" "q \<noteq> tempPath (pathDir path) rnd"
  shows "map_of (fsFiles (fold (\<lambda>f s. f s) (take n (putOps path rnd data k)) fs)) q = map_of (fsFiles fs) q"
proof -
  have "n \<in> {0, 1, 2, 3, 4}" using assms(1) by auto
  then show ?thesis using assms(2) by (elim insertE emptyE) (simp_all add: putOps_def Let_def numeral_2_eq_2 numeral_3_eq_3 eval_nat_numeral)
qed

lemma fold_readErr:
  "fsReadErr (fold (\<lambda>f s. f s) (take n (putOps path rnd data k)) fs) = fsReadErr fs"
proof -
  have all: "list_all (\<lambda>f. \<forall>s. fsReadErr (f s) = fsReadErr s) (putOps path rnd data k)"
    by (simp add: putOps_def Let_def)
  have "list_all (\<lambda>f. \<forall>s. fsReadErr (f s) = fsReadErr s) fl \<Longrightarrow> fsReadErr (fold (\<lambda>f s. f s) fl s) = fsReadErr s" for fl s
    by (induction fl arbitrary: s) auto
  moreover have "list_all (\<lambda>f. \<forall>s. fsReadErr (f s) = fsReadErr s) (take n (putOps path rnd data k))"
    using all by (auto simp: list_all_iff dest: in_set_takeD)
  ultimately show ?thesis by blast
qed

text \<open>
  C10. A \<^verbatim>\<open>Put\<close> is atomic for its readers: if the process dies after any number of its file
  operations, in the middle of writing the data included, then either every identity reads as
  before or every identity reads as after the completed \<^verbatim>\<open>Put\<close>.
\<close>

theorem Put_crash_atomic:
  assumes "ValidateRecord (stamp now r) = None" "marshalRecord C (stamp now r) = Inr data"
  shows "(\<forall>ns nm. Get C dir (crashedPut C dir now rnd k n r fs) ns nm = Get C dir fs ns nm) \<or>
    (\<forall>ns nm. Get C dir (crashedPut C dir now rnd k n r fs) ns nm = Get C dir (fst (Put C dir now rnd None r fs)) ns nm)"
proof -
  have st: "rcNamespace (stamp now r) = rcNamespace r" "rcName (stamp now r) = rcName r" by (simp_all add: stamp_def)
  let ?path = "storePath dir (rcNamespace r) (rcName r)" and ?tmp = "tempPath (clustersDir dir) rnd"
  have crashed: "crashedPut C dir now rnd k n r fs = fold (\<lambda>f s. f s) (take n (putOps ?path rnd data k)) fs"
    by (simp add: crashedPut_def assms(2) st)
  have same: "Get C dir (crashedPut C dir now rnd k n r fs) ns nm = Get C dir fs' ns nm"
    if "fsReadErr fs' = fsReadErr fs"
      "map_of (fsFiles (crashedPut C dir now rnd k n r fs)) (storePath dir ns nm) = map_of (fsFiles fs') (storePath dir ns nm)" for fs' ns nm
    using that by (intro Get_cong) (simp_all add: crashed fold_readErr)
  show ?thesis
  proof (cases "n \<le> 4")
    case True
    have "map_of (fsFiles (crashedPut C dir now rnd k n r fs)) (storePath dir ns nm) = map_of (fsFiles fs) (storePath dir ns nm)" for ns nm
      unfolding crashed by (rule putOps_prefix [OF True]) (simp add: pathDir_storePath tempPath_fresh [symmetric])
    then show ?thesis using same by blast
  next
    case False
    have put: "fst (Put C dir now rnd None r fs) =
        removeFile ?tmp (renameFile ?tmp ?path (setFile ?tmp (data @ [CHR 0x0A]) (makeDir (clustersDir dir) fs)))"
      by (simp add: Put_def Let_def assms st pathDir_storePath)
    have "take n (putOps ?path rnd data k) = putOps ?path rnd data k"
      using False by (simp add: putOps_def Let_def)
    then have full: "crashedPut C dir now rnd k n r fs =
        renameFile ?tmp ?path (setFile ?tmp (data @ [CHR 0x0A]) (setFile ?tmp (take k (data @ [CHR 0x0A])) (setFile ?tmp [] (makeDir (clustersDir dir) fs))))"
      by (simp add: crashed putOps_def Let_def pathDir_storePath)
    have "map_of (fsFiles (crashedPut C dir now rnd k n r fs)) (storePath dir ns nm) =
        map_of (fsFiles (fst (Put C dir now rnd None r fs))) (storePath dir ns nm)" for ns nm
      using tempPath_fresh [of dir rnd ns nm] by (simp add: full put fileAt_rename)
    moreover have "fsReadErr (fst (Put C dir now rnd None r fs)) = fsReadErr fs" by (simp add: put)
    ultimately show ?thesis using same by blast
  qed
qed

subsection \<open>Listing\<close>

lemma listEntries_Inr:
  "listEntries C d fs ns = Inr rs \<Longrightarrow>
   set rs = {r. \<exists>n\<in>set ns. hasSuffix n ''.json'' \<and> readRecord C fs (pathJoin [d, n]) = Inr r} \<and>
   (\<forall>n\<in>set ns. \<forall>r. hasSuffix n ''.json'' \<and> readRecord C fs (pathJoin [d, n]) = Inr r \<longrightarrow>
     pathBase (pathJoin [d, n]) = Key (rcNamespace r) (rcName r) @ ''.json'')"
  by (induction ns arbitrary: rs) (auto simp: Let_def split: if_splits sum.splits)

lemma listEntries_reads:
  "listEntries C d fs ns = Inr rs \<Longrightarrow> n \<in> set ns \<Longrightarrow> hasSuffix n ''.json'' \<Longrightarrow> \<exists>r. readRecord C fs (pathJoin [d, n]) = Inr r"
  by (induction ns arbitrary: rs) (auto simp: Let_def split: if_splits sum.splits)

lemma fsNames_iff: "n \<in> set (fsNames fs d) \<longleftrightarrow> CHR ''/'' \<notin> set n \<and> (\<exists>c. (d @ ''/'' @ n, c) \<in> set (fsFiles fs))"
  by (force simp: fsNames_def hasPrefix_iff)

lemma pathBase_clusters:
  assumes "plainName n"
  shows "pathBase (pathJoin [clustersDir dir, n]) = n"
proof -
  have n: "n \<noteq> []" "CHR ''/'' \<notin> set n" using assms by (simp_all add: plainName_def)
  have l: "last n \<noteq> CHR ''/''" using n last_in_set by metis
  have "dropWhile (\<lambda>c. c = CHR ''/'') (rev (clustersDir dir @ ''/'' @ n)) = rev (clustersDir dir @ ''/'' @ n)"
    using n l by (intro dropWhile_head) (simp add: hd_append hd_rev)
  then show ?thesis
    unfolding pathJoin_clusters [OF assms] using n splitOn_snoc [OF n(2), of "clustersDir dir"]
    by (simp add: pathBase_def Let_def)
qed

lemma plainName_suffix: "hasSuffix n ''.json'' \<Longrightarrow> CHR ''/'' \<notin> set n \<Longrightarrow> plainName n"
  by (auto simp: hasSuffix_iff plainName_def)

interpretation records: strict_weak recordLess
  by unfold_locales (auto simp: recordLess_def split: if_splits)

text \<open>
  \<^verbatim>\<open>List\<close> agrees with \<^verbatim>\<open>Get\<close>: when it succeeds on a directory it can read, it returns
  exactly the records that \<^verbatim>\<open>Get\<close> returns, in the order of their namespaces and names.
\<close>

theorem List_agrees_with_Get:
  assumes "ListRecords C dir fs = Inr rs" "clustersDir dir \<in> set (fsDirs fs)" "fsReadErr fs (clustersDir dir) = None"
  shows "set rs = {r. Get C dir fs (rcNamespace r) (rcName r) = Inr (Some r)} \<and>
    sorted_wrt (\<lambda>a b. \<not> recordLess b a) rs"
proof -
  let ?d = "clustersDir dir"
  obtain es where es: "listEntries C ?d fs (fsNames fs ?d) = Inr es" and rs: "rs = sliceStable recordLess es"
    using assms by (auto simp: ListRecords_def Let_def clustersDir_def split: sum.splits)
  have path: "storePath dir ns n = pathJoin [?d, Key ns n @ ''.json'']" for ns n
    using pathJoin_clusters [OF plainName_json] by (simp add: storePath_clusters)
  have "r \<in> set es \<longleftrightarrow> Get C dir fs (rcNamespace r) (rcName r) = Inr (Some r)" for r
  proof
    assume "r \<in> set es"
    then obtain n where n: "n \<in> set (fsNames fs ?d)" "hasSuffix n ''.json''" "readRecord C fs (pathJoin [?d, n]) = Inr r"
      using listEntries_Inr [OF es] by blast
    then have "pathBase (pathJoin [?d, n]) = Key (rcNamespace r) (rcName r) @ ''.json''"
      using listEntries_Inr [OF es] by blast
    then have "n = Key (rcNamespace r) (rcName r) @ ''.json''"
      using n pathBase_clusters [OF plainName_suffix [OF n(2)]] by (simp add: fsNames_iff)
    then show "Get C dir fs (rcNamespace r) (rcName r) = Inr (Some r)"
      using n(3) by (simp add: Get_def path)
  next
    assume g: "Get C dir fs (rcNamespace r) (rcName r) = Inr (Some r)"
    let ?n = "Key (rcNamespace r) (rcName r) @ ''.json''"
    have read: "readRecord C fs (pathJoin [?d, ?n]) = Inr r"
      using g by (auto simp: Get_def path split: sum.splits if_splits)
    then obtain c where "map_of (fsFiles fs) (?d @ ''/'' @ ?n) = Some c"
      using pathJoin_clusters [OF plainName_json] by (auto simp: readRecord_def fsRead_def split: sum.splits option.splits)
    then have "?n \<in> set (fsNames fs ?d)"
      using plainName_json [of "rcNamespace r" "rcName r"] by (auto simp: fsNames_iff plainName_def dest: map_of_SomeD)
    moreover have "hasSuffix ?n ''.json''" by (auto simp: hasSuffix_iff)
    ultimately show "r \<in> set es" using listEntries_Inr [OF es] read by blast
  qed
  then show ?thesis using records.sorted_sliceStable [of es] by (auto simp: rs)
qed

subsection \<open>Examples\<close>

definition exampleRecord :: clusterRecord where
  "exampleRecord = \<lparr>rcVersion = 1, rcName = ''lab'', rcNamespace = ''prod'', rcMode = Managed, rcEndpoint = ''10.0.0.9:6443'',
     rcManagementKubeconfig = ''/root/.kg/bootstrap.kubeconfig'', rcWorkloadKubeconfig = ''/root/.kg/lab.kubeconfig'', rcUpdatedAt = 5\<rparr>"

text \<open>An encoder that knows one record.\<close>

definition exampleCodec :: codec where
  "exampleCodec = \<lparr>marshalRecord = (\<lambda>r. if r = exampleRecord then Inr ''{}'' else Inl (errorf ''json'')),
     unmarshalRecord = (\<lambda>d. if d = ''{}'' @ [CHR 0x0A] then Inr exampleRecord else Inl (errorf ''json''))\<rparr>"

definition exampleFs :: fsys where
  "exampleFs = \<lparr>fsFiles = [], fsDirs = [clustersDir ''/root/.kg''], fsReadErr = (\<lambda>_. None)\<rparr>"

lemma exampleCodec_ok: "roundTrips exampleCodec r"
  by (simp add: roundTrips_def exampleCodec_def)

lemma exampleRecord_ok: "ValidateRecord exampleRecord = None" "stamp 5 exampleRecord = exampleRecord"
  "marshalRecord exampleCodec exampleRecord = Inr ''{}''"
  by code_simp (simp_all add: stamp_def exampleRecord_def exampleCodec_def)

abbreviation "exampleDir \<equiv> ''/root/.kg''"

definition exampleStored :: fsys where
  "exampleStored = fst (Put exampleCodec exampleDir 5 ''x'' None exampleRecord exampleFs)"

lemma examplePut: "Put exampleCodec exampleDir 5 ''x'' None exampleRecord exampleFs = (exampleStored, None)"
proof -
  have "snd (Put exampleCodec exampleDir 5 ''x'' None exampleRecord exampleFs) = None"
    by (simp add: Put_def Let_def exampleRecord_ok)
  then show ?thesis by (simp add: exampleStored_def prod_eq_iff)
qed

theorem registry_refines_map_witness:
  "storeGet exampleCodec exampleDir
     (runOps (storePut exampleCodec exampleDir) (storeForget exampleDir) [OpPut (5, ''x'', None) exampleRecord] exampleFs) (''prod'', ''lab'') =
   Inr (Some exampleRecord)"
proof -
  let ?ops = "[OpPut (5, ''x'', None) exampleRecord] :: (int \<times> string \<times> (putStep \<times> goerror) option, clusterRecord, string option, identity) storeOp list"
  have k: "recordKey exampleRecord = (''prod'', ''lab'')" by (simp add: recordKey_def exampleRecord_def)
  have "\<forall>k\<in>{(''prod'', ''lab'')}. fsReadErr exampleFs (storePath exampleDir (fst k) (snd k)) = None \<and>
      storeGet exampleCodec exampleDir exampleFs k = Inr ((\<lambda>_. None) k)"
    by (simp add: exampleFs_def storeGet_def Get_def readRecord_def fsRead_def notExist_def)
  moreover have "\<forall>k\<in>{(''prod'', ''lab'')}. \<forall>k'\<in>{(''prod'', ''lab'')}. k \<noteq> k' \<longrightarrow> keyApart k k'" by simp
  moreover have "\<forall>op\<in>set ?ops. opWithin recordKey (\<lambda>i r. roundTrips exampleCodec (storeStamp i r)) {(''prod'', ''lab'')} op"
    by (simp add: k exampleCodec_ok)
  ultimately have "\<forall>k\<in>{(''prod'', ''lab'')}. storeGet exampleCodec exampleDir (runOps (storePut exampleCodec exampleDir) (storeForget exampleDir) ?ops exampleFs) k =
      Inr (specOps (storePut exampleCodec exampleDir) (storeForget exampleDir) recordKey storeStamp ?ops exampleFs (\<lambda>_. None) k)"
    by (rule registry_refines_map)
  then show ?thesis by (simp add: storePut_def examplePut k storeStamp_def exampleRecord_ok)
qed

theorem Put_crash_atomic_witness:
  "(\<forall>ns nm. Get exampleCodec exampleDir (crashedPut exampleCodec exampleDir 5 ''x'' 1 3 exampleRecord exampleFs) ns nm =
      Get exampleCodec exampleDir exampleFs ns nm) \<or>
   (\<forall>ns nm. Get exampleCodec exampleDir (crashedPut exampleCodec exampleDir 5 ''x'' 1 3 exampleRecord exampleFs) ns nm =
      Get exampleCodec exampleDir exampleStored ns nm)"
  using Put_crash_atomic [of 5 exampleRecord exampleCodec "''{}''" exampleDir "''x''" 1 3 exampleFs]
  unfolding exampleRecord_ok exampleStored_def by simp

lemma exampleStored_reads: "readRecord exampleCodec exampleStored (storePath exampleDir ''prod'' ''lab'') = Inr exampleRecord"
proof -
  have n: "rcNamespace exampleRecord = ''prod''" "rcName exampleRecord = ''lab''" by (simp_all add: exampleRecord_def)
  have "Get exampleCodec exampleDir exampleStored (rcNamespace exampleRecord) (rcName exampleRecord) = Inr (Some (stamp 5 exampleRecord))"
    by (rule Put_Get [OF examplePut exampleCodec_ok]) (simp add: exampleFs_def)
  then show ?thesis
    unfolding n exampleRecord_ok(2) by (auto simp: Get_def split: sum.splits if_splits)
qed

lemma exampleStored_lists: "ListRecords exampleCodec exampleDir exampleStored = Inr [exampleRecord]"
proof -
  let ?d = "clustersDir exampleDir" and ?n = "Key ''prod'' ''lab'' @ ''.json''"
  have p: "storePath exampleDir ''prod'' ''lab'' = ?d @ ''/'' @ ?n" by (simp add: storePath_clusters)
  have join: "pathJoin [?d, ?n] = storePath exampleDir ''prod'' ''lab''" unfolding p by (rule pathJoin_clusters [OF plainName_json])
  have n: "rcNamespace exampleRecord = ''prod''" "rcName exampleRecord = ''lab''" by (simp_all add: exampleRecord_def)
  have t: "tempPath ?d ''x'' \<noteq> storePath exampleDir ''prod'' ''lab''" by (rule tempPath_fresh)
  have dd: "pathDir (?d @ ''/'' @ ?n) = ?d" using pathDir_storePath [of exampleDir "''prod''" "''lab''"] unfolding p .
  have files: "fsFiles exampleStored = [(?d @ ''/'' @ ?n, ''{}'' @ [CHR 0x0A])]" "fsDirs exampleStored = [?d]"
    "fsReadErr exampleStored = (\<lambda>_. None)"
    using t dd [simplified] by (simp_all add: exampleStored_def Put_def Let_def exampleRecord_ok n makeDir_def setFile_def
        removeFile_def renameFile_def exampleFs_def p)
  have sfx: "hasSuffix ?n ''.json''" by (auto simp: hasSuffix_iff)
  have sl: "CHR ''/'' \<notin> set ?n" using plainName_json [of "''prod''" "''lab''"] by (simp add: plainName_def)
  have names: "fsNames exampleStored ?d = [?n]"
    using sl by (simp add: fsNames_def files hasPrefix_iff sortStrings_def)
  have "listEntries exampleCodec ?d exampleStored [?n] = Inr [exampleRecord]"
    using exampleStored_reads sfx pathBase_clusters [OF plainName_json, of exampleDir "''prod''" "''lab''"]
    by (simp add: Let_def join [simplified] n)
  then show ?thesis by (simp add: ListRecords_def Let_def files names clustersDir_def [symmetric])
qed

theorem List_agrees_with_Get_witness:
  "{exampleRecord} = {r. Get exampleCodec exampleDir exampleStored (rcNamespace r) (rcName r) = Inr (Some r)}"
proof -
  have "fsReadErr exampleStored = (\<lambda>_. None)" using Put_readErr [OF examplePut] by (simp add: exampleFs_def)
  moreover have "clustersDir exampleDir \<in> set (fsDirs exampleStored)"
    by (simp add: exampleStored_def Put_def Let_def exampleRecord_ok pathDir_storePath makeDir_def setFile_def
        removeFile_def renameFile_def exampleFs_def split: option.split)
  ultimately show ?thesis using List_agrees_with_Get [OF exampleStored_lists] by simp
qed

end
