(* ===== verification/KG_Config.thy ===== *)
theory KG_Config
  imports KG_GoPath "HOL-Library.Word"
begin

text \<open>
  \<^verbatim>\<open>internal/config\<close>: the genesis configuration, its defaults and its validation. The structs
  of \<^verbatim>\<open>types.go\<close> are records with the fields in the source's order; an \<^verbatim>\<open>int32\<close> is a 32-bit
  word read with \<open>sint\<close>, so the additions of the validator wrap as Go's do. The file system,
  the home directory and the YAML decoder are the parameter \<open>configEnv\<close>. The theorems give
  the validator a declarative counterpart, show the defaults idempotent and the loaded
  configuration complete, and settle what the capacity check does and does not guarantee.
\<close>

subsection \<open>types.go\<close>

type_synonym int32 = "32 word"

definition APIVersion :: string where "APIVersion = ''kgenesis.io/v1alpha1''"
definition Kind :: string where "Kind = ''GenesisConfig''"

record endpoint =
  epHost :: string
  epPort :: int32

record networkConfig =
  nwPodCIDR :: string
  nwServiceCIDR :: string
  nwServiceDomain :: string

record cniConfig =
  cniManifests :: "string list"

definition HasCNI :: "cniConfig \<Rightarrow> bool" where
  "HasCNI c \<longleftrightarrow> 0 < length (cniManifests c)"

record virtualIPConfig =
  vipEnabled :: bool
  vipInterface :: string
  vipVersion :: string

record clusterConfig =
  ccName :: string
  ccNamespace :: string
  ccKubernetesVersion :: string
  ccControlPlaneEndpoint :: endpoint
  ccControlPlaneReplicas :: int32
  ccNetwork :: networkConfig
  ccImageRepository :: string
  ccPreKubeadmCommands :: "string list"
  ccPostKubeadmCommands :: "string list"
  ccIgnorePreflightErrors :: "string list"
  ccCNI :: cniConfig
  ccVirtualIP :: virtualIPConfig

record sshConfigBlock =
  shUser :: string
  shPort :: int32
  shPrivateKeyPath :: string
  shPassphrase :: string
  shPassword :: string
  shHostKeyPolicy :: string

record hostConfig =
  hcfName :: string
  hcfAddress :: string
  hcfRole :: string
  hcfLabels :: "(string \<times> string) list"
  hcfUser :: string
  hcfPort :: int32
  hcfPrivateKeyPath :: string
  hcfPassphrase :: string
  hcfPassword :: string
  hcfHostKeyPolicy :: string
  hcfPublicKey :: string

record taint =
  tnKey :: string
  tnValue :: string
  tnEffect :: string

record workerPool =
  wpName :: string
  wpReplicas :: int32
  wpHostSelector :: "(string \<times> string) list"
  wpNodeLabels :: "(string \<times> string) list"
  wpNodeTaints :: "taint list"

record bootstrapConfig =
  bcClusterName :: string
  bcNodeImage :: string
  bcCAPIVersion :: string
  bcCertManagerVersion :: string

record genesisConfig =
  gcAPIVersion :: string
  gcKind :: string
  gcCluster :: clusterConfig
  gcSSH :: sshConfigBlock
  gcHosts :: "hostConfig list"
  gcWorkers :: "workerPool list"
  gcBootstrap :: bootstrapConfig

subsection \<open>load.go: constants\<close>

definition DefaultAPIServerPort :: int32 where "DefaultAPIServerPort = 6443"
definition DefaultSSHPort :: int32 where "DefaultSSHPort = 22"
definition DefaultSSHUser :: string where "DefaultSSHUser = ''root''"
definition DefaultPodCIDR :: string where "DefaultPodCIDR = ''10.244.0.0/16''"
definition DefaultServiceCIDR :: string where "DefaultServiceCIDR = ''10.96.0.0/12''"
definition DefaultServiceDomain :: string where "DefaultServiceDomain = ''cluster.local''"
definition DefaultHostKeyPolicy :: string where "DefaultHostKeyPolicy = ''TOFU''"
definition DefaultBootstrapName :: string where "DefaultBootstrapName = ''kgenesis-bootstrap''"
definition DefaultWorkerPoolName :: string where "DefaultWorkerPoolName = ''default''"

definition CfgRoleControlPlane :: string where "CfgRoleControlPlane = ''control-plane''"
definition CfgRoleWorker :: string where "CfgRoleWorker = ''worker''"
definition CfgRoleLabel :: string where "CfgRoleLabel = ''kgenesis.io/role''"

lemmas default_defs =
  DefaultAPIServerPort_def DefaultSSHPort_def DefaultSSHUser_def DefaultPodCIDR_def DefaultServiceCIDR_def
  DefaultServiceDomain_def DefaultHostKeyPolicy_def DefaultBootstrapName_def DefaultWorkerPoolName_def

text \<open>The regular expression \<^verbatim>\<open>^[a-z0-9]([-a-z0-9]*[a-z0-9])?$\<close>.\<close>

definition lowerAlnum :: "char \<Rightarrow> bool" where
  "lowerAlnum c \<longleftrightarrow> CHR ''a'' \<le> c \<and> c \<le> CHR ''z'' \<or> CHR ''0'' \<le> c \<and> c \<le> CHR ''9''"

definition dnsName :: "string \<Rightarrow> bool" where
  "dnsName s \<longleftrightarrow> s \<noteq> [] \<and> lowerAlnum (hd s) \<and> lowerAlnum (last s) \<and> list_all (\<lambda>c. lowerAlnum c \<or> c = CHR ''-'') s"

definition isURL :: "string \<Rightarrow> bool" where
  "isURL s \<longleftrightarrow> hasPrefix s ''http://'' \<or> hasPrefix s ''https://''"

subsection \<open>Environment\<close>

text \<open>
  What loading reads of the outside. \<open>cidrsReversed\<close> is the order in which Go ranges over the
  two-entry map of CIDR fields, which the language leaves open.
\<close>

record configEnv =
  readFileOS :: "string \<Rightarrow> string result"
  statOS :: "string \<Rightarrow> goerror option"
  userHomeDir :: "string result"
  unmarshalStrict :: "string \<Rightarrow> genesisConfig result"
  cidrsReversed :: bool

subsection \<open>Paths\<close>

definition resolvePath :: "configEnv \<Rightarrow> string \<Rightarrow> string \<Rightarrow> string" where
  "resolvePath E base p =
     (if p = [] then []
      else if hasPrefix p ''~/'' then
        (case userHomeDir E of Inl _ \<Rightarrow> p | Inr home \<Rightarrow> pathJoin [home, drop 2 p])
      else if isAbs p then p
      else pathJoin [base, p])"

definition resolvePaths :: "configEnv \<Rightarrow> string \<Rightarrow> genesisConfig \<Rightarrow> genesisConfig" where
  "resolvePaths E base c = c\<lparr>
     gcSSH := (gcSSH c)\<lparr>shPrivateKeyPath := resolvePath E base (shPrivateKeyPath (gcSSH c))\<rparr>,
     gcCluster := (gcCluster c)\<lparr>ccCNI := (ccCNI (gcCluster c))\<lparr>cniManifests :=
       map (\<lambda>m. if \<not> isURL m then resolvePath E base m else m) (cniManifests (ccCNI (gcCluster c)))\<rparr>\<rparr>,
     gcHosts := map (\<lambda>h. h\<lparr>hcfPrivateKeyPath := resolvePath E base (hcfPrivateKeyPath h)\<rparr>) (gcHosts c)\<rparr>"

subsection \<open>Defaults\<close>

definition orElse :: "'a::zero \<Rightarrow> 'a \<Rightarrow> 'a" where
  "orElse x d = (if x = 0 then d else x)"

definition orStr :: "string \<Rightarrow> string \<Rightarrow> string" where
  "orStr s d = (if s = [] then d else s)"

definition HostsWithRole :: "string \<Rightarrow> genesisConfig \<Rightarrow> hostConfig list" where
  "HostsWithRole role c = filter (\<lambda>h. hcfRole h = role) (gcHosts c)"

definition defaultCluster :: "clusterConfig \<Rightarrow> clusterConfig" where
  "defaultCluster cc = cc\<lparr>
     ccNamespace := orStr (ccNamespace cc) (ccName cc),
     ccControlPlaneEndpoint := (ccControlPlaneEndpoint cc)\<lparr>epPort :=
       orElse (epPort (ccControlPlaneEndpoint cc)) DefaultAPIServerPort\<rparr>,
     ccNetwork := \<lparr>nwPodCIDR = orStr (nwPodCIDR (ccNetwork cc)) DefaultPodCIDR,
       nwServiceCIDR = orStr (nwServiceCIDR (ccNetwork cc)) DefaultServiceCIDR,
       nwServiceDomain = orStr (nwServiceDomain (ccNetwork cc)) DefaultServiceDomain\<rparr>\<rparr>"

definition defaultSSH :: "sshConfigBlock \<Rightarrow> sshConfigBlock" where
  "defaultSSH s = s\<lparr>shUser := orStr (shUser s) DefaultSSHUser, shPort := orElse (shPort s) DefaultSSHPort,
     shHostKeyPolicy := orStr (shHostKeyPolicy s) DefaultHostKeyPolicy\<rparr>"

definition defaultHost :: "sshConfigBlock \<Rightarrow> hostConfig \<Rightarrow> hostConfig" where
  "defaultHost s h = h\<lparr>hcfUser := orStr (hcfUser h) (shUser s), hcfPort := orElse (hcfPort h) (shPort s),
     hcfPrivateKeyPath := orStr (hcfPrivateKeyPath h) (shPrivateKeyPath s),
     hcfPassphrase := orStr (hcfPassphrase h) (shPassphrase s),
     hcfPassword := orStr (hcfPassword h) (shPassword s),
     hcfHostKeyPolicy := orStr (hcfHostKeyPolicy h) (shHostKeyPolicy s)\<rparr>"

definition defaultPool :: "workerPool \<Rightarrow> workerPool" where
  "defaultPool w = (if length (wpHostSelector w) = 0 then w\<lparr>wpHostSelector := [(CfgRoleLabel, CfgRoleWorker)]\<rparr> else w)"

text \<open>With no explicit pools, every worker host lands in one default pool.\<close>

definition defaultWorkers :: "nat \<Rightarrow> workerPool list \<Rightarrow> workerPool list" where
  "defaultWorkers n ws =
     map defaultPool (if ws = [] \<and> 0 < n
       then [\<lparr>wpName = DefaultWorkerPoolName, wpReplicas = of_nat n, wpHostSelector = [], wpNodeLabels = [], wpNodeTaints = []\<rparr>]
       else ws)"

definition ApplyDefaults :: "genesisConfig \<Rightarrow> genesisConfig" where
  "ApplyDefaults c0 =
     (let c = c0\<lparr>gcCluster := defaultCluster (gcCluster c0), gcSSH := defaultSSH (gcSSH c0)\<rparr>;
          c = c\<lparr>gcHosts := map (defaultHost (gcSSH c)) (gcHosts c)\<rparr>;
          c = c\<lparr>gcCluster := (gcCluster c)\<lparr>ccControlPlaneReplicas :=
                orElse (ccControlPlaneReplicas (gcCluster c)) (of_nat (length (HostsWithRole CfgRoleControlPlane c)))\<rparr>\<rparr>;
          c = c\<lparr>gcWorkers := defaultWorkers (length (HostsWithRole CfgRoleWorker c)) (gcWorkers c)\<rparr>
      in c\<lparr>gcBootstrap := (gcBootstrap c)\<lparr>bcClusterName := orStr (bcClusterName (gcBootstrap c)) DefaultBootstrapName\<rparr>\<rparr>)"

subsection \<open>Validation\<close>

abbreviation num :: "int32 \<Rightarrow> string" where "num n \<equiv> itoa (sint n)"

definition whereAt :: "string \<Rightarrow> nat \<Rightarrow> string" where
  "whereAt what i = what @ ''['' @ itoa (int i) @ '']''"

definition nameErrors :: "string \<Rightarrow> string list \<Rightarrow> string \<Rightarrow> string list" where
  "nameErrors w seen n =
     (if n = [] then [w @ ''.name is required'']
      else if \<not> dnsName n then [w @ ''.name '' @ goQuote n @ '' must be a lowercase DNS label'']
      else if n \<in> set seen then [w @ ''.name '' @ goQuote n @ '' is used more than once'']
      else [])"

text \<open>A name enters the seen set only when nothing is wrong with it.\<close>

definition seeName :: "string list \<Rightarrow> string \<Rightarrow> string list" where
  "seeName seen n = (if n = [] \<or> \<not> dnsName n \<or> n \<in> set seen then seen else n # seen)"

definition identityErrors :: "genesisConfig \<Rightarrow> string list" where
  "identityErrors c =
     (if gcAPIVersion c \<noteq> APIVersion
      then [''apiVersion must be '' @ goQuote APIVersion @ '', got '' @ goQuote (gcAPIVersion c)] else []) @
     (if gcKind c \<noteq> Kind then [''kind must be '' @ goQuote Kind @ '', got '' @ goQuote (gcKind c)] else [])"

definition clusterErrors :: "clusterConfig \<Rightarrow> string list" where
  "clusterErrors cc =
     (if ccName cc = [] then [''cluster.name is required'']
      else if \<not> dnsName (ccName cc) then [''cluster.name '' @ goQuote (ccName cc) @ '' must be a lowercase DNS label'']
      else []) @
     (if ccKubernetesVersion cc = [] then [''cluster.kubernetesVersion is required, e.g. v1.34.1'']
      else if \<not> hasPrefix (ccKubernetesVersion cc) ''v''
      then [''cluster.kubernetesVersion '' @ goQuote (ccKubernetesVersion cc) @ '' must start with v'']
      else []) @
     (if epHost (ccControlPlaneEndpoint cc) = [] then [''cluster.controlPlaneEndpoint.host is required''] else [])"

definition cidrErrors :: "bool \<Rightarrow> networkConfig \<Rightarrow> string list" where
  "cidrErrors reversed nw =
     (let fields = [(''cluster.network.podCIDR'', nwPodCIDR nw), (''cluster.network.serviceCIDR'', nwServiceCIDR nw)]
      in concat (map (\<lambda>(field, cidr). if \<not> parseCIDR cidr then [field @ '' '' @ goQuote cidr @ '' is not a valid CIDR''] else [])
           (if reversed then rev fields else fields)))"

fun manifestErrors :: "configEnv \<Rightarrow> nat \<Rightarrow> string list \<Rightarrow> string list" where
  "manifestErrors E i [] = []"
| "manifestErrors E i (m # ms) =
     (if isURL m then []
      else case statOS E m of
          None \<Rightarrow> []
        | Some e \<Rightarrow> [whereAt ''cluster.cni.manifests'' i @ '' '' @ goQuote m @ '' is not readable: '' @ emsg e]) @
     manifestErrors E (Suc i) ms"

definition addressErrors :: "string \<Rightarrow> string list \<Rightarrow> string \<Rightarrow> string list" where
  "addressErrors w seen a =
     (if a = [] then [w @ ''.address is required'']
      else if a \<in> set seen then [w @ ''.address '' @ goQuote a @ '' is used more than once'']
      else [])"

definition roleErrors :: "string \<Rightarrow> hostConfig \<Rightarrow> string list" where
  "roleErrors w h =
     (if hcfRole h \<noteq> CfgRoleControlPlane \<and> hcfRole h \<noteq> CfgRoleWorker
      then [w @ ''.role '' @ goQuote (hcfRole h) @ '' must be '' @ goQuote CfgRoleControlPlane @ '' or ''
              @ goQuote CfgRoleWorker] else []) @
     (if hcfPrivateKeyPath h = [] \<and> hcfPassword h = []
      then [w @ '' has no credential: set ssh.privateKeyPath, ssh.password or a per-host override''] else [])"

definition keyErrors :: "configEnv \<Rightarrow> genesisConfig \<Rightarrow> string \<Rightarrow> string list \<Rightarrow> string \<Rightarrow> string list" where
  "keyErrors E c w reported k =
     (if k \<noteq> [] \<and> k \<notin> set reported then
        (case statOS E k of
           None \<Rightarrow> []
         | Some e \<Rightarrow>
             if k = shPrivateKeyPath (gcSSH c)
             then [''ssh.privateKeyPath '' @ goQuote k @ '' is not readable: '' @ emsg e]
             else [w @ ''.privateKeyPath '' @ goQuote k @ '' is not readable: '' @ emsg e])
      else [])"

definition policyErrors :: "string \<Rightarrow> hostConfig \<Rightarrow> string list" where
  "policyErrors w h =
     (if hcfHostKeyPolicy h = ''Strict'' then
        (if hcfPublicKey h = [] then [w @ ''.publicKey is required when hostKeyPolicy is Strict''] else [])
      else if hcfHostKeyPolicy h = ''TOFU'' \<or> hcfHostKeyPolicy h = ''Insecure'' then []
      else [w @ ''.hostKeyPolicy '' @ goQuote (hcfHostKeyPolicy h) @ '' must be Strict, TOFU or Insecure''])"

text \<open>The loop over the inventory, with the names and addresses seen and the keys reported.\<close>

fun hostErrors ::
  "configEnv \<Rightarrow> genesisConfig \<Rightarrow> nat \<Rightarrow> string list \<Rightarrow> string list \<Rightarrow> string list \<Rightarrow> hostConfig list \<Rightarrow> string list" where
  "hostErrors E c i names addrs reported [] = []"
| "hostErrors E c i names addrs reported (h # hs) =
     (let w = whereAt ''hosts'' i; k = hcfPrivateKeyPath h
      in nameErrors w names (hcfName h) @ addressErrors w addrs (hcfAddress h) @ roleErrors w h @
         keyErrors E c w reported k @ policyErrors w h @
         hostErrors E c (Suc i) (seeName names (hcfName h))
           (if hcfAddress h = [] \<or> hcfAddress h \<in> set addrs then addrs else hcfAddress h # addrs)
           (if keyErrors E c w reported k \<noteq> [] then k # reported else reported) hs)"

definition replicaErrors :: "genesisConfig \<Rightarrow> string list" where
  "replicaErrors c =
     (let r = ccControlPlaneReplicas (gcCluster c);
          cpHosts = of_nat (length (HostsWithRole CfgRoleControlPlane c)) :: int32
      in if sint r < 1 then
           [''cluster.controlPlaneReplicas must be at least 1; no host has role '' @ goQuote CfgRoleControlPlane]
         else if even (sint r) then
           [''cluster.controlPlaneReplicas is '' @ num r @ ''; etcd quorum needs an odd number'']
         else if sint cpHosts < sint r then
           [''cluster.controlPlaneReplicas is '' @ num r @ '' but only '' @ num cpHosts @ '' host(s) have role ''
              @ goQuote CfgRoleControlPlane]
         else [])"

fun taintErrors :: "string \<Rightarrow> nat \<Rightarrow> taint list \<Rightarrow> string list" where
  "taintErrors w j [] = []"
| "taintErrors w j (t # ts) =
     (if tnEffect t \<in> {''NoSchedule'', ''PreferNoSchedule'', ''NoExecute''} then []
      else [w @ whereAt ''.nodeTaints'' j @ ''.effect '' @ goQuote (tnEffect t)
              @ '' must be NoSchedule, PreferNoSchedule or NoExecute'']) @
     (if tnKey t = [] then [w @ whereAt ''.nodeTaints'' j @ ''.key is required''] else []) @
     taintErrors w (Suc j) ts"

fun poolErrors :: "nat \<Rightarrow> string list \<Rightarrow> workerPool list \<Rightarrow> string list" where
  "poolErrors i seen [] = []"
| "poolErrors i seen (p # ps) =
     (let w = whereAt ''workers'' i
      in nameErrors w seen (wpName p) @
         (if sint (wpReplicas p) < 0 then [w @ ''.replicas must not be negative''] else []) @
         taintErrors w 0 (wpNodeTaints p) @
         poolErrors (Suc i) (seeName seen (wpName p)) ps)"

text \<open>\<^verbatim>\<open>workerReplicas += w.Replicas\<close>, in \<^verbatim>\<open>int32\<close>.\<close>

definition workerReplicas :: "genesisConfig \<Rightarrow> int32" where
  "workerReplicas c = foldl (\<lambda>n p. n + wpReplicas p) 0 (gcWorkers c)"

definition capacityErrors :: "genesisConfig \<Rightarrow> string list" where
  "capacityErrors c =
     (let r = ccControlPlaneReplicas (gcCluster c); want = r + workerReplicas c
      in if sint (of_nat (length (gcHosts c)) :: int32) < sint want
         then [num want @ '' machines requested ('' @ num r @ '' control plane + '' @ num (workerReplicas c)
                @ '' worker) but the inventory has only '' @ itoa (int (length (gcHosts c))) @ '' host(s)'']
         else [])"

definition validationErrors :: "configEnv \<Rightarrow> genesisConfig \<Rightarrow> string list" where
  "validationErrors E c =
     identityErrors c @ clusterErrors (gcCluster c) @ cidrErrors (cidrsReversed E) (ccNetwork (gcCluster c)) @
     manifestErrors E 0 (cniManifests (ccCNI (gcCluster c))) @
     (if length (gcHosts c) = 0 then [''hosts must contain at least one entry''] else []) @
     hostErrors E c 0 [] [] [] (gcHosts c) @ replicaErrors c @ poolErrors 0 [] (gcWorkers c) @ capacityErrors c"

text \<open>\<^verbatim>\<open>errors.Join\<close>: nil when there is nothing to report.\<close>

definition Validate :: "configEnv \<Rightarrow> genesisConfig \<Rightarrow> goerror option" where
  "Validate E c =
     (let errs = validationErrors E c in if errs = [] then None else Some (errorf (joinWith [CHR 0x0A] errs)))"

definition Load :: "configEnv \<Rightarrow> string \<Rightarrow> genesisConfig result" where
  "Load E path =
     (case readFileOS E path of
        Inl e \<Rightarrow> Inl (wrapf ''read config'' e)
      | Inr raw \<Rightarrow>
          (case unmarshalStrict E raw of
             Inl e \<Rightarrow> Inl (wrapf (''parse '' @ path) e)
           | Inr cfg \<Rightarrow>
               let c = ApplyDefaults (resolvePaths E (pathDir path) cfg)
               in case Validate E c of
                    Some e \<Rightarrow> Inl (wrapf (''invalid '' @ path) e)
                  | None \<Rightarrow> Inr c))"

subsection \<open>What a valid configuration is\<close>

text \<open>
  The declarative counterpart of the validator: no seen sets, no messages, no order. The
  capacity of the inventory is compared in \<^verbatim>\<open>int32\<close>, as the code does.
\<close>

definition validHost :: "configEnv \<Rightarrow> hostConfig \<Rightarrow> bool" where
  "validHost E h \<longleftrightarrow>
     hcfAddress h \<noteq> [] \<and> (hcfRole h = CfgRoleControlPlane \<or> hcfRole h = CfgRoleWorker) \<and>
     (hcfPrivateKeyPath h \<noteq> [] \<or> hcfPassword h \<noteq> []) \<and>
     (hcfPrivateKeyPath h \<noteq> [] \<longrightarrow> statOS E (hcfPrivateKeyPath h) = None) \<and>
     (hcfHostKeyPolicy h = ''Strict'' \<and> hcfPublicKey h \<noteq> [] \<or> hcfHostKeyPolicy h = ''TOFU'' \<or>
      hcfHostKeyPolicy h = ''Insecure'')"

definition validPool :: "workerPool \<Rightarrow> bool" where
  "validPool w \<longleftrightarrow> 0 \<le> sint (wpReplicas w) \<and>
     (\<forall>t\<in>set (wpNodeTaints w). tnEffect t \<in> {''NoSchedule'', ''PreferNoSchedule'', ''NoExecute''} \<and> tnKey t \<noteq> [])"

definition distinctNames :: "string list \<Rightarrow> bool" where
  "distinctNames ns \<longleftrightarrow> distinct ns \<and> list_all dnsName ns"

definition validCluster :: "configEnv \<Rightarrow> clusterConfig \<Rightarrow> bool" where
  "validCluster E cc \<longleftrightarrow> dnsName (ccName cc) \<and> hasPrefix (ccKubernetesVersion cc) ''v'' \<and>
     epHost (ccControlPlaneEndpoint cc) \<noteq> [] \<and>
     parseCIDR (nwPodCIDR (ccNetwork cc)) \<and> parseCIDR (nwServiceCIDR (ccNetwork cc)) \<and>
     (\<forall>m\<in>set (cniManifests (ccCNI cc)). isURL m \<or> statOS E m = None)"

definition validReplicas :: "genesisConfig \<Rightarrow> bool" where
  "validReplicas c \<longleftrightarrow> (let r = sint (ccControlPlaneReplicas (gcCluster c)) in
     1 \<le> r \<and> odd r \<and> r \<le> sint (of_nat (length (HostsWithRole CfgRoleControlPlane c)) :: int32))"

definition validConfig :: "configEnv \<Rightarrow> genesisConfig \<Rightarrow> bool" where
  "validConfig E c \<longleftrightarrow>
     gcAPIVersion c = APIVersion \<and> gcKind c = Kind \<and> validCluster E (gcCluster c) \<and>
     gcHosts c \<noteq> [] \<and> distinctNames (map hcfName (gcHosts c)) \<and> distinct (map hcfAddress (gcHosts c)) \<and>
     (\<forall>h\<in>set (gcHosts c). validHost E h) \<and> validReplicas c \<and>
     distinctNames (map wpName (gcWorkers c)) \<and> (\<forall>w\<in>set (gcWorkers c). validPool w) \<and>
     sint (ccControlPlaneReplicas (gcCluster c) + workerReplicas c) \<le> sint (of_nat (length (gcHosts c)) :: int32)"

subsection \<open>Lemmas\<close>

lemma nameErrors_Nil: "nameErrors w seen n = [] \<longleftrightarrow> dnsName n \<and> n \<notin> set seen"
  by (auto simp: nameErrors_def dnsName_def)

lemma seeName_ok: "dnsName n \<Longrightarrow> n \<notin> set seen \<Longrightarrow> seeName seen n = n # seen"
  by (simp add: seeName_def dnsName_def)

lemma addressErrors_Nil: "addressErrors w seen a = [] \<longleftrightarrow> a \<noteq> [] \<and> a \<notin> set seen"
  by (auto simp: addressErrors_def)

lemma manifestErrors_Nil: "manifestErrors E i ms = [] \<longleftrightarrow> (\<forall>m\<in>set ms. isURL m \<or> statOS E m = None)"
  by (induction ms arbitrary: i) (auto split: option.split)

lemma keyErrors_Nil: "keyErrors E c w [] k = [] \<longleftrightarrow> k \<noteq> [] \<longrightarrow> statOS E k = None"
  by (auto simp: keyErrors_def split: option.split)

lemma hostErrors_Nil:
  "hostErrors E c i names addrs [] hs = [] \<longleftrightarrow>
   distinctNames (map hcfName hs) \<and> set (map hcfName hs) \<inter> set names = {} \<and>
   distinct (map hcfAddress hs) \<and> set (map hcfAddress hs) \<inter> set addrs = {} \<and> (\<forall>h\<in>set hs. validHost E h)"
proof (induction hs arbitrary: i names addrs)
  case (Cons h hs)
  let ?w = "whereAt ''hosts'' i"
  have one: "roleErrors ?w h = [] \<and> policyErrors ?w h = [] \<and> keyErrors E c ?w [] (hcfPrivateKeyPath h) = [] \<and>
      hcfAddress h \<noteq> [] \<longleftrightarrow> validHost E h"
    by (auto simp: roleErrors_def policyErrors_def validHost_def keyErrors_Nil)
  have "hostErrors E c i names addrs [] (h # hs) = [] \<longleftrightarrow>
      (dnsName (hcfName h) \<and> hcfName h \<notin> set names) \<and> hcfAddress h \<notin> set addrs \<and> validHost E h \<and>
      hostErrors E c (Suc i) (hcfName h # names) (hcfAddress h # addrs) [] hs = []"
    unfolding one [symmetric]
    by (auto simp: Let_def nameErrors_Nil addressErrors_Nil seeName_ok)
  then show ?case
    unfolding Cons.IH by (auto simp: distinctNames_def)
qed (simp add: distinctNames_def)

lemma taintErrors_Nil:
  "taintErrors w j ts = [] \<longleftrightarrow>
   (\<forall>t\<in>set ts. tnEffect t \<in> {''NoSchedule'', ''PreferNoSchedule'', ''NoExecute''} \<and> tnKey t \<noteq> [])"
  by (induction ts arbitrary: j) auto

lemma poolErrors_Nil:
  "poolErrors i seen ps = [] \<longleftrightarrow>
   distinctNames (map wpName ps) \<and> set (map wpName ps) \<inter> set seen = {} \<and> (\<forall>p\<in>set ps. validPool p)"
proof (induction ps arbitrary: i seen)
  case (Cons p ps)
  have "poolErrors i seen (p # ps) = [] \<longleftrightarrow>
      (dnsName (wpName p) \<and> wpName p \<notin> set seen) \<and> validPool p \<and> poolErrors (Suc i) (wpName p # seen) ps = []"
    by (auto simp: Let_def nameErrors_Nil seeName_ok taintErrors_Nil validPool_def)
  then show ?case
    unfolding Cons.IH by (auto simp: distinctNames_def)
qed (simp add: distinctNames_def)

lemma cidrErrors_Nil: "cidrErrors b nw = [] \<longleftrightarrow> parseCIDR (nwPodCIDR nw) \<and> parseCIDR (nwServiceCIDR nw)"
  by (cases b) (simp_all add: cidrErrors_def)

lemma clusterErrors_Nil:
  "clusterErrors cc = [] \<and> cidrErrors b (ccNetwork cc) = [] \<and> manifestErrors E i (cniManifests (ccCNI cc)) = [] \<longleftrightarrow>
   validCluster E cc"
  by (auto simp: clusterErrors_def cidrErrors_Nil validCluster_def manifestErrors_Nil dnsName_def)

lemma replicaErrors_Nil: "replicaErrors c = [] \<longleftrightarrow> validReplicas c"
  by (auto simp: replicaErrors_def validReplicas_def Let_def)

lemma capacityErrors_Nil:
  "capacityErrors c = [] \<longleftrightarrow>
   sint (ccControlPlaneReplicas (gcCluster c) + workerReplicas c) \<le> sint (of_nat (length (gcHosts c)) :: int32)"
  by (auto simp: capacityErrors_def Let_def)

lemma validationErrors_Nil: "validationErrors E c = [] \<longleftrightarrow> validConfig E c"
proof -
  have "identityErrors c = [] \<longleftrightarrow> gcAPIVersion c = APIVersion \<and> gcKind c = Kind"
    by (simp add: identityErrors_def)
  then show ?thesis
    using clusterErrors_Nil [of "gcCluster c" "cidrsReversed E" E 0]
    by (auto simp: validationErrors_def validConfig_def hostErrors_Nil poolErrors_Nil replicaErrors_Nil capacityErrors_Nil)
qed

text \<open>
  C21. \<^verbatim>\<open>Validate\<close> accepts exactly the configurations that are valid in the declarative sense:
  unique DNS names and unique addresses, known roles, a readable credential for every host, a
  host key under the strict policy, an odd number of control plane machines that the inventory
  can host, well-formed pools and CIDR blocks. It neither misses a problem nor invents one,
  whatever the order in which Go visits a map.
\<close>

theorem Validate_iff_valid: "Validate E c = None \<longleftrightarrow> validConfig E c"
  by (simp add: Validate_def Let_def validationErrors_Nil)

subsection \<open>Defaults and loading\<close>

lemma orStr_idem [simp]: "orStr (orStr s d) d = orStr s d" by (simp add: orStr_def)
lemma orElse_idem [simp]: "orElse (orElse s d) d = orElse s d" by (simp add: orElse_def)

lemma defaultPool_idem [simp]: "defaultPool (defaultPool w) = defaultPool w"
  by (simp add: defaultPool_def)

lemma defaultWorkers_idem: "defaultWorkers n (defaultWorkers n ws) = defaultWorkers n ws"
  by (simp add: defaultWorkers_def)

lemma defaultHost_idem: "defaultHost s (defaultHost s h) = defaultHost s h"
  by (simp add: defaultHost_def)

lemma defaultSSH_idem: "defaultSSH (defaultSSH s) = defaultSSH s"
  by (simp add: defaultSSH_def)

lemma HostsWithRole_defaults:
  "length (HostsWithRole r (c\<lparr>gcHosts := map (defaultHost s) hs\<rparr>)) = length (HostsWithRole r (c\<lparr>gcHosts := hs\<rparr>))"
  by (simp add: HostsWithRole_def filter_map o_def defaultHost_def)

text \<open>The number of hosts with a role survives the defaults, so every field is filled from the same values again.\<close>

lemma ApplyDefaults_parts:
  "gcSSH (ApplyDefaults c) = defaultSSH (gcSSH c)"
  "gcHosts (ApplyDefaults c) = map (defaultHost (defaultSSH (gcSSH c))) (gcHosts c)"
  "gcWorkers (ApplyDefaults c) = defaultWorkers (length (HostsWithRole CfgRoleWorker c)) (gcWorkers c)"
  "gcCluster (ApplyDefaults c) = (defaultCluster (gcCluster c))\<lparr>ccControlPlaneReplicas :=
     orElse (ccControlPlaneReplicas (gcCluster c)) (of_nat (length (HostsWithRole CfgRoleControlPlane c)))\<rparr>"
  "gcBootstrap (ApplyDefaults c) = (gcBootstrap c)\<lparr>bcClusterName := orStr (bcClusterName (gcBootstrap c)) DefaultBootstrapName\<rparr>"
  "gcAPIVersion (ApplyDefaults c) = gcAPIVersion c" "gcKind (ApplyDefaults c) = gcKind c"
  by (simp_all add: ApplyDefaults_def Let_def HostsWithRole_def filter_map o_def defaultHost_def defaultCluster_def)

lemma length_HostsWithRole_ApplyDefaults:
  "length (HostsWithRole r (ApplyDefaults c)) = length (HostsWithRole r c)"
  by (simp add: HostsWithRole_def ApplyDefaults_parts filter_map o_def defaultHost_def)

lemma defaultCluster_idem:
  "defaultCluster ((defaultCluster cc)\<lparr>ccControlPlaneReplicas := n\<rparr>) = (defaultCluster cc)\<lparr>ccControlPlaneReplicas := n\<rparr>"
  by (simp add: defaultCluster_def)

lemma ApplyDefaults_twice: "ApplyDefaults (ApplyDefaults c) = ApplyDefaults c"
  by (rule genesisConfig.equality)
    (simp_all add: ApplyDefaults_parts length_HostsWithRole_ApplyDefaults defaultSSH_idem defaultHost_idem
      defaultWorkers_idem defaultCluster_idem)

text \<open>
  \<^verbatim>\<open>ApplyDefaults\<close> may be called more than once, as its comment promises: a second call
  changes nothing.
\<close>

theorem ApplyDefaults_idempotent: "ApplyDefaults (ApplyDefaults c) = ApplyDefaults c"
  by (rule ApplyDefaults_twice)

text \<open>Every optional field is filled.\<close>

definition complete :: "genesisConfig \<Rightarrow> bool" where
  "complete c \<longleftrightarrow>
     (ccName (gcCluster c) \<noteq> [] \<longrightarrow> ccNamespace (gcCluster c) \<noteq> []) \<and>
     epPort (ccControlPlaneEndpoint (gcCluster c)) \<noteq> 0 \<and>
     nwServiceDomain (ccNetwork (gcCluster c)) \<noteq> [] \<and> bcClusterName (gcBootstrap c) \<noteq> [] \<and>
     (\<forall>h\<in>set (gcHosts c). hcfUser h \<noteq> [] \<and> hcfPort h \<noteq> 0 \<and> hcfHostKeyPolicy h \<noteq> []) \<and>
     (\<forall>w\<in>set (gcWorkers c). wpHostSelector w \<noteq> [])"

lemma complete_ApplyDefaults: "complete (ApplyDefaults c)"
  by (auto simp: complete_def ApplyDefaults_parts defaultCluster_def defaultHost_def defaultSSH_def
      defaultWorkers_def defaultPool_def orStr_def orElse_def default_defs)

lemma Load_checked:
  assumes "Load E path = Inr c"
  shows "validConfig E c \<and> complete c \<and> ApplyDefaults c = c \<and> ccNamespace (gcCluster c) \<noteq> [] \<and>
    epHost (ccControlPlaneEndpoint (gcCluster c)) \<noteq> [] \<and> epPort (ccControlPlaneEndpoint (gcCluster c)) \<noteq> 0"
proof -
  obtain c0 where c: "c = ApplyDefaults c0" and v: "Validate E c = None"
    using assms by (auto simp: Load_def Let_def split: sum.splits option.splits)
  have valid: "validConfig E c" using v by (simp add: Validate_def Let_def validationErrors_Nil split: if_splits)
  have "complete c" unfolding c by (rule complete_ApplyDefaults)
  moreover have "ApplyDefaults c = c"
    unfolding c by (rule ApplyDefaults_twice)
  moreover have "ccName (gcCluster c) \<noteq> []" "epHost (ccControlPlaneEndpoint (gcCluster c)) \<noteq> []"
    using valid by (auto simp: validConfig_def validCluster_def dnsName_def)
  ultimately show ?thesis using valid by (auto simp: complete_def)
qed

text \<open>
  C28. A configuration that \<^verbatim>\<open>Load\<close> returns is valid, has every optional field filled and is
  a fixed point of the defaults; its namespace and its control plane endpoint are set, which
  the renderer and the cluster reconciler rely on.
\<close>

theorem Load_complete_and_valid:
  assumes "Load E path = Inr c"
  shows "validConfig E c \<and> complete c \<and> ApplyDefaults c = c \<and> ccNamespace (gcCluster c) \<noteq> [] \<and>
    epHost (ccControlPlaneEndpoint (gcCluster c)) \<noteq> [] \<and> epPort (ccControlPlaneEndpoint (gcCluster c)) \<noteq> 0"
  by (rule Load_checked [OF assms])

subsection \<open>Capacity\<close>

lemma sint_sum_nonneg:
  fixes a b :: int32
  assumes "0 \<le> sint a" "0 \<le> sint b" "sint a + sint b < 2 ^ 31"
  shows "sint (a + b) = sint a + sint b"
  using assms by (simp add: sint_word_ariths signed_take_bit_int_eq_self)

lemma sint_of_nat_small: "n < 2 ^ 31 \<Longrightarrow> sint (of_nat n :: int32) = int n"
  by (simp add: signed_of_nat signed_take_bit_int_eq_self)

lemma sint_workerReplicas:
  assumes "\<And>w. w \<in> set ws \<Longrightarrow> 0 \<le> sint (wpReplicas w)" "0 \<le> sint a"
    and "sint a + (\<Sum>w\<leftarrow>ws. sint (wpReplicas w)) < 2 ^ 31"
  shows "sint (foldl (\<lambda>n p. n + wpReplicas p) a ws) = sint a + (\<Sum>w\<leftarrow>ws. sint (wpReplicas w))"
  using assms
proof (induction ws arbitrary: a)
  case (Cons w ws)
  have rest: "0 \<le> (\<Sum>w\<leftarrow>ws. sint (wpReplicas w))"
    using Cons.prems(1) by (intro sum_list_nonneg) auto
  have "sint (a + wpReplicas w) = sint a + sint (wpReplicas w)"
    using Cons.prems rest by (intro sint_sum_nonneg) auto
  then show ?case using Cons.IH [of "a + wpReplicas w"] Cons.prems by simp
qed simp

text \<open>
  C29. Every machine claims one host: as long as the number of machines asked for fits an
  \<^verbatim>\<open>int32\<close>, a configuration that passes asks for no more machines than it has hosts.
\<close>

theorem Validate_capacity:
  assumes "Validate E c = None"
    and "length (gcHosts c) < 2 ^ 31"
    and "sint (ccControlPlaneReplicas (gcCluster c)) + (\<Sum>w\<leftarrow>gcWorkers c. sint (wpReplicas w)) < 2 ^ 31"
  shows "sint (ccControlPlaneReplicas (gcCluster c)) + (\<Sum>w\<leftarrow>gcWorkers c. sint (wpReplicas w)) \<le> int (length (gcHosts c))"
proof -
  let ?r = "ccControlPlaneReplicas (gcCluster c)"
  have v: "validConfig E c" using assms(1) by (simp add: Validate_def Let_def validationErrors_Nil split: if_splits)
  then have nonneg: "0 \<le> sint (wpReplicas w)" if "w \<in> set (gcWorkers c)" for w
    using that by (simp add: validConfig_def validPool_def)
  have r: "0 \<le> sint ?r" using v by (simp add: validConfig_def validReplicas_def Let_def)
  have s: "sint (workerReplicas c) = (\<Sum>w\<leftarrow>gcWorkers c. sint (wpReplicas w))"
    using sint_workerReplicas [of "gcWorkers c" 0] nonneg assms(3) r by (simp add: workerReplicas_def)
  have "0 \<le> sint (workerReplicas c)" unfolding s using nonneg by (intro sum_list_nonneg) auto
  then have "sint (?r + workerReplicas c) = sint ?r + sint (workerReplicas c)"
    using r assms(3) by (intro sint_sum_nonneg) (auto simp: s)
  then show ?thesis
    using v s by (simp add: validConfig_def sint_of_nat_small [OF assms(2)])
qed

text \<open>Two small configurations, on an environment where every file is there.\<close>

definition exampleHostConfig :: "string \<Rightarrow> string \<Rightarrow> string \<Rightarrow> hostConfig" where
  "exampleHostConfig name addr role = \<lparr>hcfName = name, hcfAddress = addr, hcfRole = role, hcfLabels = [],
     hcfUser = [], hcfPort = 0, hcfPrivateKeyPath = [], hcfPassphrase = [], hcfPassword = [], hcfHostKeyPolicy = [],
     hcfPublicKey = []\<rparr>"

definition examplePoolConfig :: "string \<Rightarrow> int32 \<Rightarrow> workerPool" where
  "examplePoolConfig name n = \<lparr>wpName = name, wpReplicas = n, wpHostSelector = [], wpNodeLabels = [], wpNodeTaints = []\<rparr>"

definition exampleConfig :: "hostConfig list \<Rightarrow> workerPool list \<Rightarrow> genesisConfig" where
  "exampleConfig hosts pools = \<lparr>gcAPIVersion = APIVersion, gcKind = Kind,
     gcCluster = \<lparr>ccName = ''lab'', ccNamespace = [], ccKubernetesVersion = ''v1.34.1'',
       ccControlPlaneEndpoint = \<lparr>epHost = ''10.0.0.9'', epPort = 0\<rparr>, ccControlPlaneReplicas = 0,
       ccNetwork = \<lparr>nwPodCIDR = [], nwServiceCIDR = [], nwServiceDomain = []\<rparr>, ccImageRepository = [],
       ccPreKubeadmCommands = [], ccPostKubeadmCommands = [], ccIgnorePreflightErrors = [],
       ccCNI = \<lparr>cniManifests = []\<rparr>, ccVirtualIP = \<lparr>vipEnabled = False, vipInterface = [], vipVersion = []\<rparr>\<rparr>,
     gcSSH = \<lparr>shUser = [], shPort = 0, shPrivateKeyPath = ''id'', shPassphrase = [], shPassword = [], shHostKeyPolicy = []\<rparr>,
     gcHosts = hosts, gcWorkers = pools,
     gcBootstrap = \<lparr>bcClusterName = [], bcNodeImage = [], bcCAPIVersion = [], bcCertManagerVersion = []\<rparr>\<rparr>"

definition exampleEnv :: "genesisConfig \<Rightarrow> configEnv" where
  "exampleEnv c = \<lparr>readFileOS = (\<lambda>_. Inr ''text''), statOS = (\<lambda>_. None), userHomeDir = Inr ''/root'',
     unmarshalStrict = (\<lambda>_. Inr c), cidrsReversed = False\<rparr>"

definition exampleTwo :: genesisConfig where
  "exampleTwo = exampleConfig [exampleHostConfig ''cp-1'' ''10.0.0.1'' CfgRoleControlPlane,
     exampleHostConfig ''w-1'' ''10.0.0.2'' CfgRoleWorker] []"

lemma exampleTwo_loads: "Load (exampleEnv exampleTwo) ''/etc/kg/kg.yaml'' =
  Inr (ApplyDefaults (resolvePaths (exampleEnv exampleTwo) ''/etc/kg'' exampleTwo))"
  by code_simp

theorem Load_complete_and_valid_witness:
  "validConfig (exampleEnv exampleTwo) (ApplyDefaults (resolvePaths (exampleEnv exampleTwo) ''/etc/kg'' exampleTwo))"
  using Load_complete_and_valid [OF exampleTwo_loads] by (elim conjE)

theorem Validate_capacity_witness:
  "sint (ccControlPlaneReplicas (gcCluster (ApplyDefaults exampleTwo))) +
     (\<Sum>w\<leftarrow>gcWorkers (ApplyDefaults exampleTwo). sint (wpReplicas w)) \<le> 2"
proof -
  have v: "Validate (exampleEnv exampleTwo) (ApplyDefaults exampleTwo) = None"
    and n: "length (gcHosts (ApplyDefaults exampleTwo)) = 2"
    and s: "sint (ccControlPlaneReplicas (gcCluster (ApplyDefaults exampleTwo))) +
     (\<Sum>w\<leftarrow>gcWorkers (ApplyDefaults exampleTwo). sint (wpReplicas w)) < 2 ^ 31"
    by code_simp+
  show ?thesis using Validate_capacity [OF v _ s] n by simp
qed

text \<open>
  The sum of the replicas is an \<^verbatim>\<open>int32\<close> and wraps: two pools of \<open>2 ^ 31 - 1\<close> machines each
  pass the capacity check of an inventory with one host.
\<close>

theorem Validate_capacity_wraps:
  "let c = ApplyDefaults (exampleConfig [exampleHostConfig ''cp-1'' ''10.0.0.1'' CfgRoleControlPlane]
             [examplePoolConfig ''a'' 0x7FFFFFFF, examplePoolConfig ''b'' 0x7FFFFFFF])
   in Validate (exampleEnv c) c = None \<and> length (gcHosts c) = 1 \<and>
      (\<Sum>w\<leftarrow>gcWorkers c. sint (wpReplicas w)) = 2 * (2 ^ 31 - 1)"
  by code_simp

text \<open>
  The capacity is counted over the whole inventory, not per role: three control plane
  hosts with one control plane machine leave room for two workers in the count, although no
  host carries the role that the pool selects, so those machines wait for ever.
\<close>

theorem Validate_accepts_unservable_pool:
  "let c = ApplyDefaults ((exampleConfig [exampleHostConfig ''cp-1'' ''10.0.0.1'' CfgRoleControlPlane,
               exampleHostConfig ''cp-2'' ''10.0.0.2'' CfgRoleControlPlane,
               exampleHostConfig ''cp-3'' ''10.0.0.3'' CfgRoleControlPlane] [examplePoolConfig ''a'' 2])
             \<lparr>gcCluster := (gcCluster (exampleConfig [] []))\<lparr>ccControlPlaneReplicas := 1\<rparr>\<rparr>)
   in Validate (exampleEnv c) c = None \<and> HostsWithRole CfgRoleWorker c = [] \<and>
      map (\<lambda>w. (sint (wpReplicas w), wpHostSelector w)) (gcWorkers c) = [(2, [(CfgRoleLabel, CfgRoleWorker)])]"
  by code_simp

subsection \<open>Paths\<close>

text \<open>
  A path is resolved once: with an absolute configuration directory and home directory,
  what a relative or home path became no longer depends on any base.
\<close>

theorem resolvePath_settles:
  assumes "isAbs base" "\<And>home. userHomeDir E = Inr home \<Longrightarrow> isAbs home"
  shows "resolvePath E base' (resolvePath E base p) = resolvePath E base p \<and>
    (p \<noteq> [] \<longrightarrow> \<not> hasPrefix p ''~/'' \<longrightarrow> isAbs (resolvePath E base p))"
proof -
  have fixed: "resolvePath E base' q = q" if "isAbs q" for q
    using that by (cases q) (auto simp: resolvePath_def isAbs_def)
  have rel: "resolvePath E base p = (if p = [] then [] else if isAbs p then p else pathJoin [base, p])"
    if "\<not> hasPrefix p ''~/''" using that by (simp add: resolvePath_def)
  show ?thesis
  proof (cases "hasPrefix p ''~/''")
    case True
    then have home: "resolvePath E b p = (case userHomeDir E of Inl _ \<Rightarrow> p | Inr home \<Rightarrow> pathJoin [home, drop 2 p])" for b
      by (auto simp: resolvePath_def)
    show ?thesis
    proof (cases "userHomeDir E")
      case (Inr h)
      then show ?thesis using True home fixed [OF isAbs_pathJoin [OF assms(2) [OF Inr]]] by simp
    qed (use True home in simp)
  next
    case False
    then show ?thesis
      using rel fixed isAbs_pathJoin [OF assms(1)] by (auto simp: resolvePath_def)
  qed
qed

theorem resolvePath_settles_witness:
  "resolvePath (exampleEnv exampleTwo) ''/other'' ''/etc/kg/keys/id'' = ''/etc/kg/keys/id''"
proof -
  have e: "resolvePath (exampleEnv exampleTwo) ''/etc/kg'' ''./keys/../keys/id'' = ''/etc/kg/keys/id''" by code_simp
  have "resolvePath (exampleEnv exampleTwo) ''/other'' (resolvePath (exampleEnv exampleTwo) ''/etc/kg'' ''./keys/../keys/id'') =
      resolvePath (exampleEnv exampleTwo) ''/etc/kg'' ''./keys/../keys/id''"
    by (rule conjunct1 [OF resolvePath_settles]) (auto simp: isAbs_def exampleEnv_def)
  then show ?thesis unfolding e .
qed

end
