(* ===== verification/KG_Render.thy ===== *)
theory KG_Render
  imports KG_Config KG_ApiTypes KG_Sha256
begin

text \<open>
  \<^verbatim>\<open>internal/render\<close>: from the configuration to the objects that are applied to the management
  cluster. The objects of Cluster API are records with the fields kg sets; the private keys
  are read through the environment of the loader. The theorems show that every host gets the
  secret that holds its own credential, that the rendered objects have distinct identities
  unless a pool is called \<^verbatim>\<open>control-plane\<close>, and that every reference between them resolves.
\<close>

subsection \<open>Rendered objects\<close>

definition infraAPIGroup :: string where "infraAPIGroup = ''infrastructure.kgenesis.io''"
definition bootstrapAPIGroup :: string where "bootstrapAPIGroup = ''bootstrap.cluster.x-k8s.io''"
definition controlPlaneAPIGroup :: string where "controlPlaneAPIGroup = ''controlplane.cluster.x-k8s.io''"

definition CapiClusterNameLabel :: string where "CapiClusterNameLabel = ''cluster.x-k8s.io/cluster-name''"
definition clusterctlMoveLabel :: string where "clusterctlMoveLabel = ''clusterctl.cluster.x-k8s.io/move''"

record objRef =
  rfAPIGroup :: string
  rfKind :: string
  rfName :: string

record capiCluster =
  kcMeta :: objectMeta
  kcPods :: "string list"
  kcServices :: "string list"
  kcServiceDomain :: string
  kcControlPlaneRef :: objRef
  kcInfrastructureRef :: objRef

record kubeadmFile =
  kfPath :: string
  kfOwner :: string
  kfPermissions :: string
  kfContent :: string

record nodeRegistration =
  nrKubeletExtraArgs :: "(string \<times> string) list"
  nrTaints :: "taint list option"
  nrIgnorePreflightErrors :: "string list"

record kubeadmConfigSpec =
  ksImageRepository :: string
  ksCertSANs :: "string list"
  ksInitRegistration :: nodeRegistration
  ksJoinRegistration :: nodeRegistration
  ksFiles :: "kubeadmFile list"
  ksPreKubeadmCommands :: "string list"
  ksPostKubeadmCommands :: "string list"

record kubeadmControlPlane =
  kcpMeta :: objectMeta
  kcpReplicas :: int32
  kcpVersion :: string
  kcpInfrastructureRef :: objRef
  kcpConfigSpec :: kubeadmConfigSpec

record kubeadmConfigTemplate =
  ktMeta :: objectMeta
  ktSpec :: kubeadmConfigSpec

datatype deletionOrder = OldestMachineSetDeletionOrder

record machineDeployment =
  mdMeta :: objectMeta
  mdClusterName :: string
  mdReplicas :: int32
  mdSelector :: labels
  mdDeletionOrder :: deletionOrder
  mdTemplateLabels :: labels
  mdVersion :: string
  mdBootstrapRef :: objRef
  mdInfrastructureRef :: objRef

datatype clientObject =
    ONamespace objectMeta
  | OSecret secret
  | OHost host
  | OCluster capiCluster
  | OHostCluster hostCluster
  | OHostMachineTemplate hostMachineTemplate
  | OKubeadmControlPlane kubeadmControlPlane
  | OKubeadmConfigTemplate kubeadmConfigTemplate
  | OMachineDeployment machineDeployment

record objects =
  obNamespace :: objectMeta
  obSecrets :: "secret list"
  obHosts :: "host list"
  obCluster :: capiCluster
  obInfra :: "clientObject list"

definition AllObjects :: "objects \<Rightarrow> clientObject list" where
  "AllObjects objs = ONamespace (obNamespace objs) # map OSecret (obSecrets objs) @ map OHost (obHosts objs) @
     OCluster (obCluster objs) # obInfra objs"

text \<open>The metadata of a fresh object: a name, a namespace, labels, and zero values.\<close>

definition freshMeta :: "string \<Rightarrow> string \<Rightarrow> labels \<Rightarrow> objectMeta" where
  "freshMeta ns name ls = \<lparr>mNamespace = ns, mName = name, mUID = [], mResourceVersion = [], mGeneration = 0,
     mLabels = ls, mAnnotations = [], mFinalizers = [], mOwnerRefs = [], mDeletionTimestamp = None\<rparr>"

lemma freshMeta_sel [simp]:
  "mNamespace (freshMeta ns name ls) = ns" "mName (freshMeta ns name ls) = name" "mLabels (freshMeta ns name ls) = ls"
  "mDeletionTimestamp (freshMeta ns name ls) = None"
  by (simp_all add: freshMeta_def)

subsection \<open>Names and small helpers\<close>

definition SSHSecretName :: "string \<Rightarrow> string" where "SSHSecretName fp = ''kgenesis-ssh-'' @ fp"
definition ControlPlaneName :: "string \<Rightarrow> string" where "ControlPlaneName cl = cl @ ''-control-plane''"
definition ControlPlaneTemplateName :: "string \<Rightarrow> string" where "ControlPlaneTemplateName cl = cl @ ''-control-plane''"
definition WorkerTemplateName :: "string \<Rightarrow> string \<Rightarrow> string" where "WorkerTemplateName cl pool = cl @ ''-'' @ pool"
definition WorkerBootstrapName :: "string \<Rightarrow> string \<Rightarrow> string" where "WorkerBootstrapName cl pool = cl @ ''-'' @ pool"
definition WorkerDeploymentName :: "string \<Rightarrow> string \<Rightarrow> string" where "WorkerDeploymentName cl pool = cl @ ''-'' @ pool"

lemmas name_defs = SSHSecretName_def ControlPlaneName_def ControlPlaneTemplateName_def WorkerTemplateName_def
  WorkerBootstrapName_def WorkerDeploymentName_def

abbreviation clusterOf :: "genesisConfig \<Rightarrow> string" where "clusterOf cfg \<equiv> ccName (gcCluster cfg)"
abbreviation namespaceOf :: "genesisConfig \<Rightarrow> string" where "namespaceOf cfg \<equiv> ccNamespace (gcCluster cfg)"

definition poolLabels :: "genesisConfig \<Rightarrow> labels" where
  "poolLabels cfg = [(CapiClusterNameLabel, clusterOf cfg)]"

definition withUserCommands :: "string list \<Rightarrow> string list \<Rightarrow> string list" where
  "withUserCommands ours theirs = ours @ theirs"

definition nodePreflightCommands :: "string list" where
  "nodePreflightCommands = [
     ''swapoff -a || true'',
     ''awk '' @ [CHR 0x27] @ ''NR > 1 { print $1 }'' @ [CHR 0x27] @ '' /proc/swaps | while read -r area; do swapoff '' @ [CHR 0x22] @ ''$area'' @ [CHR 0x22] @ '' || true; done'',
     ''if [ -f /etc/fstab ]; then sed -ri '' @ [CHR 0x27] @ ''s/^([^#].*'' @ [CHR 0x5C] @ ''sswap'' @ [CHR 0x5C] @ ''s)/#'' @ [CHR 0x5C] @ ''1/'' @ [CHR 0x27] @ '' /etc/fstab; fi'',
     ''if [ '' @ [CHR 0x22] @ ''$(awk '' @ [CHR 0x27] @ ''NR > 1'' @ [CHR 0x27] @ '' /proc/swaps | wc -l)'' @ [CHR 0x22] @ '' -ne 0 ]; then echo '' @ [CHR 0x27] @ ''kg: swap is still active, and kubelet refuses to start with it on. Disable it on this host and retry.'' @ [CHR 0x27] @ '' >&2; cat /proc/swaps >&2; exit 1; fi'',
     ''modprobe overlay 2>/dev/null || true'',
     ''modprobe br_netfilter 2>/dev/null || true'',
     ''printf '' @ [CHR 0x27] @ ''overlay'' @ [CHR 0x5C] @ ''nbr_netfilter'' @ [CHR 0x5C] @ ''n'' @ [CHR 0x27] @ '' > /etc/modules-load.d/kgenesis.conf'',
     ''test -e /proc/sys/net/bridge/bridge-nf-call-iptables || { echo '' @ [CHR 0x27] @ ''kg: br_netfilter is unavailable, so bridged traffic would bypass kube-proxy. Load the module on this host and retry.'' @ [CHR 0x27] @ '' >&2; exit 1; }'',
     ''printf '' @ [CHR 0x27] @ ''net.bridge.bridge-nf-call-iptables=1'' @ [CHR 0x5C] @ ''nnet.bridge.bridge-nf-call-ip6tables=1'' @ [CHR 0x5C] @ ''nnet.ipv4.ip_forward=1'' @ [CHR 0x5C] @ ''n'' @ [CHR 0x27] @ '' > /etc/sysctl.d/99-kgenesis.conf'',
     ''sysctl --system'']"

text \<open>The keys of the map come out sorted, so its iteration order does not matter.\<close>

definition nodeLabelArgs :: "labels \<Rightarrow> (string \<times> string) list" where
  "nodeLabelArgs ls =
     (if length ls = 0 then []
      else [(''node-labels'', joinWith '','' (map (\<lambda>k. k @ ''='' @ mapGet ls k) (sortStrings (map fst ls))))])"

definition nodeTaints :: "taint list \<Rightarrow> taint list option" where
  "nodeTaints ts = (if length ts = 0 then None else
     Some (map (\<lambda>t. \<lparr>tnKey = tnKey t, tnValue = tnValue t, tnEffect = tnEffect t\<rparr>) ts))"

subsection \<open>Secrets\<close>

record credential =
  crPrivateKey :: string
  crPassphrase :: string
  crPassword :: string

definition fingerprintOf :: "credential \<Rightarrow> string" where
  "fingerprintOf cr = take 12 (sha256Hex (crPrivateKey cr @ [CHR 0x00] @ crPassphrase cr @ [CHR 0x00] @ crPassword cr))"

definition credentialOf :: "configEnv \<Rightarrow> hostConfig \<Rightarrow> credential result" where
  "credentialOf E h =
     (let cred = \<lparr>crPrivateKey = [], crPassphrase = hcfPassphrase h, crPassword = hcfPassword h\<rparr>
      in if hcfPrivateKeyPath h \<noteq> [] then
           (case readFileOS E (hcfPrivateKeyPath h) of
              Inl e \<Rightarrow> Inl (wrapf (''host '' @ hcfName h @ '': read private key'') e)
            | Inr key \<Rightarrow> Inr (cred\<lparr>crPrivateKey := key\<rparr>))
         else Inr cred)"

text \<open>The loop over the hosts: the credentials by fingerprint, the secret of each host.\<close>

fun collectSecrets ::
  "configEnv \<Rightarrow> (string \<times> credential) list \<Rightarrow> labels \<Rightarrow> hostConfig list \<Rightarrow> ((string \<times> credential) list \<times> labels) result" where
  "collectSecrets E byFp forHost [] = Inr (byFp, forHost)"
| "collectSecrets E byFp forHost (h # hs) =
     (case credentialOf E h of
        Inl e \<Rightarrow> Inl e
      | Inr cred \<Rightarrow>
          let fp = fingerprintOf cred
          in collectSecrets E (AList.update fp cred byFp) (AList.update (hcfName h) (SSHSecretName fp) forHost) hs)"

definition secretData :: "credential \<Rightarrow> labels" where
  "secretData cr =
     (if 0 < length (crPrivateKey cr) then [(''private_key'', crPrivateKey cr)] else []) @
     (if crPassphrase cr \<noteq> [] then [(''passphrase'', crPassphrase cr)] else []) @
     (if crPassword cr \<noteq> [] then [(''password'', crPassword cr)] else [])"

definition secretOf :: "genesisConfig \<Rightarrow> string \<Rightarrow> credential \<Rightarrow> secret" where
  "secretOf cfg fp cr =
     \<lparr>scMeta = freshMeta (namespaceOf cfg) (SSHSecretName fp) (AList.update clusterctlMoveLabel [] (poolLabels cfg)),
      scData = secretData cr\<rparr>"

definition zeroCredential :: credential where
  "zeroCredential = \<lparr>crPrivateKey = [], crPassphrase = [], crPassword = []\<rparr>"

definition renderSecrets :: "configEnv \<Rightarrow> genesisConfig \<Rightarrow> (secret list \<times> labels) result" where
  "renderSecrets E cfg =
     (case collectSecrets E [] [] (gcHosts cfg) of
        Inl e \<Rightarrow> Inl e
      | Inr (byFp, forHost) \<Rightarrow>
          Inr (map (\<lambda>f. secretOf cfg f (case map_of byFp f of Some cr \<Rightarrow> cr | None \<Rightarrow> zeroCredential))
                 (sortStrings (map fst byFp)), forHost))"

subsection \<open>Hosts, cluster, control plane\<close>

definition hostLabels :: "hostConfig \<Rightarrow> labels" where
  "hostLabels h = fold (\<lambda>(k, v) ls. AList.update k v ls) (hcfLabels h) [(RoleLabel, hcfRole h)]"

definition renderHost :: "genesisConfig \<Rightarrow> hostConfig \<Rightarrow> string \<Rightarrow> host" where
  "renderHost cfg h secretName =
     \<lparr>hMeta = freshMeta (namespaceOf cfg) (hcfName h) (hostLabels h),
      hSpec = \<lparr>hsAddress = hcfAddress h, hsPort = sint (hcfPort h), hsUser = hcfUser h, hsSSHSecretRef = secretName,
        hsHostKeyPolicy = hcfHostKeyPolicy h, hsPublicKey = hcfPublicKey h, hsUnhealthy = False\<rparr>,
      hStatus = \<lparr>stPhase = HostPhaseUnset, stClaimRef = None, stObservedPublicKey = [], stLastProbeTime = None,
        stSystemInfo = None, stConditions = []\<rparr>\<rparr>"

definition renderCluster :: "genesisConfig \<Rightarrow> capiCluster" where
  "renderCluster cfg =
     \<lparr>kcMeta = freshMeta (namespaceOf cfg) (clusterOf cfg) [],
      kcPods = [nwPodCIDR (ccNetwork (gcCluster cfg))], kcServices = [nwServiceCIDR (ccNetwork (gcCluster cfg))],
      kcServiceDomain = nwServiceDomain (ccNetwork (gcCluster cfg)),
      kcControlPlaneRef = \<lparr>rfAPIGroup = controlPlaneAPIGroup, rfKind = ''KubeadmControlPlane'', rfName = ControlPlaneName (clusterOf cfg)\<rparr>,
      kcInfrastructureRef = \<lparr>rfAPIGroup = infraAPIGroup, rfKind = ''HostCluster'', rfName = clusterOf cfg\<rparr>\<rparr>"

definition renderHostCluster :: "genesisConfig \<Rightarrow> hostCluster" where
  "renderHostCluster cfg =
     \<lparr>hcMeta = freshMeta (namespaceOf cfg) (clusterOf cfg) [],
      hcEndpointHost = epHost (ccControlPlaneEndpoint (gcCluster cfg)),
      hcEndpointPort = sint (epPort (ccControlPlaneEndpoint (gcCluster cfg))), hcProvisioned = None, hcConditions = []\<rparr>"

definition machineTemplate :: "string \<Rightarrow> string \<Rightarrow> labels \<Rightarrow> hostMachineTemplate" where
  "machineTemplate ns name sel =
     \<lparr>tmMeta = freshMeta ns name [], tmLabels = [],
      tmSpec = \<lparr>hmsProviderID = None, hmsHostSelector = Some \<lparr>slMatchLabels = sel, slMatchExpressions = []\<rparr>\<rparr>\<rparr>"

definition renderControlPlaneMachineTemplate :: "genesisConfig \<Rightarrow> hostMachineTemplate" where
  "renderControlPlaneMachineTemplate cfg =
     machineTemplate (namespaceOf cfg) (ControlPlaneTemplateName (clusterOf cfg)) [(RoleLabel, RoleControlPlane)]"

definition DefaultKubeVIPVersion :: string where "DefaultKubeVIPVersion = ''v0.8.7''"
definition kubeVIPManifestPath :: string where "kubeVIPManifestPath = ''/etc/kubernetes/manifests/kube-vip.yaml''"

definition kubeVIPManifest :: "string \<Rightarrow> int32 \<Rightarrow> string \<Rightarrow> string \<Rightarrow> string" where
  "kubeVIPManifest vip port iface version = (let interfaceEnv =
     (if iface \<noteq> [] then ''    - name: vip_interface'' @ [CHR 0x0A] @ ''      value: '' @ goQuote iface @ [CHR 0x0A] else []) in
   joinWith [CHR 0x0A] [
     ''apiVersion: v1'',
     ''kind: Pod'',
     ''metadata:'',
     ''  name: kube-vip'',
     ''  namespace: kube-system'',
     ''spec:'',
     ''  containers:'',
     ''  - name: kube-vip'',
     ''    image: ghcr.io/kube-vip/kube-vip:''] @ version @
   joinWith [CHR 0x0A] [
     [],
     ''    imagePullPolicy: IfNotPresent'',
     ''    args:'',
     ''    - manager'',
     ''    env:'',
     ''    - name: vip_arp'',
     ''      value: '' @ [CHR 0x22] @ ''true'' @ [CHR 0x22],
     ''    - name: port'',
     ''      value: '' @ [CHR 0x22]] @ itoa (sint port) @
   joinWith [CHR 0x0A] [
     [CHR 0x22],
     ''    - name: vip_cidr'',
     ''      value: '' @ [CHR 0x22] @ ''32'' @ [CHR 0x22],
     ''    - name: cp_enable'',
     ''      value: '' @ [CHR 0x22] @ ''true'' @ [CHR 0x22],
     ''    - name: cp_namespace'',
     ''      value: kube-system'',
     ''    - name: vip_ddns'',
     ''      value: '' @ [CHR 0x22] @ ''false'' @ [CHR 0x22],
     ''    - name: svc_enable'',
     ''      value: '' @ [CHR 0x22] @ ''false'' @ [CHR 0x22],
     ''    - name: vip_leaderelection'',
     ''      value: '' @ [CHR 0x22] @ ''true'' @ [CHR 0x22],
     ''    - name: vip_leaseduration'',
     ''      value: '' @ [CHR 0x22] @ ''15'' @ [CHR 0x22],
     ''    - name: vip_renewdeadline'',
     ''      value: '' @ [CHR 0x22] @ ''10'' @ [CHR 0x22],
     ''    - name: vip_retryperiod'',
     ''      value: '' @ [CHR 0x22] @ ''2'' @ [CHR 0x22],
     ''    - name: address'',
     ''      value: ''] @ goQuote vip @ [CHR 0x0A] @ interfaceEnv @
   joinWith [CHR 0x0A] [
     ''    securityContext:'',
     ''      capabilities:'',
     ''        add:'',
     ''        - NET_ADMIN'',
     ''        - NET_RAW'',
     ''    volumeMounts:'',
     ''    - mountPath: /etc/kubernetes/admin.conf'',
     ''      name: kubeconfig'',
     ''  hostAliases:'',
     ''  - hostnames:'',
     ''    - kubernetes'',
     ''    ip: 127.0.0.1'',
     ''  hostNetwork: true'',
     ''  volumes:'',
     ''  - hostPath:'',
     ''      path: /etc/kubernetes/admin.conf'',
     ''      type: FileOrCreate'',
     ''    name: kubeconfig'',
     []])"

definition sedManifest :: "string \<Rightarrow> string \<Rightarrow> string" where
  "sedManifest a b = ''sed -i '' @ [CHR 0x27] @ ''s#path: '' @ a @ ''#path: '' @ b @ ''#'' @ [CHR 0x27] @ '' '' @ kubeVIPManifestPath"

definition applyKubeVIP :: "genesisConfig \<Rightarrow> kubeadmConfigSpec \<Rightarrow> kubeadmConfigSpec" where
  "applyKubeVIP cfg spec =
     (let vip = ccVirtualIP (gcCluster cfg); ep = ccControlPlaneEndpoint (gcCluster cfg);
          version = (if vipVersion vip = [] then DefaultKubeVIPVersion else vipVersion vip)
      in spec\<lparr>
           ksFiles := ksFiles spec @ [\<lparr>kfPath = kubeVIPManifestPath, kfOwner = ''root:root'', kfPermissions = ''0600'',
             kfContent = kubeVIPManifest (epHost ep) (epPort ep) (vipInterface vip) version\<rparr>],
           ksPreKubeadmCommands := ksPreKubeadmCommands spec @
             [sedManifest ''/etc/kubernetes/admin.conf'' ''/etc/kubernetes/super-admin.conf''],
           ksPostKubeadmCommands := ksPostKubeadmCommands spec @
             [sedManifest ''/etc/kubernetes/super-admin.conf'' ''/etc/kubernetes/admin.conf'']\<rparr>)"

definition plainRegistration :: "genesisConfig \<Rightarrow> nodeRegistration" where
  "plainRegistration cfg = \<lparr>nrKubeletExtraArgs = [], nrTaints = None,
     nrIgnorePreflightErrors = ccIgnorePreflightErrors (gcCluster cfg)\<rparr>"

definition renderControlPlane :: "genesisConfig \<Rightarrow> string \<Rightarrow> kubeadmControlPlane" where
  "renderControlPlane cfg machineTemplateName =
     (let cc = gcCluster cfg;
          spec = \<lparr>ksImageRepository = ccImageRepository cc, ksCertSANs = [epHost (ccControlPlaneEndpoint cc)],
            ksInitRegistration = plainRegistration cfg, ksJoinRegistration = plainRegistration cfg, ksFiles = [],
            ksPreKubeadmCommands = withUserCommands nodePreflightCommands (ccPreKubeadmCommands cc),
            ksPostKubeadmCommands = withUserCommands [] (ccPostKubeadmCommands cc)\<rparr>;
          spec = (if vipEnabled (ccVirtualIP cc) then applyKubeVIP cfg spec else spec)
      in \<lparr>kcpMeta = freshMeta (namespaceOf cfg) (ControlPlaneName (clusterOf cfg)) (poolLabels cfg),
          kcpReplicas = ccControlPlaneReplicas cc, kcpVersion = ccKubernetesVersion cc,
          kcpInfrastructureRef = \<lparr>rfAPIGroup = infraAPIGroup, rfKind = ''HostMachineTemplate'', rfName = machineTemplateName\<rparr>,
          kcpConfigSpec = spec\<rparr>)"

subsection \<open>Worker pools\<close>

definition workerSpec :: "genesisConfig \<Rightarrow> workerPool \<Rightarrow> kubeadmConfigSpec" where
  "workerSpec cfg pool =
     \<lparr>ksImageRepository = [], ksCertSANs = [],
      ksInitRegistration = \<lparr>nrKubeletExtraArgs = [], nrTaints = None, nrIgnorePreflightErrors = []\<rparr>,
      ksJoinRegistration = \<lparr>nrKubeletExtraArgs = nodeLabelArgs (wpNodeLabels pool), nrTaints = nodeTaints (wpNodeTaints pool),
        nrIgnorePreflightErrors = ccIgnorePreflightErrors (gcCluster cfg)\<rparr>,
      ksFiles = [],
      ksPreKubeadmCommands = withUserCommands nodePreflightCommands (ccPreKubeadmCommands (gcCluster cfg)),
      ksPostKubeadmCommands = withUserCommands [] (ccPostKubeadmCommands (gcCluster cfg))\<rparr>"

definition renderWorkerPool :: "genesisConfig \<Rightarrow> workerPool \<Rightarrow> hostMachineTemplate \<times> kubeadmConfigTemplate \<times> machineDeployment" where
  "renderWorkerPool cfg pool =
     (let tmpl = machineTemplate (namespaceOf cfg) (WorkerTemplateName (clusterOf cfg) (wpName pool)) (wpHostSelector pool);
          boot = \<lparr>ktMeta = freshMeta (namespaceOf cfg) (WorkerBootstrapName (clusterOf cfg) (wpName pool)) [],
            ktSpec = workerSpec cfg pool\<rparr>
      in (tmpl, boot,
          \<lparr>mdMeta = freshMeta (namespaceOf cfg) (WorkerDeploymentName (clusterOf cfg) (wpName pool)) (poolLabels cfg),
           mdClusterName = clusterOf cfg, mdReplicas = wpReplicas pool,
           mdSelector = [(CapiClusterNameLabel, clusterOf cfg)], mdDeletionOrder = OldestMachineSetDeletionOrder,
           mdTemplateLabels = poolLabels cfg, mdVersion = ccKubernetesVersion (gcCluster cfg),
           mdBootstrapRef = \<lparr>rfAPIGroup = bootstrapAPIGroup, rfKind = ''KubeadmConfigTemplate'', rfName = mName (ktMeta boot)\<rparr>,
           mdInfrastructureRef = \<lparr>rfAPIGroup = infraAPIGroup, rfKind = ''HostMachineTemplate'', rfName = mName (tmMeta tmpl)\<rparr>\<rparr>))"

definition poolObjects :: "genesisConfig \<Rightarrow> workerPool \<Rightarrow> clientObject list" where
  "poolObjects cfg pool = (case renderWorkerPool cfg pool of (tmpl, boot, md) \<Rightarrow>
     [OHostMachineTemplate tmpl, OKubeadmConfigTemplate boot, OMachineDeployment md])"

definition RenderConfig :: "configEnv \<Rightarrow> genesisConfig \<Rightarrow> objects result" where
  "RenderConfig E cfg =
     (case renderSecrets E cfg of
        Inl e \<Rightarrow> Inl e
      | Inr (secrets, forHost) \<Rightarrow>
          let cpTemplate = renderControlPlaneMachineTemplate cfg
          in Inr \<lparr>obNamespace = freshMeta [] (namespaceOf cfg) (poolLabels cfg),
                  obSecrets = secrets,
                  obHosts = map (\<lambda>h. renderHost cfg h (mapGet forHost (hcfName h))) (gcHosts cfg),
                  obCluster = renderCluster cfg,
                  obInfra = [OHostCluster (renderHostCluster cfg), OHostMachineTemplate cpTemplate,
                      OKubeadmControlPlane (renderControlPlane cfg (mName (tmMeta cpTemplate)))] @
                    concat (map (poolObjects cfg) (gcWorkers cfg))\<rparr>)"

subsection \<open>Lemmas on the secrets\<close>

lemma collectSecrets_keys:
  "collectSecrets E b f hs = Inr (b', f') \<Longrightarrow> distinct (map fst b) \<Longrightarrow> distinct (map fst b')"
  by (induction hs arbitrary: b f) (auto simp: Let_def distinct_update split: sum.splits)

lemma collectSecrets_keeps:
  "collectSecrets E b f hs = Inr (b', f') \<Longrightarrow> map_of b fp \<noteq> None \<Longrightarrow> map_of b' fp \<noteq> None"
proof (induction hs arbitrary: b f)
  case (Cons h hs)
  then obtain cr where "credentialOf E h = Inr cr"
    "collectSecrets E (AList.update (fingerprintOf cr) cr b) (AList.update (hcfName h) (SSHSecretName (fingerprintOf cr)) f) hs = Inr (b', f')"
    by (auto simp: Let_def split: sum.splits)
  then show ?case using Cons.IH Cons.prems(2) by (fastforce simp: update_conv')
qed simp

lemma collectSecrets_other:
  "collectSecrets E b f hs = Inr (b', f') \<Longrightarrow> n \<notin> hcfName ` set hs \<Longrightarrow> map_of f' n = map_of f n"
  by (induction hs arbitrary: b f) (auto simp: Let_def update_conv' split: sum.splits)

lemma collectSecrets_host:
  assumes "collectSecrets E b f hs = Inr (b', f')" "distinct (map hcfName hs)" "h \<in> set hs"
  shows "\<exists>cr. credentialOf E h = Inr cr \<and> map_of b' (fingerprintOf cr) \<noteq> None \<and>
    map_of f' (hcfName h) = Some (SSHSecretName (fingerprintOf cr))"
  using assms
proof (induction hs arbitrary: b f)
  case (Cons g hs)
  then obtain cr where cr: "credentialOf E g = Inr cr" and
    c: "collectSecrets E (AList.update (fingerprintOf cr) cr b) (AList.update (hcfName g) (SSHSecretName (fingerprintOf cr)) f) hs = Inr (b', f')"
    by (auto simp: Let_def split: sum.splits)
  show ?case
  proof (cases "h = g")
    case True
    have "map_of f' (hcfName g) = Some (SSHSecretName (fingerprintOf cr))"
      using collectSecrets_other [OF c, of "hcfName g"] Cons.prems(2) by (auto simp: update_conv')
    moreover have "map_of b' (fingerprintOf cr) \<noteq> None"
      using collectSecrets_keeps [OF c, of "fingerprintOf cr"] by (simp add: update_conv')
    ultimately show ?thesis using True cr by simp
  next
    case False
    then show ?thesis using Cons.IH [OF c] Cons.prems by auto
  qed
qed simp

text \<open>What is stored under a fingerprint is the credential of some host with that fingerprint.\<close>

lemma collectSecrets_sound:
  "collectSecrets E b f hs = Inr (b', f') \<Longrightarrow> map_of b' fp = Some cr \<Longrightarrow>
   map_of b fp = Some cr \<or> fp = fingerprintOf cr \<and> (\<exists>h\<in>set hs. credentialOf E h = Inr cr)"
proof (induction hs arbitrary: b f)
  case (Cons h hs)
  then obtain cr' where "credentialOf E h = Inr cr'"
    "collectSecrets E (AList.update (fingerprintOf cr') cr' b) (AList.update (hcfName h) (SSHSecretName (fingerprintOf cr')) f) hs = Inr (b', f')"
    by (auto simp: Let_def split: sum.splits)
  then show ?case using Cons.IH Cons.prems(2) by (fastforce simp: update_conv' split: if_splits)
qed simp

lemma RenderConfig_parts:
  assumes "RenderConfig E cfg = Inr objs"
  obtains byFp forHost where "collectSecrets E [] [] (gcHosts cfg) = Inr (byFp, forHost)"
    and "obSecrets objs = map (\<lambda>f. secretOf cfg f (case map_of byFp f of Some cr \<Rightarrow> cr | None \<Rightarrow> zeroCredential))
      (sortStrings (map fst byFp))"
    and "obHosts objs = map (\<lambda>h. renderHost cfg h (mapGet forHost (hcfName h))) (gcHosts cfg)"
    and "obCluster objs = renderCluster cfg"
    and "obInfra objs = [OHostCluster (renderHostCluster cfg), OHostMachineTemplate (renderControlPlaneMachineTemplate cfg),
      OKubeadmControlPlane (renderControlPlane cfg (mName (tmMeta (renderControlPlaneMachineTemplate cfg))))] @
      concat (map (poolObjects cfg) (gcWorkers cfg))"
    and "obNamespace objs = freshMeta [] (namespaceOf cfg) (poolLabels cfg)"
proof -
  from assms obtain byFp forHost where "collectSecrets E [] [] (gcHosts cfg) = Inr (byFp, forHost)"
    by (auto simp: RenderConfig_def renderSecrets_def split: sum.splits prod.splits)
  with assms show thesis
    by (intro that) (auto simp: RenderConfig_def renderSecrets_def Let_def)
qed

text \<open>The credentials the hosts of a configuration use.\<close>

definition credentials :: "configEnv \<Rightarrow> genesisConfig \<Rightarrow> credential set" where
  "credentials E cfg = {cr. \<exists>h\<in>set (gcHosts cfg). credentialOf E h = Inr cr}"

lemma secretData_reads:
  "mapGet (secretData cr) ''private_key'' = crPrivateKey cr"
  "mapGet (secretData cr) ''passphrase'' = crPassphrase cr"
  "mapGet (secretData cr) ''password'' = crPassword cr"
  by (auto simp: secretData_def mapGet_def)

text \<open>
  Every host is rendered with a reference to a secret in its own namespace that holds its
  own credential, private key, passphrase and password, although secrets are shared between
  hosts with the same credential.
\<close>

lemma host_secret:
  assumes "RenderConfig E cfg = Inr objs" "distinct (map hcfName (gcHosts cfg))"
    and "inj_on fingerprintOf (credentials E cfg)" "h \<in> set (gcHosts cfg)"
  shows "\<exists>cr ho s. credentialOf E h = Inr cr \<and> ho \<in> set (obHosts objs) \<and> s \<in> set (obSecrets objs) \<and>
    ho = renderHost cfg h (hsSSHSecretRef (hSpec ho)) \<and> mNamespace (scMeta s) = mNamespace (hMeta ho) \<and> mName (scMeta s) = hsSSHSecretRef (hSpec ho) \<and>
    mapGet (scData s) ''private_key'' = crPrivateKey cr \<and> mapGet (scData s) ''passphrase'' = crPassphrase cr \<and>
    mapGet (scData s) ''password'' = crPassword cr"
proof -
  obtain byFp forHost where p: "collectSecrets E [] [] (gcHosts cfg) = Inr (byFp, forHost)"
    and s: "obSecrets objs = map (\<lambda>f. secretOf cfg f (case map_of byFp f of Some cr \<Rightarrow> cr | None \<Rightarrow> zeroCredential)) (sortStrings (map fst byFp))"
    and hs: "obHosts objs = map (\<lambda>h. renderHost cfg h (mapGet forHost (hcfName h))) (gcHosts cfg)"
    by (rule RenderConfig_parts [OF assms(1)])
  obtain cr where cr: "credentialOf E h = Inr cr" "map_of byFp (fingerprintOf cr) \<noteq> None"
    "map_of forHost (hcfName h) = Some (SSHSecretName (fingerprintOf cr))"
    using collectSecrets_host [OF p assms(2,4)] by blast
  obtain cr' where cr': "map_of byFp (fingerprintOf cr) = Some cr'" using cr(2) by blast
  have "fingerprintOf cr = fingerprintOf cr'" "cr' \<in> credentials E cfg"
    using collectSecrets_sound [OF p cr'] by (auto simp: credentials_def)
  moreover have "cr \<in> credentials E cfg" using cr(1) assms(4) by (auto simp: credentials_def)
  ultimately have same: "cr' = cr" using assms(3) by (auto dest: inj_onD)
  have "fingerprintOf cr \<in> fst ` set byFp" using map_of_SomeD [OF cr'] by force
  then have "secretOf cfg (fingerprintOf cr) cr \<in> set (obSecrets objs)"
    unfolding s using cr' same by force
  moreover have "renderHost cfg h (SSHSecretName (fingerprintOf cr)) \<in> set (obHosts objs)"
    unfolding hs using assms(4) cr(3) by (force simp: mapGet_def)
  ultimately show ?thesis
    by (intro exI [of _ cr] exI [of _ "renderHost cfg h (SSHSecretName (fingerprintOf cr))"]
        exI [of _ "secretOf cfg (fingerprintOf cr) cr"])
      (simp add: cr(1) renderHost_def secretOf_def secretData_reads)
qed

subsection \<open>Identities and references\<close>

text \<open>What an object is applied as: its kind, namespace and name.\<close>

fun objectID :: "clientObject \<Rightarrow> string \<times> string \<times> string" where
  "objectID (ONamespace m) = (''Namespace'', mNamespace m, mName m)"
| "objectID (OSecret s) = (''Secret'', mNamespace (scMeta s), mName (scMeta s))"
| "objectID (OHost h) = (''Host'', mNamespace (hMeta h), mName (hMeta h))"
| "objectID (OCluster c) = (''Cluster'', mNamespace (kcMeta c), mName (kcMeta c))"
| "objectID (OHostCluster c) = (''HostCluster'', mNamespace (hcMeta c), mName (hcMeta c))"
| "objectID (OHostMachineTemplate t) = (''HostMachineTemplate'', mNamespace (tmMeta t), mName (tmMeta t))"
| "objectID (OKubeadmControlPlane k) = (''KubeadmControlPlane'', mNamespace (kcpMeta k), mName (kcpMeta k))"
| "objectID (OKubeadmConfigTemplate k) = (''KubeadmConfigTemplate'', mNamespace (ktMeta k), mName (ktMeta k))"
| "objectID (OMachineDeployment d) = (''MachineDeployment'', mNamespace (mdMeta d), mName (mdMeta d))"

text \<open>The API group an object is of.\<close>

fun apiGroup :: "clientObject \<Rightarrow> string" where
  "apiGroup (ONamespace m) = []"
| "apiGroup (OSecret s) = []"
| "apiGroup (OCluster c) = ''cluster.x-k8s.io''"
| "apiGroup (OMachineDeployment d) = ''cluster.x-k8s.io''"
| "apiGroup (OKubeadmControlPlane k) = controlPlaneAPIGroup"
| "apiGroup (OKubeadmConfigTemplate k) = bootstrapAPIGroup"
| "apiGroup _ = infraAPIGroup"

text \<open>The references an object holds to others of its namespace: API group, kind and name.\<close>

fun refTo :: "objRef \<Rightarrow> string \<times> string \<times> string" where
  "refTo r = (rfAPIGroup r, rfKind r, rfName r)"

fun references :: "clientObject \<Rightarrow> (string \<times> string \<times> string) list" where
  "references (OHost h) = [([], ''Secret'', hsSSHSecretRef (hSpec h))]"
| "references (OCluster c) = [refTo (kcControlPlaneRef c), refTo (kcInfrastructureRef c)]"
| "references (OKubeadmControlPlane k) = [refTo (kcpInfrastructureRef k)]"
| "references (OMachineDeployment d) = [(''cluster.x-k8s.io'', ''Cluster'', mdClusterName d), refTo (mdBootstrapRef d), refTo (mdInfrastructureRef d)]"
| "references _ = []"

fun refersTo :: "string \<Rightarrow> string \<times> string \<times> string \<Rightarrow> clientObject \<Rightarrow> bool" where
  "refersTo ns (g, k, n) ob \<longleftrightarrow> apiGroup ob = g \<and> objectID ob = (k, ns, n)"

lemma poolObjects_ids:
  "map objectID (poolObjects cfg w) =
    (let n = clusterOf cfg @ ''-'' @ wpName w
     in [(''HostMachineTemplate'', namespaceOf cfg, n), (''KubeadmConfigTemplate'', namespaceOf cfg, n),
         (''MachineDeployment'', namespaceOf cfg, n)])"
  by (simp add: poolObjects_def renderWorkerPool_def Let_def machineTemplate_def name_defs)

lemma pool_ids:
  "map objectID (concat (map (poolObjects cfg) ws)) =
    concat (map (\<lambda>w. let n = clusterOf cfg @ ''-'' @ wpName w
     in [(''HostMachineTemplate'', namespaceOf cfg, n), (''KubeadmConfigTemplate'', namespaceOf cfg, n),
         (''MachineDeployment'', namespaceOf cfg, n)]) ws)"
  by (induction ws) (simp_all add: poolObjects_ids)

lemma pool_ids_distinct:
  assumes "distinct (map wpName ws)"
  shows "distinct (map objectID (concat (map (poolObjects cfg) ws)))"
  using assms unfolding pool_ids by (induction ws) (auto simp: Let_def)

lemma distinct_sortStrings [simp]: "distinct (sortStrings xs) \<longleftrightarrow> distinct xs"
  by (simp add: sortStrings_eq_sort)

lemma secret_ids_distinct:
  assumes "distinct (map fst byFp)"
  shows "distinct (map (\<lambda>f. objectID (OSecret (secretOf cfg f (g f)))) (sortStrings (map fst byFp)))"
  using assms by (auto simp: distinct_map secretOf_def SSHSecretName_def inj_on_def)

text \<open>Segments of identities of different kinds.\<close>

lemma distinct_kinds:
  assumes "\<forall>(xs, K)\<in>set segs. distinct xs \<and> fst ` set xs \<subseteq> K" "sorted_wrt (\<lambda>a b. snd a \<inter> snd b = {}) segs"
  shows "distinct (concat (map fst segs))"
  using assms
proof (induction segs)
  case (Cons a segs)
  have "x \<notin> set ys" if "x \<in> set (fst a)" "(ys, L) \<in> set segs" for x ys L
  proof
    assume "x \<in> set ys"
    moreover have "fst ` set (fst a) \<subseteq> snd a" using Cons.prems(1) by (simp add: case_prod_beta)
    moreover have "fst ` set ys \<subseteq> L" using bspec [OF Cons.prems(1), of "(ys, L)"] that(2) by simp
    ultimately have "fst x \<in> snd a \<inter> L" using that(1) by blast
    moreover have "snd a \<inter> L = {}" using that(2) Cons.prems(2) by force
    ultimately show False by simp
  qed
  then have "set (fst a) \<inter> set (concat (map fst segs)) = {}" by auto
  moreover have "distinct (concat (map fst segs))" using Cons.prems by (intro Cons.IH) simp_all
  moreover have "distinct (fst a)" using Cons.prems(1) by (simp add: case_prod_beta)
  ultimately show ?case by simp
qed simp

lemma kind_notin: "fst ` set ys \<subseteq> L \<Longrightarrow> fst x \<notin> L \<Longrightarrow> x \<notin> set ys"
  by blast

lemma infra_ids:
  assumes "distinct pool" "fst ` set pool \<subseteq> {''HostMachineTemplate'', ''KubeadmConfigTemplate'', ''MachineDeployment''}"
    and "(''HostMachineTemplate'', ns, b) \<notin> set pool"
  shows "distinct ([(''HostCluster'', ns, a), (''HostMachineTemplate'', ns, b), (''KubeadmControlPlane'', ns, b)] @ pool)"
    and "fst ` set ([(''HostCluster'', ns, a), (''HostMachineTemplate'', ns, b), (''KubeadmControlPlane'', ns, b)] @ pool) \<subseteq>
      {''HostCluster'', ''HostMachineTemplate'', ''KubeadmControlPlane'', ''KubeadmConfigTemplate'', ''MachineDeployment''}"
proof -
  have "(''HostCluster'', ns, a) \<notin> set pool" "(''KubeadmControlPlane'', ns, b) \<notin> set pool"
    by (rule kind_notin [OF assms(2)], simp)+
  then show "distinct ([(''HostCluster'', ns, a), (''HostMachineTemplate'', ns, b), (''KubeadmControlPlane'', ns, b)] @ pool)"
    using assms(1,3) by simp
  show "fst ` set ([(''HostCluster'', ns, a), (''HostMachineTemplate'', ns, b), (''KubeadmControlPlane'', ns, b)] @ pool) \<subseteq>
      {''HostCluster'', ''HostMachineTemplate'', ''KubeadmControlPlane'', ''KubeadmConfigTemplate'', ''MachineDeployment''}"
    unfolding set_append image_Un by (rule Un_least, simp, rule subset_trans [OF assms(2)], simp)
qed

lemma RenderConfig_infra_ids:
  assumes "RenderConfig E cfg = Inr objs" "distinct (map wpName (gcWorkers cfg))" "''control-plane'' \<notin> wpName ` set (gcWorkers cfg)"
  shows "distinct (map objectID (obInfra objs))"
    and "fst ` set (map objectID (obInfra objs)) \<subseteq> {''HostCluster'', ''HostMachineTemplate'', ''KubeadmControlPlane'',
      ''KubeadmConfigTemplate'', ''MachineDeployment''}"
proof -
  let ?pool = "map objectID (concat (map (poolObjects cfg) (gcWorkers cfg)))"
  have infra: "obInfra objs = [OHostCluster (renderHostCluster cfg), OHostMachineTemplate (renderControlPlaneMachineTemplate cfg),
      OKubeadmControlPlane (renderControlPlane cfg (mName (tmMeta (renderControlPlaneMachineTemplate cfg))))] @
      concat (map (poolObjects cfg) (gcWorkers cfg))"
    by (rule RenderConfig_parts [OF assms(1)])
  have P: "fst ` set ?pool \<subseteq> {''HostMachineTemplate'', ''KubeadmConfigTemplate'', ''MachineDeployment''}"
    unfolding pool_ids by (auto simp: Let_def)
  have cp: "(''HostMachineTemplate'', namespaceOf cfg, clusterOf cfg @ ''-control-plane'') \<notin> set ?pool"
    using assms(3) unfolding pool_ids by (auto simp: Let_def)
  have I: "map objectID (obInfra objs) = [(''HostCluster'', namespaceOf cfg, clusterOf cfg),
      (''HostMachineTemplate'', namespaceOf cfg, clusterOf cfg @ ''-control-plane''),
      (''KubeadmControlPlane'', namespaceOf cfg, clusterOf cfg @ ''-control-plane'')] @ ?pool"
    unfolding infra by (simp add: renderHostCluster_def renderControlPlaneMachineTemplate_def machineTemplate_def
        renderControlPlane_def Let_def name_defs)
  show "distinct (map objectID (obInfra objs))"
    and "fst ` set (map objectID (obInfra objs)) \<subseteq> {''HostCluster'', ''HostMachineTemplate'', ''KubeadmControlPlane'',
      ''KubeadmConfigTemplate'', ''MachineDeployment''}"
    unfolding I using infra_ids [OF pool_ids_distinct [OF assms(2)] P cp] by blast+
qed

lemma RenderConfig_host_ids:
  assumes "RenderConfig E cfg = Inr objs" "distinct (map hcfName (gcHosts cfg))"
  shows "distinct (map objectID (map OSecret (obSecrets objs)))" "fst ` set (map objectID (map OSecret (obSecrets objs))) \<subseteq> {''Secret''}"
    and "distinct (map objectID (map OHost (obHosts objs)))" "fst ` set (map objectID (map OHost (obHosts objs))) \<subseteq> {''Host''}"
proof -
  obtain byFp forHost where p: "collectSecrets E [] [] (gcHosts cfg) = Inr (byFp, forHost)"
    and s: "obSecrets objs = map (\<lambda>f. secretOf cfg f (case map_of byFp f of Some cr \<Rightarrow> cr | None \<Rightarrow> zeroCredential)) (sortStrings (map fst byFp))"
    and hs: "obHosts objs = map (\<lambda>h. renderHost cfg h (mapGet forHost (hcfName h))) (gcHosts cfg)"
    by (rule RenderConfig_parts [OF assms(1)])
  show "distinct (map objectID (map OSecret (obSecrets objs)))" "fst ` set (map objectID (map OSecret (obSecrets objs))) \<subseteq> {''Secret''}"
    using secret_ids_distinct [OF collectSecrets_keys [OF p]] unfolding s by (auto simp: o_def)
  show "distinct (map objectID (map OHost (obHosts objs)))" "fst ` set (map objectID (map OHost (obHosts objs))) \<subseteq> {''Host''}"
    using assms(2) unfolding hs by (auto simp: o_def renderHost_def distinct_map inj_on_def)
qed

text \<open>
  C25. The rendered objects have distinct identities, so applying one never overwrites
  another: the hosts and pools have distinct names, and no pool is called
  \<^verbatim>\<open>control-plane\<close>.
\<close>

theorem RenderConfig_distinct_identities:
  assumes "RenderConfig E cfg = Inr objs" "validConfig E cfg" "''control-plane'' \<notin> wpName ` set (gcWorkers cfg)"
  shows "distinct (map objectID (AllObjects objs))"
proof -
  have dw: "distinct (map wpName (gcWorkers cfg))" and dh: "distinct (map hcfName (gcHosts cfg))"
    using assms(2) by (simp_all add: validConfig_def distinctNames_def)
  have rest: "obCluster objs = renderCluster cfg" by (rule RenderConfig_parts [OF assms(1)])
  have ns: "obNamespace objs = freshMeta [] (namespaceOf cfg) (poolLabels cfg)" by (rule RenderConfig_parts [OF assms(1)])
  let ?ids = "map objectID"
  define S H I where "S = ?ids (map OSecret (obSecrets objs))" and "H = ?ids (map OHost (obHosts objs))" and "I = ?ids (obInfra objs)"
  define K where "K = {''HostCluster'', ''HostMachineTemplate'', ''KubeadmControlPlane'', ''KubeadmConfigTemplate'', ''MachineDeployment''}"
  let ?segs = "[([(''Namespace'', [], namespaceOf cfg)], {''Namespace''}), (S, {''Secret''}), (H, {''Host''}),
      ([(''Cluster'', namespaceOf cfg, clusterOf cfg)], {''Cluster''}), (I, K)]"
  have ids: "distinct S" "fst ` set S \<subseteq> {''Secret''}" "distinct H" "fst ` set H \<subseteq> {''Host''}" "distinct I" "fst ` set I \<subseteq> K"
    unfolding S_def H_def I_def K_def
    by (fact RenderConfig_host_ids [OF assms(1) dh] RenderConfig_infra_ids [OF assms(1) dw assms(3)])+
  have "\<forall>(xs, K)\<in>set ?segs. distinct xs \<and> fst ` set xs \<subseteq> K" by (simp add: ids)
  then have "distinct (concat (map fst ?segs))" by (rule distinct_kinds) (simp add: K_def)
  moreover have "?ids (AllObjects objs) = concat (map fst ?segs)"
    by (simp add: AllObjects_def rest ns renderCluster_def S_def H_def I_def)
  ultimately show ?thesis by (simp only:)
qed

lemma AllObjects_pool: "o1 \<in> set (poolObjects cfg w) \<Longrightarrow> w \<in> set (gcWorkers cfg) \<Longrightarrow>
  obInfra objs = infra @ concat (map (poolObjects cfg) (gcWorkers cfg)) \<Longrightarrow> o1 \<in> set (AllObjects objs)"
  by (auto simp: AllObjects_def)

text \<open>
  A worker pool called \<^verbatim>\<open>control-plane\<close>, which validation accepts, is rendered to a machine
  template with the identity of the control plane's template: the one applied last wins, and
  the control plane draws its machines from the hosts the worker pool selects.
\<close>

theorem RenderConfig_pool_clash:
  assumes "RenderConfig E cfg = Inr objs" "w \<in> set (gcWorkers cfg)" "wpName w = ''control-plane''"
  shows "let cp = OHostMachineTemplate (renderControlPlaneMachineTemplate cfg);
             wt = OHostMachineTemplate (fst (renderWorkerPool cfg w))
         in cp \<in> set (AllObjects objs) \<and> wt \<in> set (AllObjects objs) \<and> objectID cp = objectID wt \<and>
            hmsHostSelector (tmSpec (fst (renderWorkerPool cfg w))) = Some \<lparr>slMatchLabels = wpHostSelector w, slMatchExpressions = []\<rparr>"
proof -
  have infra: "obInfra objs = [OHostCluster (renderHostCluster cfg), OHostMachineTemplate (renderControlPlaneMachineTemplate cfg),
      OKubeadmControlPlane (renderControlPlane cfg (mName (tmMeta (renderControlPlaneMachineTemplate cfg))))] @
      concat (map (poolObjects cfg) (gcWorkers cfg))"
    by (rule RenderConfig_parts [OF assms(1)])
  have "OHostMachineTemplate (fst (renderWorkerPool cfg w)) \<in> set (poolObjects cfg w)"
    by (cases "renderWorkerPool cfg w") (simp add: poolObjects_def)
  then have wt: "OHostMachineTemplate (fst (renderWorkerPool cfg w)) \<in> set (AllObjects objs)"
    by (rule AllObjects_pool [OF _ assms(2) infra])
  have cp: "OHostMachineTemplate (renderControlPlaneMachineTemplate cfg) \<in> set (AllObjects objs)"
    by (simp add: AllObjects_def infra)
  show ?thesis
    using wt cp by (simp add: renderControlPlaneMachineTemplate_def renderWorkerPool_def machineTemplate_def
        Let_def name_defs assms(3))
qed

lemma renderWorkerPool_refs:
  assumes "OMachineDeployment d \<in> set (poolObjects cfg w)" "r \<in> set (references (OMachineDeployment d))"
  shows "refersTo (namespaceOf cfg) r (OCluster (renderCluster cfg)) \<or> (\<exists>ob\<in>set (poolObjects cfg w). refersTo (namespaceOf cfg) r ob)"
  using assms by (auto simp: poolObjects_def renderWorkerPool_def renderCluster_def Let_def machineTemplate_def)

lemma RenderConfig_hostSecret_exists:
  assumes "RenderConfig E cfg = Inr objs" "distinct (map hcfName (gcHosts cfg))" "ho \<in> set (obHosts objs)"
  shows "\<exists>s\<in>set (obSecrets objs). objectID (OSecret s) = (''Secret'', namespaceOf cfg, hsSSHSecretRef (hSpec ho))"
proof -
  obtain byFp forHost where p: "collectSecrets E [] [] (gcHosts cfg) = Inr (byFp, forHost)"
    and s: "obSecrets objs = map (\<lambda>f. secretOf cfg f (case map_of byFp f of Some cr \<Rightarrow> cr | None \<Rightarrow> zeroCredential)) (sortStrings (map fst byFp))"
    and hs: "obHosts objs = map (\<lambda>h. renderHost cfg h (mapGet forHost (hcfName h))) (gcHosts cfg)"
    by (rule RenderConfig_parts [OF assms(1)])
  obtain h where h: "h \<in> set (gcHosts cfg)" "ho = renderHost cfg h (mapGet forHost (hcfName h))"
    using assms(3) unfolding hs by auto
  obtain cr where cr: "map_of byFp (fingerprintOf cr) \<noteq> None" "map_of forHost (hcfName h) = Some (SSHSecretName (fingerprintOf cr))"
    using collectSecrets_host [OF p assms(2) h(1)] by blast
  then obtain cr' where "map_of byFp (fingerprintOf cr) = Some cr'" by blast
  then have "fingerprintOf cr \<in> set (sortStrings (map fst byFp))" by (force dest: map_of_SomeD)
  then have "secretOf cfg (fingerprintOf cr) (case map_of byFp (fingerprintOf cr) of Some cr \<Rightarrow> cr | None \<Rightarrow> zeroCredential)
      \<in> set (obSecrets objs)"
    unfolding s by auto
  then show ?thesis
    by (rule bexI [rotated]) (simp add: secretOf_def h(2) renderHost_def mapGet_def cr(2))
qed

lemma renderCluster_refs:
  assumes "RenderConfig E cfg = Inr objs" "r \<in> set (references (OCluster (renderCluster cfg)))"
  shows "\<exists>ob\<in>set (AllObjects objs). refersTo (namespaceOf cfg) r ob"
proof -
  let ?kcp = "renderControlPlane cfg (mName (tmMeta (renderControlPlaneMachineTemplate cfg)))"
  have infra: "obInfra objs = [OHostCluster (renderHostCluster cfg), OHostMachineTemplate (renderControlPlaneMachineTemplate cfg),
      OKubeadmControlPlane ?kcp] @ concat (map (poolObjects cfg) (gcWorkers cfg))"
    by (rule RenderConfig_parts [OF assms(1)])
  have all: "OHostCluster (renderHostCluster cfg) \<in> set (AllObjects objs)" "OKubeadmControlPlane ?kcp \<in> set (AllObjects objs)"
    by (simp_all add: AllObjects_def infra)
  have "r = (controlPlaneAPIGroup, ''KubeadmControlPlane'', ControlPlaneName (clusterOf cfg)) \<or> r = (infraAPIGroup, ''HostCluster'', clusterOf cfg)"
    using assms(2) by (simp add: renderCluster_def)
  then show ?thesis
  proof
    assume "r = (controlPlaneAPIGroup, ''KubeadmControlPlane'', ControlPlaneName (clusterOf cfg))"
    then show ?thesis by (intro bexI [OF _ all(2)]) (simp add: renderControlPlane_def Let_def)
  next
    assume "r = (infraAPIGroup, ''HostCluster'', clusterOf cfg)"
    then show ?thesis by (intro bexI [OF _ all(1)]) (simp add: renderHostCluster_def)
  qed
qed

text \<open>
  C26. No reference between the rendered objects dangles: the secret of a host, the templates
  of the control plane and of the pools, the control plane and the infrastructure of the
  cluster and the cluster of a pool are all among the objects rendered, with the API group and
  kind the reference names, in the same namespace.
\<close>

theorem RenderConfig_references_resolve:
  assumes "RenderConfig E cfg = Inr objs" "distinct (map hcfName (gcHosts cfg))"
    and "ob \<in> set (AllObjects objs)" "r \<in> set (references ob)"
  shows "\<exists>ob'\<in>set (AllObjects objs). refersTo (namespaceOf cfg) r ob'"
proof -
  have infra: "obInfra objs = [OHostCluster (renderHostCluster cfg), OHostMachineTemplate (renderControlPlaneMachineTemplate cfg),
      OKubeadmControlPlane (renderControlPlane cfg (mName (tmMeta (renderControlPlaneMachineTemplate cfg))))] @
      concat (map (poolObjects cfg) (gcWorkers cfg))"
    by (rule RenderConfig_parts [OF assms(1)])
  have cl: "obCluster objs = renderCluster cfg" by (rule RenderConfig_parts [OF assms(1)])
  consider (host) ho where "ho \<in> set (obHosts objs)" "ob = OHost ho"
    | (cluster) "ob = OCluster (renderCluster cfg)"
    | (cp) "ob = OKubeadmControlPlane (renderControlPlane cfg (mName (tmMeta (renderControlPlaneMachineTemplate cfg))))"
    | (pool) w where "w \<in> set (gcWorkers cfg)" "ob \<in> set (poolObjects cfg w)"
    using assms(3,4) by (auto simp: AllObjects_def infra cl)
  then show ?thesis
  proof cases
    case host
    obtain s where "s \<in> set (obSecrets objs)"
      "objectID (OSecret s) = (''Secret'', namespaceOf cfg, hsSSHSecretRef (hSpec ho))"
      using RenderConfig_hostSecret_exists [OF assms(1,2) host(1)] by blast
    moreover have "r = ([], ''Secret'', hsSSHSecretRef (hSpec ho))" using assms(4) host(2) by simp
    ultimately show ?thesis by (intro bexI [of _ "OSecret s"]) (simp_all add: AllObjects_def)
  next
    case cluster
    then show ?thesis using renderCluster_refs [OF assms(1)] assms(4) by simp
  next
    case cp
    have "r = (infraAPIGroup, ''HostMachineTemplate'', mName (tmMeta (renderControlPlaneMachineTemplate cfg)))"
      using assms(4) cp by (simp add: renderControlPlane_def Let_def)
    moreover have "OHostMachineTemplate (renderControlPlaneMachineTemplate cfg) \<in> set (AllObjects objs)"
      by (simp add: AllObjects_def infra)
    ultimately show ?thesis
      by (intro bexI) (simp_all add: renderControlPlaneMachineTemplate_def machineTemplate_def)
  next
    case pool
    then obtain d where d: "ob = OMachineDeployment d"
      using assms(4) by (auto simp: poolObjects_def renderWorkerPool_def Let_def)
    have "OCluster (renderCluster cfg) \<in> set (AllObjects objs)" by (simp add: AllObjects_def cl)
    then show ?thesis
      using renderWorkerPool_refs [OF pool(2) [unfolded d] assms(4) [unfolded d]] AllObjects_pool [OF _ pool(1) infra] by blast
  qed
qed

subsection \<open>A rendered example\<close>

lemma RenderConfig_total: "(\<And>h. \<exists>cr. credentialOf E h = Inr cr) \<Longrightarrow> \<exists>objs. RenderConfig E cfg = Inr objs"
proof -
  assume c: "\<And>h. \<exists>cr. credentialOf E h = Inr cr"
  have "\<exists>b' f'. collectSecrets E b f hs = Inr (b', f')" for b f hs
  proof (induction hs arbitrary: b f)
    case (Cons h hs)
    then show ?case using c [of h] by (auto simp: Let_def)
  qed simp
  then show ?thesis by (metis (no_types, lifting) RenderConfig_def renderSecrets_def sum.case(2) prod.case)
qed

definition exampleLoaded :: genesisConfig where
  "exampleLoaded = ApplyDefaults (resolvePaths (exampleEnv exampleTwo) ''/etc/kg'' exampleTwo)"

lemma exampleLoaded_valid: "validConfig (exampleEnv exampleTwo) exampleLoaded"
  "distinct (map hcfName (gcHosts exampleLoaded))"
  by (simp_all flip: validationErrors_Nil) code_simp+

lemma exampleEnv_credentialOf:
  "credentialOf (exampleEnv c) h = Inr \<lparr>crPrivateKey = (if hcfPrivateKeyPath h \<noteq> [] then ''text'' else []),
     crPassphrase = hcfPassphrase h, crPassword = hcfPassword h\<rparr>"
  by (simp add: credentialOf_def exampleEnv_def)

lemma exampleLoaded_renders: "\<exists>objs. RenderConfig (exampleEnv exampleTwo) exampleLoaded = Inr objs"
  by (rule RenderConfig_total) (simp add: exampleEnv_credentialOf)

lemma exampleLoaded_credentials:
  "credentials (exampleEnv exampleTwo) exampleLoaded = {\<lparr>crPrivateKey = ''text'', crPassphrase = [], crPassword = []\<rparr>}"
proof -
  have "map (\<lambda>h. (hcfPrivateKeyPath h \<noteq> [], hcfPassphrase h, hcfPassword h)) (gcHosts exampleLoaded) =
      [(True, [], []), (True, [], [])]"
    by code_simp
  then obtain a b where "gcHosts exampleLoaded = [a, b]" "hcfPrivateKeyPath a \<noteq> []" "hcfPassphrase a = []" "hcfPassword a = []"
      "hcfPrivateKeyPath b \<noteq> []" "hcfPassphrase b = []" "hcfPassword b = []"
    by auto
  then show ?thesis by (auto simp: credentials_def exampleEnv_credentialOf)
qed

theorem RenderConfig_distinct_identities_witness:
  "\<exists>objs. RenderConfig (exampleEnv exampleTwo) exampleLoaded = Inr objs \<and> distinct (map objectID (AllObjects objs))"
proof -
  obtain objs where r: "RenderConfig (exampleEnv exampleTwo) exampleLoaded = Inr objs" using exampleLoaded_renders by blast
  have "map wpName (gcWorkers exampleLoaded) = [''default'']" by code_simp
  then have "''control-plane'' \<notin> wpName ` set (gcWorkers exampleLoaded)" by auto
  from RenderConfig_distinct_identities [OF r exampleLoaded_valid(1) this] r show ?thesis by blast
qed

theorem RenderConfig_references_resolve_witness:
  "\<exists>objs. RenderConfig (exampleEnv exampleTwo) exampleLoaded = Inr objs \<and>
     (\<exists>ob\<in>set (AllObjects objs). refersTo ''lab'' (''infrastructure.kgenesis.io'', ''HostCluster'', ''lab'') ob)"
proof -
  obtain objs where r: "RenderConfig (exampleEnv exampleTwo) exampleLoaded = Inr objs" using exampleLoaded_renders by blast
  have cl: "obCluster objs = renderCluster exampleLoaded" by (rule RenderConfig_parts [OF r])
  have m: "OCluster (renderCluster exampleLoaded) \<in> set (AllObjects objs)" by (simp add: AllObjects_def cl)
  have n: "namespaceOf exampleLoaded = ''lab''" "clusterOf exampleLoaded = ''lab''" by code_simp+
  have "(''infrastructure.kgenesis.io'', ''HostCluster'', ''lab'') \<in> set (references (OCluster (renderCluster exampleLoaded)))"
    by (simp add: renderCluster_def n(2) infraAPIGroup_def)
  from RenderConfig_references_resolve [OF r exampleLoaded_valid(2) m this] r show ?thesis unfolding n by auto
qed

definition exampleClash :: genesisConfig where
  "exampleClash = ApplyDefaults (exampleConfig [exampleHostConfig ''cp-1'' ''10.0.0.1'' CfgRoleControlPlane,
     exampleHostConfig ''w-1'' ''10.0.0.2'' CfgRoleWorker] [examplePoolConfig ''control-plane'' 1])"

theorem RenderConfig_pool_clash_witness:
  "Validate (exampleEnv exampleClash) exampleClash = None \<and>
   (\<exists>w\<in>set (gcWorkers exampleClash). objectID (OHostMachineTemplate (renderControlPlaneMachineTemplate exampleClash)) =
      objectID (OHostMachineTemplate (fst (renderWorkerPool exampleClash w))))"
proof -
  obtain objs where r: "RenderConfig (exampleEnv exampleClash) exampleClash = Inr objs"
    using RenderConfig_total [of "exampleEnv exampleClash" exampleClash] exampleEnv_credentialOf by blast
  have v: "Validate (exampleEnv exampleClash) exampleClash = None" by code_simp
  have "map wpName (gcWorkers exampleClash) = [''control-plane'']" by code_simp
  then obtain w where w: "w \<in> set (gcWorkers exampleClash)" "wpName w = ''control-plane''" by auto
  from RenderConfig_pool_clash [OF r w] v w(1) show ?thesis by (auto simp: Let_def)
qed

end
