(* ===== verification/KG_CliProg.thy ===== *)
theory KG_CliProg
  imports KG_Registry KG_Render KG_Provisioner KG_CloudInit
begin

text \<open>
  What a \<^verbatim>\<open>kg\<close> command does to the outside: local files, the registry of clusters, API servers
  reached through a kubeconfig file, clusterctl, kind, docker, the clock, and the hosts over SSH.
  A command is a program over these calls (\<open>cmd\<close> of \<^verbatim>\<open>KG_Prog\<close>), so what is proved for every
  list of replies holds for every behaviour of all of them. What a command prints is not part
  of the model. \<open>wp\<close> is the weakest precondition of a program over the history of its calls:
  one rule per constructor, one for sequencing, and soundness for complete and for interrupted
  runs.
\<close>

subsection \<open>What the commands read of Cluster API\<close>

record liveCluster =
  lcMeta :: objectMeta
  lcPaused :: "bool option"
  lcPhase :: string
  lcEndpoint :: endpoint

record liveMachine =
  lmMeta :: objectMeta
  lmPhase :: string

record liveNode =
  lnName :: string
  lnConditions :: "(string \<times> string) list"
  lnKubeletVersion :: string

record livePool =
  lpName :: string
  lpReplicas :: "int32 option"

abbreviation lcKey :: "liveCluster \<Rightarrow> objectKey" where
  "lcKey c \<equiv> (mNamespace (lcMeta c), mName (lcMeta c))"

subsection \<open>Calls and replies\<close>

text \<open>
  A client is the path of the kubeconfig it was built from; \<open>Kube c\<close> is a call through it.
  \<open>ListHostsIn None\<close> lists over all namespaces. \<open>Registry dir\<close> is a call of the registry in a
  state directory. \<open>Wait d\<close> is \<^verbatim>\<open>select\<close> between the context and \<^verbatim>\<open>time.After(d)\<close>, in nanoseconds;
  the reply says whether the interval elapsed first. The archive that \<^verbatim>\<open>docker save\<close> streams is
  not a value of the model: \<open>KindLoad\<close> loads it into a node. \<open>WriteOut\<close> is standard output where a
  command writes its result there. \<open>Remote\<close> is a call of the SSH layer.
\<close>

datatype fileReq =
    StatFile string
  | ReadFileAt string
  | MkdirAll string
  | WriteFileAt string string
  | RemoveAt string

datatype registryReq =
    RegistryGet string string
  | RegistryList
  | RegistryPut clusterRecord
  | RegistryForget string string

datatype kubeReq =
    ApplyObject clientObject
  | ApplyDoc doc
  | DeleteDoc doc
  | GetLiveCluster objectKey
  | ListLiveClusters
  | UpdateLiveCluster liveCluster
  | DeleteLiveCluster liveCluster
  | ListLiveMachines string string
  | ListHostsIn "string option"
  | ListHostMachinesIn string
  | GetHostAt objectKey
  | UpdateHostStatusAt host
  | ListControlPlanes string string
  | ListDeployments string string
  | ListNodes

datatype toolReq =
    NewClusterctl
  | ClusterctlInit string string "string list" "string list" "string list" int
  | ClusterctlMove string string string bool
  | ClusterctlKubeconfig string string string
  | KindList
  | KindCreate string string "string option"
  | KindExport string string
  | KindDelete string string
  | KindListNodes string
  | KindLoad string
  | DockerInspect string
  | DockerPipe string
  | DockerStart string
  | DockerReadAll
  | DockerWait

datatype clireq =
    File fileReq
  | Registry string registryReq
  | LoadKubeconfig string
  | BuildClient string
  | Kube string kubeReq
  | Tool toolReq
  | HttpRequest string
  | HttpGet string
  | WriteOut string
  | Wait int
  | ClockNow
  | Remote req

datatype cliresp =
    CUnit "unit result"
  | CText "string result"
  | CTexts "string list result"
  | CRecord "clusterRecord option result"
  | CRecords "clusterRecord list result"
  | CCluster "liveCluster result"
  | CClusters "liveCluster list result"
  | CMachines "liveMachine list result"
  | CHosts "host list result"
  | CHost "host result"
  | CHostMachines "hostMachine list result"
  | CPools "livePool list result"
  | CNodes "liveNode list result"
  | CHttp "(nat \<times> string \<times> string result) result"
  | CElapsed bool
  | CTime int
  | CRemote resp

type_synonym 'a cli = "(clireq, cliresp, 'a) cmd"
type_synonym history = "(clireq \<times> cliresp) list"

subsubsection \<open>One call with its typed reply\<close>

definition perform :: "'q \<Rightarrow> ('r \<Rightarrow> 'a option) \<Rightarrow> ('q, 'r, 'a) cmd" where
  "perform q sel = Call q (\<lambda>r. case sel r of Some x \<Rightarrow> Ret x | None \<Rightarrow> Stuck)"

definition unitOf :: "cliresp \<Rightarrow> unit result option" where "unitOf r = (case r of CUnit x \<Rightarrow> Some x | _ \<Rightarrow> None)"
definition textOf :: "cliresp \<Rightarrow> string result option" where "textOf r = (case r of CText x \<Rightarrow> Some x | _ \<Rightarrow> None)"
definition textsOf :: "cliresp \<Rightarrow> string list result option" where "textsOf r = (case r of CTexts x \<Rightarrow> Some x | _ \<Rightarrow> None)"
definition recordOf :: "cliresp \<Rightarrow> clusterRecord option result option" where "recordOf r = (case r of CRecord x \<Rightarrow> Some x | _ \<Rightarrow> None)"
definition recordsOf :: "cliresp \<Rightarrow> clusterRecord list result option" where "recordsOf r = (case r of CRecords x \<Rightarrow> Some x | _ \<Rightarrow> None)"
definition liveOf :: "cliresp \<Rightarrow> liveCluster result option" where "liveOf r = (case r of CCluster x \<Rightarrow> Some x | _ \<Rightarrow> None)"
definition livesOf :: "cliresp \<Rightarrow> liveCluster list result option" where "livesOf r = (case r of CClusters x \<Rightarrow> Some x | _ \<Rightarrow> None)"
definition machinesOf :: "cliresp \<Rightarrow> liveMachine list result option" where "machinesOf r = (case r of CMachines x \<Rightarrow> Some x | _ \<Rightarrow> None)"
definition hostsOf :: "cliresp \<Rightarrow> host list result option" where "hostsOf r = (case r of CHosts x \<Rightarrow> Some x | _ \<Rightarrow> None)"
definition hostOf :: "cliresp \<Rightarrow> host result option" where "hostOf r = (case r of CHost x \<Rightarrow> Some x | _ \<Rightarrow> None)"
definition hostMachinesOf :: "cliresp \<Rightarrow> hostMachine list result option" where "hostMachinesOf r = (case r of CHostMachines x \<Rightarrow> Some x | _ \<Rightarrow> None)"
definition poolsOf :: "cliresp \<Rightarrow> livePool list result option" where "poolsOf r = (case r of CPools x \<Rightarrow> Some x | _ \<Rightarrow> None)"
definition nodesOf :: "cliresp \<Rightarrow> liveNode list result option" where "nodesOf r = (case r of CNodes x \<Rightarrow> Some x | _ \<Rightarrow> None)"
definition httpOf :: "cliresp \<Rightarrow> (nat \<times> string \<times> string result) result option" where "httpOf r = (case r of CHttp x \<Rightarrow> Some x | _ \<Rightarrow> None)"
definition elapsedOf :: "cliresp \<Rightarrow> bool option" where "elapsedOf r = (case r of CElapsed x \<Rightarrow> Some x | _ \<Rightarrow> None)"
definition timeOf :: "cliresp \<Rightarrow> int option" where "timeOf r = (case r of CTime x \<Rightarrow> Some x | _ \<Rightarrow> None)"
definition remoteOf :: "cliresp \<Rightarrow> resp option" where "remoteOf r = (case r of CRemote x \<Rightarrow> Some x | _ \<Rightarrow> None)"

lemma reply_sel [simp]:
  "unitOf r = Some x1 \<longleftrightarrow> r = CUnit x1" "textOf r = Some x2 \<longleftrightarrow> r = CText x2"
  "textsOf r = Some x3 \<longleftrightarrow> r = CTexts x3" "recordOf r = Some x4 \<longleftrightarrow> r = CRecord x4"
  "recordsOf r = Some x5 \<longleftrightarrow> r = CRecords x5" "liveOf r = Some x6 \<longleftrightarrow> r = CCluster x6"
  "livesOf r = Some x7 \<longleftrightarrow> r = CClusters x7" "machinesOf r = Some x8 \<longleftrightarrow> r = CMachines x8"
  "hostsOf r = Some x9 \<longleftrightarrow> r = CHosts x9" "hostOf r = Some x10 \<longleftrightarrow> r = CHost x10"
  "hostMachinesOf r = Some x11 \<longleftrightarrow> r = CHostMachines x11" "poolsOf r = Some x12 \<longleftrightarrow> r = CPools x12"
  "nodesOf r = Some x13 \<longleftrightarrow> r = CNodes x13" "httpOf r = Some x14 \<longleftrightarrow> r = CHttp x14"
  "elapsedOf r = Some x15 \<longleftrightarrow> r = CElapsed x15" "timeOf r = Some x16 \<longleftrightarrow> r = CTime x16"
  "remoteOf r = Some x17 \<longleftrightarrow> r = CRemote x17"
  by (cases r; simp add: unitOf_def textOf_def textsOf_def recordOf_def recordsOf_def liveOf_def livesOf_def
      machinesOf_def hostsOf_def hostOf_def hostMachinesOf_def poolsOf_def nodesOf_def httpOf_def elapsedOf_def
      timeOf_def remoteOf_def)+


subsubsection \<open>Errors on the way\<close>

definition wrapE :: "string \<Rightarrow> ('q, 'r, 'a result) cmd \<Rightarrow> ('q, 'r, 'a result) cmd" where
  "wrapE prefix p = bind p (\<lambda>x. Ret (case x of Inl e \<Rightarrow> Inl (wrapf prefix e) | Inr a \<Rightarrow> Inr a))"

text \<open>An error with a hint after it, as \<^verbatim>\<open>fmt.Errorf("%w...", err)\<close> makes it.\<close>

definition hintf :: "string \<Rightarrow> goerror \<Rightarrow> goerror" where
  "hintf suffix e = e\<lparr>emsg := emsg e @ suffix\<rparr>"

definition hintE :: "string \<Rightarrow> ('q, 'r, 'a result) cmd \<Rightarrow> ('q, 'r, 'a result) cmd" where
  "hintE suffix p = bind p (\<lambda>x. Ret (case x of Inl e \<Rightarrow> Inl (hintf suffix e) | Inr a \<Rightarrow> Inr a))"

lemma hintf_sel [simp]: "ekind (hintf s e) = ekind e" by (simp add: hintf_def)

text \<open>Run a program of the SSH layer.\<close>

primrec liftR :: "'a prog \<Rightarrow> 'a cli" where
  "liftR (Ret a) = Ret a"
| "liftR Stuck = Stuck"
| "liftR (Call q k) = Call (Remote q) (\<lambda>r. case r of CRemote x \<Rightarrow> liftR (k x) | _ \<Rightarrow> Stuck)"

text \<open>Run a program per element; the first error ends the loop.\<close>

fun eachE :: "('x \<Rightarrow> ('q, 'r, unit result) cmd) \<Rightarrow> 'x list \<Rightarrow> ('q, 'r, unit result) cmd" where
  "eachE f [] = Ret (Inr ())"
| "eachE f (x # xs) = bindE (f x) (\<lambda>_. eachE f xs)"

subsection \<open>Weakest preconditions\<close>

text \<open>
  \<open>wp G p Q h\<close>: from the history \<open>h\<close>, every call \<open>q\<close> that \<open>p\<close> makes satisfies \<open>G\<close> at the history
  before it, and every result satisfies \<open>Q\<close> at the history of the run.
\<close>

primrec wp :: "(('q \<times> 'r) list \<Rightarrow> 'q \<Rightarrow> bool) \<Rightarrow> ('q, 'r, 'a) cmd \<Rightarrow> ('a \<Rightarrow> ('q \<times> 'r) list \<Rightarrow> bool) \<Rightarrow> ('q \<times> 'r) list \<Rightarrow> bool" where
  "wp G (Ret a) Q h \<longleftrightarrow> Q a h"
| "wp G Stuck Q h \<longleftrightarrow> True"
| "wp G (Call q k) Q h \<longleftrightarrow> G h q \<and> (\<forall>r. wp G (k r) Q (h @ [(q, r)]))"

lemma wp_bind [simp]: "wp G (bind p f) Q h \<longleftrightarrow> wp G p (\<lambda>a. wp G (f a) Q) h"
  by (induction p arbitrary: h) auto

lemma wp_Ret [simp]: "wp G (Ret a) Q = Q a"
  by (rule ext) simp

lemma wp_mono: "wp G p Q h \<Longrightarrow> (\<And>a h'. Q a h' \<Longrightarrow> Q' a h') \<Longrightarrow> wp G p Q' h"
  by (induction p arbitrary: h) auto

lemma wp_weaken: "wp G p Q h \<Longrightarrow> (\<And>h' q. G h' q \<Longrightarrow> G' h' q) \<Longrightarrow> wp G' p Q h"
  by (induction p arbitrary: h) auto

lemma wp_conj: "wp G p Q h \<Longrightarrow> wp G' p Q' h \<Longrightarrow> wp (\<lambda>h q. G h q \<and> G' h q) p (\<lambda>a h. Q a h \<and> Q' a h) h"
  by (induction p arbitrary: h) auto

lemma wp_bindE: "wp G (bindE p f) Q h \<longleftrightarrow> wp G p (\<lambda>x h'. case x of Inl e \<Rightarrow> Q (Inl e) h' | Inr a \<Rightarrow> wp G (f a) Q h') h"
proof -
  have "(\<lambda>x. wp G (case x of Inl e \<Rightarrow> Ret (Inl e) | Inr a \<Rightarrow> f a) Q) =
      (\<lambda>x h'. case x of Inl e \<Rightarrow> Q (Inl e) h' | Inr a \<Rightarrow> wp G (f a) Q h')"
    by (rule ext)+ (simp split: sum.split)
  then show ?thesis by (simp add: bindE_def)
qed

lemma wp_perform:
  "wp G (perform q sel) Q h \<longleftrightarrow> G h q \<and> (\<forall>r x. sel r = Some x \<longrightarrow> Q x (h @ [(q, r)]))"
proof -
  have "wp G (case sel r of Some x \<Rightarrow> Ret x | None \<Rightarrow> Stuck) Q h' \<longleftrightarrow> (\<forall>x. sel r = Some x \<longrightarrow> Q x h')" for r h'
    by (cases "sel r") auto
  then show ?thesis by (simp add: perform_def)
qed

lemma wp_wrapE: "wp G (wrapE prefix p) Q h \<longleftrightarrow> wp G p (\<lambda>x. Q (case x of Inl e \<Rightarrow> Inl (wrapf prefix e) | Inr a \<Rightarrow> Inr a)) h"
  by (simp add: wrapE_def)

lemma wp_hintE: "wp G (hintE s p) Q h \<longleftrightarrow> wp G p (\<lambda>x. Q (case x of Inl e \<Rightarrow> Inl (hintf s e) | Inr a \<Rightarrow> Inr a)) h"
  by (simp add: hintE_def)

lemma wp_cases:
  "wp G (case x of Inl e \<Rightarrow> f e | Inr a \<Rightarrow> g a) Q h \<longleftrightarrow> (\<forall>e. x = Inl e \<longrightarrow> wp G (f e) Q h) \<and> (\<forall>a. x = Inr a \<longrightarrow> wp G (g a) Q h)"
  "wp G (case y of None \<Rightarrow> p | Some b \<Rightarrow> k b) Q h \<longleftrightarrow> (y = None \<longrightarrow> wp G p Q h) \<and> (\<forall>b. y = Some b \<longrightarrow> wp G (k b) Q h)"
  "wp G (if c then p else q) Q h \<longleftrightarrow> (c \<longrightarrow> wp G p Q h) \<and> (\<not> c \<longrightarrow> wp G q Q h)"
  "wp G (case z of (u, v) \<Rightarrow> w u v) Q h \<longleftrightarrow> (\<forall>u v. z = (u, v) \<longrightarrow> wp G (w u v) Q h)"
  by (simp_all split: sum.split option.split prod.split)

lemmas wp_simps = wp_bindE wp_perform wp_wrapE wp_hintE wp_cases

text \<open>Soundness: for a run that returned and for one that was cut off.\<close>

lemma wp_replay_from: "wp G p Q h \<Longrightarrow> replay p evs = Some a \<Longrightarrow> Q a (h @ evs)"
proof (induction p arbitrary: h evs)
  case (Call q k)
  then obtain r es where "evs = (q, r) # es" "replay (k r) es = Some a" by (auto simp: replay_Call)
  then show ?case using Call.IH [of "k r" "h @ [(q, r)]" es] Call.prems(1) by simp
qed auto

lemma wp_cutoff_from:
  "wp G p Q h \<Longrightarrow> cutoff p evs \<Longrightarrow> i < length evs \<Longrightarrow> G (h @ take i evs) (fst (evs ! i))"
proof (induction p arbitrary: h evs i)
  case (Call q k)
  then obtain e es where evs: "evs = e # es" by (cases evs) auto
  obtain q' r where e: "e = (q', r)" by (cases e)
  have c: "q' = q" "cutoff (k r) es" using Call.prems(2) evs e by auto
  show ?case
  proof (cases i)
    case 0
    then show ?thesis using Call.prems(1) evs e c by simp
  next
    case (Suc j)
    have "G ((h @ [(q, r)]) @ take j es) (fst (es ! j))"
      using Call.prems evs e c Suc by (intro Call.IH [of "k r"]) auto
    then show ?thesis using evs e c Suc by simp
  qed
qed (auto elim: cutoff.elims)

lemmas wp_replay = wp_replay_from [where h = "[]", simplified]
lemmas wp_cutoff = wp_cutoff_from [where h = "[]", simplified]

lemma wp_calls: "calls P p \<Longrightarrow> wp (\<lambda>_. P) p (\<lambda>_ _. True) h"
  by (induction p arbitrary: h) auto

text \<open>A condition on calls alone and a result that does not depend on the history.\<close>

lemma wp_liftR:
  assumes "calls P p" "\<And>q. P q \<Longrightarrow> \<forall>h. G h (Remote q)"
  shows "wp G (liftR p) (\<lambda>_ _. True) h"
  using assms(1)
proof (induction p arbitrary: h)
  case (Call q k)
  have "wp G (case r of CRemote x \<Rightarrow> liftR (k x) | _ \<Rightarrow> Stuck) (\<lambda>_ _. True) h'" for r h'
    using Call by (cases r) auto
  then show ?case using Call.prems assms(2) by simp
qed auto

lemma wp_eachE:
  assumes "\<And>x h. x \<in> set xs \<Longrightarrow> I h \<Longrightarrow> wp G (f x) (\<lambda>r h'. case r of Inl e \<Rightarrow> Q (Inl e) h' | Inr _ \<Rightarrow> I h') h"
    and "\<And>h. I h \<Longrightarrow> Q (Inr ()) h" and "I h"
  shows "wp G (eachE f xs) Q h"
  using assms(1,3)
proof (induction xs arbitrary: h)
  case Nil
  then show ?case using assms(2) by simp
next
  case (Cons x xs)
  have "wp G (f x) (\<lambda>r h'. case r of Inl e \<Rightarrow> Q (Inl e) h' | Inr _ \<Rightarrow> I h') h" using Cons.prems by simp
  then show ?case
    unfolding eachE.simps wp_bindE
    by (rule wp_mono) (use Cons in \<open>auto split: sum.splits\<close>)
qed

subsection \<open>How many calls\<close>

text \<open>\<open>callsAtMost n p\<close>: no run of \<open>p\<close> makes more than \<open>n\<close> calls.\<close>

primrec callsAtMost :: "('q, 'r, 'a) cmd \<Rightarrow> nat \<Rightarrow> bool" where
  "callsAtMost (Ret a) n \<longleftrightarrow> True"
| "callsAtMost Stuck n \<longleftrightarrow> True"
| "callsAtMost (Call q k) n \<longleftrightarrow> (\<exists>m. n = Suc m \<and> (\<forall>r. callsAtMost (k r) m))"

lemma callsAtMost_mono: "callsAtMost p n \<Longrightarrow> n \<le> m \<Longrightarrow> callsAtMost p m"
proof (induction p arbitrary: n m)
  case (Call q k)
  obtain n' m' where n: "n = Suc n'" "m = Suc m'" "\<forall>r. callsAtMost (k r) n'" "n' \<le> m'"
    using Call.prems by (cases m) auto
  have "callsAtMost (k r) m'" for r by (rule Call.IH [OF rangeI]) (use n in auto)
  then show ?case using n by simp
qed simp_all

lemma callsAtMost_bind: "callsAtMost p n \<Longrightarrow> (\<And>a. callsAtMost (f a) m) \<Longrightarrow> callsAtMost (bind p f) (n + m)"
proof (induction p arbitrary: n)
  case (Ret a)
  then show ?case using callsAtMost_mono [of "f a" m] by simp
qed auto

lemma callsAtMost_bindE: "callsAtMost p n \<Longrightarrow> (\<And>a. callsAtMost (f a) m) \<Longrightarrow> callsAtMost (bindE p f) (n + m)"
  unfolding bindE_def by (rule callsAtMost_bind) (auto split: sum.split)

lemma callsAtMost_perform: "callsAtMost (perform q sel) 1"
  by (auto simp: perform_def split: option.split)

lemma callsAtMost_cutoff: "callsAtMost p n \<Longrightarrow> cutoff p evs \<Longrightarrow> length evs \<le> n"
proof (induction p arbitrary: n evs)
  case (Call q k)
  obtain m where m: "n = Suc m" "\<forall>r. callsAtMost (k r) m" using Call.prems(1) by auto
  show ?case
  proof (cases evs)
    case (Cons e es)
    then obtain r where "cutoff (k r) es" using Call.prems(2) by (cases e) auto
    then have "length es \<le> m" by (intro Call.IH [OF rangeI]) (use m in auto)
    then show ?thesis using Cons m by simp
  qed simp
qed (auto elim: cutoff.elims)


subsection \<open>Conditions that stay\<close>

text \<open>Once a condition that only grows with the history holds, every program keeps it.\<close>

definition stays :: "(('q \<times> 'r) list \<Rightarrow> bool) \<Rightarrow> bool" where
  "stays I \<longleftrightarrow> (\<forall>h e. I h \<longrightarrow> I (h @ [e]))"

lemma wp_stays: "stays I \<Longrightarrow> (\<And>h q. I h \<Longrightarrow> G h q) \<Longrightarrow> I h \<Longrightarrow> wp G p (\<lambda>_. I) h"
  by (induction p arbitrary: h) (auto simp: stays_def)

lemma stays_mem [simp]: "stays (\<lambda>h. e \<in> set h)" by (simp add: stays_def)

lemma stays_ex: "(\<And>x. stays (I x)) \<Longrightarrow> stays (\<lambda>h. \<exists>x. I x h)" unfolding stays_def by blast

lemma stays_and: "stays I \<Longrightarrow> stays J \<Longrightarrow> stays (\<lambda>h. I h \<and> J h)" by (simp add: stays_def)

lemma stays_const [simp]: "stays (\<lambda>_. c)" by (simp add: stays_def)

lemma stays_all: "(\<And>x. stays (I x)) \<Longrightarrow> stays (\<lambda>h. \<forall>x. I x h)" by (auto simp: stays_def)

lemmas stays_intros = stays_mem stays_const stays_ex stays_and stays_all

subsection \<open>Running to the end\<close>

text \<open>
  Run a program against a partner that answers every call. \<open>typed q\<close> is the replies of the type
  Go's signatures give to call \<open>q\<close>; a program that handles all of them returns.
\<close>

primrec execute :: "(('q \<times> 'r) list \<Rightarrow> 'q \<Rightarrow> 'r) \<Rightarrow> ('q, 'r, 'a) cmd \<Rightarrow> ('q \<times> 'r) list \<Rightarrow> ('q \<times> 'r) list \<times> 'a option" where
  "execute srv (Ret a) h = (h, Some a)"
| "execute srv Stuck h = (h, None)"
| "execute srv (Call q k) h = execute srv (k (srv h q)) (h @ [(q, srv h q)])"

fun kubeTyped :: "kubeReq \<Rightarrow> cliresp \<Rightarrow> bool" where
  "kubeTyped (GetLiveCluster k) r \<longleftrightarrow> liveOf r \<noteq> None"
| "kubeTyped ListLiveClusters r \<longleftrightarrow> livesOf r \<noteq> None"
| "kubeTyped (ListLiveMachines ns n) r \<longleftrightarrow> machinesOf r \<noteq> None"
| "kubeTyped (ListHostsIn ns) r \<longleftrightarrow> hostsOf r \<noteq> None"
| "kubeTyped (ListHostMachinesIn ns) r \<longleftrightarrow> hostMachinesOf r \<noteq> None"
| "kubeTyped (GetHostAt k) r \<longleftrightarrow> hostOf r \<noteq> None"
| "kubeTyped (UpdateHostStatusAt h) r \<longleftrightarrow> hostOf r \<noteq> None"
| "kubeTyped (ListControlPlanes ns n) r \<longleftrightarrow> poolsOf r \<noteq> None"
| "kubeTyped (ListDeployments ns n) r \<longleftrightarrow> poolsOf r \<noteq> None"
| "kubeTyped ListNodes r \<longleftrightarrow> nodesOf r \<noteq> None"
| "kubeTyped _ r \<longleftrightarrow> unitOf r \<noteq> None"

fun typed :: "clireq \<Rightarrow> cliresp \<Rightarrow> bool" where
  "typed (File (ReadFileAt p)) r \<longleftrightarrow> textOf r \<noteq> None"
| "typed (File _) r \<longleftrightarrow> unitOf r \<noteq> None"
| "typed (Registry d (RegistryGet ns n)) r \<longleftrightarrow> recordOf r \<noteq> None"
| "typed (Registry d RegistryList) r \<longleftrightarrow> recordsOf r \<noteq> None"
| "typed (Registry d _) r \<longleftrightarrow> unitOf r \<noteq> None"
| "typed (Kube c q) r \<longleftrightarrow> kubeTyped q r"
| "typed (Tool (ClusterctlKubeconfig m n ns)) r \<longleftrightarrow> textOf r \<noteq> None"
| "typed (Tool KindList) r \<longleftrightarrow> textsOf r \<noteq> None"
| "typed (Tool (KindListNodes n)) r \<longleftrightarrow> textsOf r \<noteq> None"
| "typed (Tool _) r \<longleftrightarrow> unitOf r \<noteq> None"
| "typed (HttpGet u) r \<longleftrightarrow> httpOf r \<noteq> None"
| "typed (Wait d) r \<longleftrightarrow> elapsedOf r \<noteq> None"
| "typed ClockNow r \<longleftrightarrow> timeOf r \<noteq> None"
| "typed (Remote q) r \<longleftrightarrow> remoteOf r \<noteq> None"
| "typed _ r \<longleftrightarrow> unitOf r \<noteq> None"

primrec total :: "'a cli \<Rightarrow> bool" where
  "total (Ret a) \<longleftrightarrow> True"
| "total Stuck \<longleftrightarrow> False"
| "total (Call q k) \<longleftrightarrow> (\<forall>r. typed q r \<longrightarrow> total (k r))"

lemma total_bind: "total p \<Longrightarrow> (\<And>a. total (f a)) \<Longrightarrow> total (bind p f)"
  by (induction p) auto

lemma total_bindE: "total p \<Longrightarrow> (\<And>a. total (f a)) \<Longrightarrow> total (bindE p f)"
  unfolding bindE_def by (rule total_bind) (auto split: sum.split)

lemma total_perform:
  assumes "\<And>r. typed q r \<Longrightarrow> sel r \<noteq> None"
  shows "total (perform q sel)"
proof -
  have "total (case sel r of Some x \<Rightarrow> Ret x | None \<Rightarrow> Stuck)" if "typed q r" for r
    using assms [OF that] by (cases "sel r") auto
  then show ?thesis by (simp add: perform_def)
qed

lemma total_wrapE: "total p \<Longrightarrow> total (wrapE s p)" "total p \<Longrightarrow> total (hintE s p)"
  unfolding wrapE_def hintE_def by (rule total_bind, simp_all)+

lemmas total_intros = total_bind total_bindE total_perform total_wrapE

lemma execute_total:
  assumes "total p" "callsAtMost p n" "\<And>h q. typed q (srv h q)"
  shows "\<exists>evs a. execute srv p h = (h @ evs, Some a) \<and> replay p evs = Some a \<and> length evs \<le> n"
  using assms(1,2)
proof (induction p arbitrary: h n)
  case (Call q k)
  obtain m where m: "n = Suc m" "callsAtMost (k (srv h q)) m" using Call.prems(2) by auto
  have "total (k (srv h q))" using Call.prems(1) assms(3) by simp
  from Call.IH [OF rangeI this m(2), of "h @ [(q, srv h q)]"] obtain evs a where
    e: "execute srv (k (srv h q)) (h @ [(q, srv h q)]) = ((h @ [(q, srv h q)]) @ evs, Some a)"
      "replay (k (srv h q)) evs = Some a" "length evs \<le> m" by blast
  then show ?case using m(1) by (intro exI [of _ "(q, srv h q) # evs"] exI [of _ a]) simp
qed simp_all


subsection \<open>What a successful run has seen\<close>

text \<open>\<open>ensures p I\<close>: a run of \<open>p\<close> that returns \<open>a\<close> without an error ends in a history with \<open>I a\<close>.\<close>

definition ensures :: "('q, 'r, 'a result) cmd \<Rightarrow> ('a \<Rightarrow> ('q \<times> 'r) list \<Rightarrow> bool) \<Rightarrow> bool" where
  "ensures p I \<longleftrightarrow> (\<forall>h. wp (\<lambda>_ _. True) p (\<lambda>x h'. \<forall>a. x = Inr a \<longrightarrow> I a h') h)"

lemma wp_trivial: "(\<And>a h. Q a h) \<Longrightarrow> wp (\<lambda>_ _. True) p Q h"
  by (induction p arbitrary: h) auto

lemma ensures_replay: "ensures p I \<Longrightarrow> replay p evs = Some (Inr a) \<Longrightarrow> I a evs"
  unfolding ensures_def by (blast dest: wp_replay)

lemma ensures_True [simp]: "ensures p (\<lambda>_ _. True)"
  by (simp add: ensures_def wp_trivial)

lemma ensures_Ret [simp]: "ensures (Ret (Inr a)) I \<longleftrightarrow> (\<forall>h. I a h)" "ensures (Ret (Inl e)) I"
  by (simp_all add: ensures_def)

lemma ensures_mono: "ensures p I \<Longrightarrow> (\<And>a h. I a h \<Longrightarrow> J a h) \<Longrightarrow> ensures p J"
  unfolding ensures_def by (blast intro: wp_mono)

lemma ensures_bindE:
  assumes "ensures p I" "\<And>a. stays (I a)" "\<And>a h. I a h \<Longrightarrow> ensures (f a) J"
  shows "ensures (bindE p f) (\<lambda>b h. J b h \<and> (\<exists>a. I a h))"
  unfolding ensures_def wp_bindE
proof
  fix h
  have step: "wp (\<lambda>_ _. True) (f a) (\<lambda>x h'. \<forall>b. x = Inr b \<longrightarrow> J b h' \<and> (\<exists>a. I a h')) h'" if "I a h'" for a h'
  proof -
    have "wp (\<lambda>_ _. True) (f a) (\<lambda>x h'. \<forall>b. x = Inr b \<longrightarrow> J b h') h'"
      using assms(3) [OF that] by (simp add: ensures_def)
    from wp_conj [OF this wp_stays [OF assms(2) [of a], of "\<lambda>_ _. True"]] that
    show ?thesis by (auto elim!: wp_mono)
  qed
  show "wp (\<lambda>_ _. True) p (\<lambda>x h'. case x of Inl e \<Rightarrow> \<forall>b. Inl e = Inr b \<longrightarrow> J b h' \<and> (\<exists>a. I a h')
      | Inr a \<Rightarrow> wp (\<lambda>_ _. True) (f a) (\<lambda>x h'. \<forall>b. x = Inr b \<longrightarrow> J b h' \<and> (\<exists>a. I a h')) h') h"
    by (rule wp_mono [OF assms(1) [unfolded ensures_def, rule_format]]) (auto split: sum.split intro: step)
qed

lemma ensures_perform: "ensures (perform q sel) (\<lambda>a h. \<exists>r. (q, r) \<in> set h \<and> sel r = Some (Inr a))"
  by (auto simp: ensures_def wp_perform)

lemma ensures_wrapE [simp]: "ensures (wrapE s p) I \<longleftrightarrow> ensures p I" "ensures (hintE s p) I \<longleftrightarrow> ensures p I"
proof -
  have "(\<lambda>x h'. \<forall>a. (case x of Inl e \<Rightarrow> Inl (g e) | Inr a \<Rightarrow> Inr a) = Inr a \<longrightarrow> I a h') = (\<lambda>x h'. \<forall>a. x = Inr a \<longrightarrow> I a h')"
    for g :: "goerror \<Rightarrow> goerror"
    by (rule ext)+ (simp split: sum.split)
  then show "ensures (wrapE s p) I \<longleftrightarrow> ensures p I" "ensures (hintE s p) I \<longleftrightarrow> ensures p I"
    by (simp_all add: ensures_def wp_wrapE wp_hintE)
qed

lemma ensures_eachE:
  assumes "\<And>x. x \<in> set xs \<Longrightarrow> ensures (f x) (\<lambda>_. I x)" "\<And>x. stays (I x)"
  shows "ensures (eachE f xs) (\<lambda>_ h. \<forall>x\<in>set xs. I x h)"
  using assms(1)
proof (induction xs)
  case (Cons x xs)
  have "ensures (bindE (f x) (\<lambda>_. eachE f xs)) (\<lambda>_ h. (\<forall>y\<in>set xs. I y h) \<and> (\<exists>a::unit. I x h))"
    using Cons by (intro ensures_bindE assms(2)) auto
  then show ?case by (auto elim!: ensures_mono)
qed simp


subsection \<open>Evaluating a program\<close>

text \<open>The result of a program against a partner whose answer depends on the call alone.\<close>

primrec outcome :: "('q \<Rightarrow> 'r) \<Rightarrow> ('q, 'r, 'a) cmd \<Rightarrow> 'a option" where
  "outcome srv (Ret a) = Some a"
| "outcome srv Stuck = None"
| "outcome srv (Call q k) = outcome srv (k (srv q))"

lemma outcome_replay:
  "outcome srv p = Some a \<Longrightarrow> \<exists>evs. replay p evs = Some a \<and> (\<forall>e\<in>set evs. snd e = srv (fst e))"
proof (induction p)
  case (Call q k)
  then obtain evs where "replay (k (srv q)) evs = Some a" "\<forall>e\<in>set evs. snd e = srv (fst e)" by auto
  then show ?case by (intro exI [of _ "(q, srv q) # evs"]) simp
qed auto

lemma outcome_bind [simp]: "outcome srv (bind p f) = Option.bind (outcome srv p) (\<lambda>a. outcome srv (f a))"
  by (induction p) auto

lemma outcome_bindE [simp]:
  "outcome srv (bindE p f) = (case outcome srv p of None \<Rightarrow> None | Some (Inl e) \<Rightarrow> Some (Inl e) | Some (Inr a) \<Rightarrow> outcome srv (f a))"
  by (cases "outcome srv p") (auto simp: bindE_def split: sum.split)

lemma outcome_perform [simp]: "outcome srv (perform q sel) = sel (srv q)"
  by (simp add: perform_def split: option.split)

lemma outcome_wrapE [simp]:
  "outcome srv (wrapE s p) = map_option (\<lambda>x. case x of Inl e \<Rightarrow> Inl (wrapf s e) | Inr a \<Rightarrow> Inr a) (outcome srv p)"
  "outcome srv (hintE s p) = map_option (\<lambda>x. case x of Inl e \<Rightarrow> Inl (hintf s e) | Inr a \<Rightarrow> Inr a) (outcome srv p)"
  by (cases "outcome srv p"; simp add: wrapE_def hintE_def)+

lemma outcome_eachE: "(\<And>x. x \<in> set xs \<Longrightarrow> outcome srv (f x) = Some (Inr ())) \<Longrightarrow> outcome srv (eachE f xs) = Some (Inr ())"
  by (induction xs) auto

text \<open>The calls of a run against a server that answers each call by itself.\<close>

primrec requests :: "('q \<Rightarrow> 'r) \<Rightarrow> ('q, 'r, 'a) cmd \<Rightarrow> 'q list" where
  "requests srv (Ret a) = []"
| "requests srv Stuck = []"
| "requests srv (Call q k) = q # requests srv (k (srv q))"

lemma requests_bind [simp]:
  "requests srv (bind p f) = requests srv p @ (case outcome srv p of None \<Rightarrow> [] | Some a \<Rightarrow> requests srv (f a))"
  by (induction p) auto

lemma requests_bindE [simp]:
  "requests srv (bindE p f) = requests srv p @ (case outcome srv p of Some (Inr a) \<Rightarrow> requests srv (f a) | _ \<Rightarrow> [])"
  by (cases "outcome srv p") (auto simp: bindE_def split: sum.split)

lemma requests_perform [simp]: "requests srv (perform q sel) = [q]"
  by (simp add: perform_def split: option.split)

lemma outcome_requests:
  "outcome srv p = Some a \<Longrightarrow> \<exists>evs. replay p evs = Some a \<and> map fst evs = requests srv p \<and> (\<forall>e\<in>set evs. snd e = srv (fst e))"
proof (induction p)
  case (Call q k)
  then obtain evs where "replay (k (srv q)) evs = Some a" "map fst evs = requests srv (k (srv q))"
    "\<forall>e\<in>set evs. snd e = srv (fst e)" by auto
  then show ?case by (intro exI [of _ "(q, srv q) # evs"]) simp
qed auto

lemma requests_nth:
  assumes "outcome srv p = Some a" "q \<in> set (requests srv p)"
  shows "\<exists>evs i. replay p evs = Some a \<and> i < length evs \<and> fst (evs ! i) = q \<and> (\<forall>e\<in>set evs. snd e = srv (fst e))"
proof -
  from outcome_requests [OF assms(1)] obtain evs where
    evs: "replay p evs = Some a" "map fst evs = requests srv p" "\<forall>e\<in>set evs. snd e = srv (fst e)" by (elim exE conjE)
  have "q \<in> set (map fst evs)" using assms(2) evs(2) by simp
  then obtain i where "i < length (map fst evs)" "map fst evs ! i = q" unfolding in_set_conv_nth by (elim exE conjE)
  then show ?thesis using evs(1,3) by (intro exI [of _ evs] exI [of _ i]) simp
qed

lemma reply_make [simp]:
  "unitOf (CUnit x1) = Some x1" "textOf (CText x2) = Some x2" "textsOf (CTexts x3) = Some x3"
  "recordOf (CRecord x4) = Some x4" "recordsOf (CRecords x5) = Some x5" "liveOf (CCluster x6) = Some x6"
  "livesOf (CClusters x7) = Some x7" "machinesOf (CMachines x8) = Some x8" "hostsOf (CHosts x9) = Some x9"
  "hostOf (CHost x10) = Some x10" "hostMachinesOf (CHostMachines x11) = Some x11" "poolsOf (CPools x12) = Some x12"
  "nodesOf (CNodes x13) = Some x13" "httpOf (CHttp x14) = Some x14" "elapsedOf (CElapsed x15) = Some x15"
  "timeOf (CTime x16) = Some x16" "remoteOf (CRemote x17) = Some x17"
  by simp_all

subsection \<open>Polling\<close>

lemma callsAtMost_perform_bind:
  "(\<And>a. callsAtMost (f a) n) \<Longrightarrow> callsAtMost (bind (perform q sel) f) (Suc n)"
  "(\<And>a. callsAtMost (g a) n) \<Longrightarrow> callsAtMost (bindE (perform q sel') g) (Suc n)"
  using callsAtMost_bind [OF callsAtMost_perform, of f n q sel] callsAtMost_bindE [OF callsAtMost_perform, of g n q sel'] by simp_all

lemma branch_intros:
  "callsAtMost p n \<Longrightarrow> callsAtMost q n \<Longrightarrow> callsAtMost (if b then p else q) n"
  "total p' \<Longrightarrow> total q' \<Longrightarrow> total (if b then p' else q')"
  "(\<And>e. callsAtMost (f e) n) \<Longrightarrow> (\<And>x. callsAtMost (g x) n) \<Longrightarrow> callsAtMost (case r of Inl e \<Rightarrow> f e | Inr x \<Rightarrow> g x) n"
  "(\<And>e. total (f' e)) \<Longrightarrow> (\<And>x. total (g' x)) \<Longrightarrow> total (case r of Inl e \<Rightarrow> f' e | Inr x \<Rightarrow> g' x)"
  "callsAtMost (Ret a) n" "total (Ret a')"
  by (simp_all split: sum.split)

lemma budget_step: "0 < d \<Longrightarrow> \<not> T < d \<Longrightarrow> nat (T div d) = Suc (nat ((T - d) div d))" for T d :: int
proof -
  assume d: "0 < d" "\<not> T < d"
  then have "T div d = (T - d) div d + 1" by (metis add.commute diff_add_cancel div_add_self2 less_irrefl)
  moreover have "0 \<le> (T - d) div d" using d by (simp add: pos_imp_zdiv_nonneg_iff)
  ultimately show ?thesis by simp
qed

text \<open>
  A loop that polls until a deadline: a pass asks, ends with a result or waits one interval and goes
  on. \<open>pass k\<close> is one turn of the loop that continues with \<open>k\<close>; it makes at most \<open>n\<close> calls. The
  loop carries what is left of the deadline, and a wait that does not fit in it, or that the
  context cuts short, ends it with \<open>late\<close>.
\<close>

locale polling =
  fixes loop :: "int \<Rightarrow> 'a cli" and pass :: "(bool \<Rightarrow> 'a cli) \<Rightarrow> 'a cli" and d :: int and late :: 'a and n :: nat
  assumes interval: "0 < d"
    and unfolds: "loop T = pass (\<lambda>elapsed. if \<not> elapsed \<or> T < d then Ret late else loop (T - d))"
    and pass_calls: "(\<And>e. callsAtMost (k e) m) \<Longrightarrow> callsAtMost (pass k) (n + m)"
    and pass_total: "(\<And>e. total (k e)) \<Longrightarrow> total (pass k)"
begin

lemma budget: "callsAtMost (loop T) (n * (nat (T div d) + 1)) \<and> total (loop T)"
proof (induction "nat T" arbitrary: T rule: less_induct)
  case less
  have ih: "callsAtMost (loop (T - d)) (n * nat (T div d))" "total (loop (T - d))" if "\<not> T < d"
    using less [of "T - d"] interval that budget_step [OF interval that] by auto
  let ?k = "\<lambda>elapsed. if \<not> elapsed \<or> T < d then Ret late else loop (T - d)"
  have "callsAtMost (?k e) (n * nat (T div d))" "total (?k e)" for e using ih by auto
  then have "callsAtMost (pass ?k) (n + n * nat (T div d))" "total (pass ?k)"
    using pass_calls [of ?k] pass_total [of ?k] by blast+
  then show ?case unfolding unfolds [of T] by simp
qed

lemma ends:
  assumes "\<And>h q. typed q (srv h q)"
  shows "\<exists>evs x. execute srv (loop T) [] = (evs, Some x) \<and> length evs \<le> n * (nat (T div d) + 1)"
  using execute_total [of "loop T" "n * (nat (T div d) + 1)" srv "[]"] budget assms by auto

lemma rule_from:
  assumes "\<And>k h. J h \<Longrightarrow> (\<And>e h'. J h' \<Longrightarrow> wp G (k e) Q h') \<Longrightarrow> wp G (pass k) Q h" "\<And>h. J h \<Longrightarrow> Q late h"
  shows "J h \<Longrightarrow> wp G (loop T) Q h"
proof (induction "nat T" arbitrary: T h rule: less_induct)
  case less
  have ih: "wp G (loop (T - d)) Q h'" if "\<not> T < d" "J h'" for h'
    using less(1) [of "T - d" h'] interval that by simp
  show ?case unfolding unfolds [of T]
    by (rule assms(1) [OF less(2)]) (auto simp: ih assms(2))
qed

end

end
