(* ===== verification/KG_Kube.thy ===== *)
theory KG_Kube
  imports KG_CliProg "HOL-Library.Sublist"
begin

text \<open>
  The helpers the commands are built from: \<^verbatim>\<open>internal/kube\<close> (clients, server-side apply,
  manifests), \<^verbatim>\<open>internal/capi\<close> (clusterctl) and \<^verbatim>\<open>internal/bootstrap\<close> (kind and docker). The YAML
  coders are parameters: \<open>encode\<close> is the serializer, \<open>decode\<close> what successive calls of the YAML
  decoder return until the end of the input.
\<close>

subsection \<open>Clients\<close>

definition NewClient :: "string \<Rightarrow> string result cli" where
  "NewClient path =
     bindE (wrapE (''load kubeconfig '' @ path) (perform (LoadKubeconfig path) unitOf)) (\<lambda>_.
     bindE (wrapE (''build a client for '' @ path) (perform (BuildClient path) unitOf)) (\<lambda>_.
     Ret (Inr path)))"

definition applyLabel :: "string \<times> string \<times> string \<Rightarrow> string" where
  "applyLabel i = (case i of (kind, ns, name) \<Rightarrow> kind @ '' '' @ ns @ ''/'' @ name)"

definition Apply :: "string \<Rightarrow> clientObject list \<Rightarrow> unit result cli" where
  "Apply c = eachE (\<lambda>obj. wrapE (''apply '' @ applyLabel (objectID obj)) (perform (Kube c (ApplyObject obj)) unitOf))"

fun encodeAll :: "(clientObject \<Rightarrow> string result) \<Rightarrow> bool \<Rightarrow> clientObject list \<Rightarrow> string result" where
  "encodeAll enc first [] = Inr []"
| "encodeAll enc first (obj # objs) =
     (case enc obj of
        Inl e \<Rightarrow> Inl (wrapf (''encode '' @ fst (snd (objectID obj)) @ ''/'' @ snd (snd (objectID obj))) e)
      | Inr y \<Rightarrow> (case encodeAll enc False objs of
                    Inl e \<Rightarrow> Inl e
                  | Inr rest \<Rightarrow> Inr ((if first then [] else ''---'' @ [CHR 0x0A]) @ y @ rest)))"

definition ToYAML :: "(clientObject \<Rightarrow> string result) \<Rightarrow> clientObject list \<Rightarrow> string result" where
  "ToYAML enc objs = encodeAll enc True objs"

subsection \<open>Manifests\<close>

text \<open>\<^verbatim>\<open>GetKind\<close>, \<^verbatim>\<open>GetName\<close>, \<^verbatim>\<open>GetNamespace\<close>: the empty string when the field is missing or not a string.\<close>

definition strField :: "any option \<Rightarrow> string" where
  "strField v = (case v of Some (VStr s) \<Rightarrow> s | _ \<Rightarrow> [])"

definition docKind :: "doc \<Rightarrow> string" where "docKind d = strField (map_of d ''kind'')"

definition metaField :: "string \<Rightarrow> doc \<Rightarrow> string" where
  "metaField k d = (case map_of d ''metadata'' of Some (VMap m) \<Rightarrow> strField (map_of m k) | _ \<Rightarrow> [])"

definition docName :: "doc \<Rightarrow> string" where "docName d = metaField ''name'' d"
definition docNamespace :: "doc \<Rightarrow> string" where "docNamespace d = metaField ''namespace'' d"

fun decodeLoop :: "doc result list \<Rightarrow> doc list result" where
  "decodeLoop [] = Inr []"
| "decodeLoop (Inl e # rs) = Inl (wrapf ''decode manifest'' e)"
| "decodeLoop (Inr d # rs) =
     (if d = [] then decodeLoop rs else (case decodeLoop rs of Inl e \<Rightarrow> Inl e | Inr ds \<Rightarrow> Inr (d # ds)))"

definition DecodeManifest :: "(string \<Rightarrow> doc result list) \<Rightarrow> string \<Rightarrow> doc list result" where
  "DecodeManifest decode data = decodeLoop (decode data)"

definition docLabel :: "doc \<Rightarrow> string" where
  "docLabel d = applyLabel (docKind d, docNamespace d, docName d)"

definition ApplyObjects :: "string \<Rightarrow> doc list \<Rightarrow> unit result cli" where
  "ApplyObjects c = eachE (\<lambda>d. wrapE (''apply '' @ docLabel d) (perform (Kube c (ApplyDoc d)) unitOf))"

definition ApplyManifest :: "(string \<Rightarrow> doc result list) \<Rightarrow> string \<Rightarrow> string \<Rightarrow> unit result cli" where
  "ApplyManifest decode c data =
     (case DecodeManifest decode data of Inl e \<Rightarrow> Ret (Inl e) | Inr objects \<Rightarrow> ApplyObjects c objects)"

definition deleteDoc :: "string \<Rightarrow> doc \<Rightarrow> unit result cli" where
  "deleteDoc c d = bind (perform (Kube c (DeleteDoc d)) unitOf) (\<lambda>r. Ret (case r of
      Inl e \<Rightarrow> if ekind e = ErrNotFound then Inr () else Inl (wrapf (''delete '' @ docLabel d) e)
    | Inr u \<Rightarrow> Inr u))"

definition DeleteManifest :: "(string \<Rightarrow> doc result list) \<Rightarrow> string \<Rightarrow> string \<Rightarrow> unit result cli" where
  "DeleteManifest decode c data =
     (case DecodeManifest decode data of Inl e \<Rightarrow> Ret (Inl e) | Inr objects \<Rightarrow> eachE (deleteDoc c) (rev objects))"

text \<open>
  \<^verbatim>\<open>unstructured.NestedSlice\<close>: the value at a path of maps, \<open>None\<close> when a step is missing or, which
  is an error there, not of the expected type; the caller treats both alike.
\<close>

fun nestedSlice :: "doc \<Rightarrow> string list \<Rightarrow> any list option" where
  "nestedSlice d [] = None"
| "nestedSlice d [k] = (case map_of d k of Some (VList xs) \<Rightarrow> Some xs | _ \<Rightarrow> None)"
| "nestedSlice d (k # k' # ks) = (case map_of d k of Some (VMap m) \<Rightarrow> nestedSlice m (k' # ks) | _ \<Rightarrow> None)"

text \<open>\<^verbatim>\<open>unstructured.SetNestedSlice\<close>, which creates missing maps and fails on a step that is not a map.\<close>

fun setNestedSlice :: "doc \<Rightarrow> any list \<Rightarrow> string list \<Rightarrow> doc result" where
  "setNestedSlice d xs [] = Inr d"
| "setNestedSlice d xs [k] = Inr (AList.update k (VList xs) d)"
| "setNestedSlice d xs (k # k' # ks) =
     (case map_of d k of
        None \<Rightarrow> rbind (setNestedSlice [] xs (k' # ks)) (\<lambda>m. Inr (AList.update k (VMap m) d))
      | Some (VMap m) \<Rightarrow> rbind (setNestedSlice m xs (k' # ks)) (\<lambda>m. Inr (AList.update k (VMap m) d))
      | Some _ \<Rightarrow> Inl (errorf ''value cannot be set because it is not a map''))"

definition containersPath :: "string list" where
  "containersPath = [''spec'', ''template'', ''spec'', ''containers'']"

fun setImage :: "string \<Rightarrow> string \<Rightarrow> any list \<Rightarrow> any list option" where
  "setImage container img [] = None"
| "setImage container img (c # cs) =
     (case c of
        VMap m \<Rightarrow> if map_of m ''name'' = Some (VStr container) then Some (VMap (AList.update ''image'' (VStr img) m) # cs)
                  else map_option (Cons c) (setImage container img cs)
      | _ \<Rightarrow> map_option (Cons c) (setImage container img cs))"

fun SetDeploymentImage :: "string \<Rightarrow> string \<Rightarrow> string \<Rightarrow> doc list \<Rightarrow> doc list result" where
  "SetDeploymentImage deployment container img [] = Inl (errorf (''manifest has no Deployment named '' @ deployment))"
| "SetDeploymentImage deployment container img (obj # objs) =
     (if docKind obj \<noteq> ''Deployment'' \<or> docName obj \<noteq> deployment
      then rbind (SetDeploymentImage deployment container img objs) (\<lambda>os. Inr (obj # os))
      else case nestedSlice obj containersPath of
             None \<Rightarrow> Inl (errorf (''deployment '' @ deployment @ '' has no containers''))
           | Some containers \<Rightarrow>
               (case setImage container img containers of
                  None \<Rightarrow> Inl (errorf (''deployment '' @ deployment @ '' has no container named '' @ container))
                | Some cs \<Rightarrow> rbind (setNestedSlice obj cs containersPath) (\<lambda>o'. Inr (o' # objs))))"

subsection \<open>clusterctl\<close>

definition CoreProvider :: string where "CoreProvider = ''cluster-api''"
definition BootstrapProvider :: string where "BootstrapProvider = ''kubeadm''"
definition ControlPlaneProvider :: string where "ControlPlaneProvider = ''kubeadm''"

record initOptions =
  ioKubeconfigPath :: string
  ioVersion :: string
  ioInfrastructureProvider :: string
  ioWaitTimeout :: int

definition withVersion :: "string \<Rightarrow> string \<Rightarrow> string" where
  "withVersion provider version = (if version = [] then provider else provider @ '':'' @ version)"

definition newClusterctl :: "unit result cli" where
  "newClusterctl = wrapE ''create the clusterctl client'' (perform (Tool NewClusterctl) unitOf)"

text \<open>The reply carries no components: no caller reads them. The lists are the bootstrap, control plane and infrastructure providers.\<close>

definition Init :: "initOptions \<Rightarrow> unit result cli" where
  "Init opts = bindE newClusterctl (\<lambda>_.
     wrapE ''install the Cluster API providers''
       (perform (Tool (ClusterctlInit (ioKubeconfigPath opts) (withVersion CoreProvider (ioVersion opts))
          [withVersion BootstrapProvider (ioVersion opts)] [withVersion ControlPlaneProvider (ioVersion opts)]
          (if ioInfrastructureProvider opts = [] then [] else [ioInfrastructureProvider opts]) (ioWaitTimeout opts))) unitOf))"

record moveOptions =
  moFromKubeconfig :: string
  moToKubeconfig :: string
  moNamespace :: string
  moDryRun :: bool

definition Move :: "moveOptions \<Rightarrow> unit result cli" where
  "Move opts = bindE newClusterctl (\<lambda>_.
     wrapE ''move the Cluster API objects''
       (perform (Tool (ClusterctlMove (moFromKubeconfig opts) (moToKubeconfig opts) (moNamespace opts) (moDryRun opts))) unitOf))"

definition GetKubeconfig :: "string \<Rightarrow> string \<Rightarrow> string \<Rightarrow> string result cli" where
  "GetKubeconfig managementKubeconfig clusterName namespace = bindE newClusterctl (\<lambda>_.
     wrapE (''get the kubeconfig for cluster '' @ namespace @ ''/'' @ clusterName)
       (perform (Tool (ClusterctlKubeconfig managementKubeconfig clusterName namespace)) textOf))"

subsection \<open>kind and docker\<close>

definition kindExists :: "string \<Rightarrow> bool result cli" where
  "kindExists name = bindE (wrapE ''list kind clusters'' (perform (Tool KindList) textsOf)) (\<lambda>names.
     Ret (Inr (name \<in> set names)))"

record createOptions =
  coNodeImage :: string
  coKubeconfigPath :: string

definition kindCreate :: "string \<Rightarrow> createOptions \<Rightarrow> unit result cli" where
  "kindCreate name opts = bindE (kindExists name) (\<lambda>running.
     bindE (wrapE ''prepare kubeconfig directory'' (perform (File (MkdirAll (pathDir (coKubeconfigPath opts)))) unitOf)) (\<lambda>_.
     if running
     then wrapE ''export kubeconfig for the existing cluster'' (perform (Tool (KindExport name (coKubeconfigPath opts))) unitOf)
     else wrapE ''create the bootstrap cluster''
       (perform (Tool (KindCreate name (coKubeconfigPath opts)
          (if coNodeImage opts = [] then None else Some (coNodeImage opts)))) unitOf)))"

definition kindDelete :: "string \<Rightarrow> string \<Rightarrow> unit result cli" where
  "kindDelete name kubeconfigPath =
     wrapE ''delete the bootstrap cluster'' (perform (Tool (KindDelete name kubeconfigPath)) unitOf)"

definition loadNode :: "string \<Rightarrow> unit result cli" where
  "loadNode node = wrapE (''load the image into node '' @ node) (perform (Tool (KindLoad node)) unitOf)"

definition loadToEach :: "string list \<Rightarrow> unit result cli" where
  "loadToEach targets =
     (if length targets = 1 then loadNode (targets ! 0)
      else bindE (wrapE ''read the image archive'' (perform (Tool DockerReadAll) unitOf)) (\<lambda>_. eachE loadNode targets))"

definition loadImageToNodes :: "string \<Rightarrow> string list \<Rightarrow> unit result cli" where
  "loadImageToNodes img targets =
     bindE (wrapE ''pipe docker save'' (perform (Tool (DockerPipe img)) unitOf)) (\<lambda>_.
     bindE (wrapE (''run docker save '' @ img) (perform (Tool (DockerStart img)) unitOf)) (\<lambda>_.
     bind (loadToEach targets) (\<lambda>loadErr.
     bindE (wrapE (''docker save '' @ img) (perform (Tool DockerWait) unitOf)) (\<lambda>_.
     Ret loadErr))))"

definition LoadImage :: "string \<Rightarrow> string \<Rightarrow> unit result cli" where
  "LoadImage name img =
     bindE (wrapE ''list nodes of the bootstrap cluster'' (perform (Tool (KindListNodes name)) textsOf)) (\<lambda>nodes.
     if length nodes = 0 then Ret (Inl (errorf (''bootstrap cluster '' @ goQuote name @ '' has no nodes'')))
     else loadImageToNodes img nodes)"

definition ImageAvailableLocally :: "string \<Rightarrow> bool cli" where
  "ImageAvailableLocally img =
     (if img = [] then Ret False
      else bind (perform (Tool (DockerInspect img)) unitOf) (\<lambda>r. Ret (case r of Inl _ \<Rightarrow> False | Inr _ \<Rightarrow> True)))"


subsection \<open>The image of the provider\<close>

lemma nestedSlice_lookup: "p \<noteq> [] \<Longrightarrow> nestedSlice d p = Some xs \<longleftrightarrow> lookupPath d p = Some (VList xs)"
  by (induction d p rule: nestedSlice.induct) (auto simp: lookupPath.simps split: option.splits any.splits)

lemma setNestedSlice_get: "setNestedSlice d xs p = Inr d' \<Longrightarrow> p \<noteq> [] \<Longrightarrow> lookupPath d' p = Some (VList xs)"
proof (induction d xs p arbitrary: d' rule: setNestedSlice.induct)
  case (3 d xs k k' ks)
  then show ?case by (auto simp: lookupPath.simps rbind_Inr_iff split: option.splits any.splits)
qed (auto simp: lookupPath.simps)

lemma setNestedSlice_frame:
  "setNestedSlice d xs p = Inr d' \<Longrightarrow> p \<parallel> q \<Longrightarrow> lookupPath d p \<noteq> None \<Longrightarrow> lookupPath d' q = lookupPath d q"
proof (induction d xs p arbitrary: d' q rule: setNestedSlice.induct)
  case (2 d xs k)
  then obtain j q' where q: "q = j # q'" "j \<noteq> k" by (cases q) (auto simp: parallel_def)
  then show ?case using "2.prems"(1) by (cases q') (auto simp: lookupPath.simps)
next
  case (3 d xs k k' ks)
  obtain m where m: "map_of d k = Some (VMap m)" "lookupPath m (k' # ks) \<noteq> None"
    using "3.prems"(3) by (auto simp: lookupPath.simps split: option.splits any.splits)
  obtain m' where m': "setNestedSlice m xs (k' # ks) = Inr m'" "d' = AList.update k (VMap m') d"
    using "3.prems"(1) m by (auto simp: rbind_Inr_iff)
  obtain j q' where q: "q = j # q'" using "3.prems"(2) by (cases q) (auto simp: parallel_def)
  show ?case
  proof (cases "j = k")
    case True
    then have par: "(k' # ks) \<parallel> q'" using "3.prems"(2) q by (auto simp: parallel_def)
    then obtain i r where "q' = i # r" by (cases q') (auto simp: parallel_def)
    then show ?thesis using "3.IH"(2) [OF m(1) refl m'(1) par m(2)] by (simp add: q True m m' lookupPath.simps)
  next
    case False
    then show ?thesis by (cases q') (simp_all add: q m'(2) lookupPath.simps)
  qed
qed (auto simp: parallel_def)

lemma setImage_some:
  "setImage container img cs = Some cs' \<Longrightarrow> \<exists>a m b. cs = a @ VMap m # b \<and>
     cs' = a @ VMap (AList.update ''image'' (VStr img) m) # b \<and> map_of m ''name'' = Some (VStr container)"
proof (induction cs arbitrary: cs')
  case (Cons c cs)
  show ?case
  proof (cases "\<exists>m. c = VMap m \<and> map_of m ''name'' = Some (VStr container)")
    case True
    then obtain m where "c = VMap m" "map_of m ''name'' = Some (VStr container)" by blast
    then show ?thesis using Cons.prems by (intro exI [of _ "[]"] exI [of _ m] exI [of _ cs]) simp
  next
    case False
    then obtain ds where ds: "setImage container img cs = Some ds" "cs' = c # ds"
      using Cons.prems by (auto split: any.splits if_splits)
    obtain a m b where "cs = a @ VMap m # b" "ds = a @ VMap (AList.update ''image'' (VStr img) m) # b"
      "map_of m ''name'' = Some (VStr container)" using Cons.IH [OF ds(1)] by blast
    then show ?thesis using ds(2) by (intro exI [of _ "c # a"] exI [of _ m] exI [of _ b]) simp
  qed
qed simp

lemma SetDeploymentImage_split:
  "SetDeploymentImage dep con img objs = Inr objs' \<Longrightarrow>
     \<exists>pre obj post obj' cs cs'. objs = pre @ obj # post \<and> objs' = pre @ obj' # post \<and>
       docKind obj = ''Deployment'' \<and> docName obj = dep \<and> nestedSlice obj containersPath = Some cs \<and>
       setImage con img cs = Some cs' \<and> setNestedSlice obj cs' containersPath = Inr obj'"
proof (induction objs arbitrary: objs')
  case (Cons o1 objs)
  show ?case
  proof (cases "docKind o1 = ''Deployment'' \<and> docName o1 = dep")
    case True
    then obtain cs cs' o2 where "nestedSlice o1 containersPath = Some cs" "setImage con img cs = Some cs'"
      "setNestedSlice o1 cs' containersPath = Inr o2" "objs' = o2 # objs"
      using Cons.prems by (auto simp: rbind_Inr_iff split: option.splits)
    then show ?thesis using True
      by (intro exI [of _ "[]"] exI [of _ o1] exI [of _ objs] exI [of _ o2] exI [of _ cs] exI [of _ cs']) simp
  next
    case False
    then obtain os where os: "SetDeploymentImage dep con img objs = Inr os" "objs' = o1 # os"
      using Cons.prems by (auto simp: rbind_Inr_iff)
    obtain pre obj post obj' cs cs' where "objs = pre @ obj # post" "os = pre @ obj' # post"
       "docKind obj = ''Deployment''" "docName obj = dep" "nestedSlice obj containersPath = Some cs"
       "setImage con img cs = Some cs'" "setNestedSlice obj cs' containersPath = Inr obj'"
      using Cons.IH [OF os(1)] by blast
    then show ?thesis using os(2)
      by (intro exI [of _ "o1 # pre"] exI [of _ obj] exI [of _ post] exI [of _ obj'] exI [of _ cs] exI [of _ cs']) simp
  qed
qed simp

text \<open>
  Rewriting the provider's image changes one field of one document: some Deployment of the
  manifest has the given name, one of its containers has the given name and afterwards the
  given image; the other fields of that container, the other containers, every path of that
  document that does not lead to its containers, and every other document stay as they are.
\<close>

theorem SetDeploymentImage_sets_only:
  assumes "SetDeploymentImage dep con img objs = Inr objs'"
  shows "\<exists>pre obj obj' post a m b. objs = pre @ obj # post \<and> objs' = pre @ obj' # post \<and>
    docKind obj = ''Deployment'' \<and> docName obj = dep \<and> map_of m ''name'' = Some (VStr con) \<and>
    lookupPath obj containersPath = Some (VList (a @ VMap m # b)) \<and>
    lookupPath obj' containersPath = Some (VList (a @ VMap (AList.update ''image'' (VStr img) m) # b)) \<and>
    (\<forall>q. containersPath \<parallel> q \<longrightarrow> lookupPath obj' q = lookupPath obj q)"
proof -
  obtain pre obj post obj' cs cs' where o: "objs = pre @ obj # post" "objs' = pre @ obj' # post"
    "docKind obj = ''Deployment''" "docName obj = dep" "nestedSlice obj containersPath = Some cs"
    "setImage con img cs = Some cs'" "setNestedSlice obj cs' containersPath = Inr obj'"
    using SetDeploymentImage_split [OF assms] by blast
  obtain a m b where c: "cs = a @ VMap m # b" "cs' = a @ VMap (AList.update ''image'' (VStr img) m) # b"
    "map_of m ''name'' = Some (VStr con)" using setImage_some [OF o(6)] by blast
  have ne: "containersPath \<noteq> []" by (simp add: containersPath_def)
  have l: "lookupPath obj containersPath = Some (VList (a @ VMap m # b))"
    using o(5) unfolding nestedSlice_lookup [OF ne] c(1) .
  have l': "lookupPath obj' containersPath = Some (VList (a @ VMap (AList.update ''image'' (VStr img) m) # b))"
    using setNestedSlice_get [OF o(7) ne] unfolding c(2) .
  have f: "\<forall>q. containersPath \<parallel> q \<longrightarrow> lookupPath obj' q = lookupPath obj q"
    using setNestedSlice_frame [OF o(7)] l by (metis option.distinct(1))
  show ?thesis
    by (rule exI [of _ pre], rule exI [of _ obj], rule exI [of _ obj'], rule exI [of _ post],
        rule exI [of _ a], rule exI [of _ m], rule exI [of _ b])
      (intro conjI; fact)
qed


definition exampleDeployment :: doc where
  "exampleDeployment = [(''kind'', VStr ''Deployment''), (''metadata'', VMap [(''name'', VStr ''ctl'')]),
     (''spec'', VMap [(''template'', VMap [(''spec'', VMap [(''containers'',
        VList [VMap [(''name'', VStr ''manager''), (''image'', VStr ''old'')]])])])])]"

theorem SetDeploymentImage_sets_only_witness:
  "\<exists>objs'. SetDeploymentImage ''ctl'' ''manager'' ''new'' [exampleDeployment] = Inr objs' \<and>
    (\<exists>pre obj' post m. objs' = pre @ obj' # post \<and> (\<exists>a b. lookupPath obj' containersPath =
        Some (VList (a @ VMap (AList.update ''image'' (VStr ''new'') m) # b))))"
proof -
  have "\<exists>objs'. SetDeploymentImage ''ctl'' ''manager'' ''new'' [exampleDeployment] = Inr objs'"
    by (simp add: exampleDeployment_def docKind_def docName_def metaField_def strField_def containersPath_def)
  then obtain objs' where s: "SetDeploymentImage ''ctl'' ''manager'' ''new'' [exampleDeployment] = Inr objs'" by blast
  show ?thesis using s SetDeploymentImage_sets_only [OF s] by blast
qed

end
