(* ===== verification/KG_CliRegistry.thy ===== *)
theory KG_CliRegistry
  imports KG_Kube
begin

text \<open>
  The part of the command line every command shares: the options of \<^verbatim>\<open>cli/root.go\<close>, the name hints
  of \<^verbatim>\<open>cli/name.go\<close>, the registry helpers of \<^verbatim>\<open>cli/registry.go\<close>, and the \<^verbatim>\<open>cluster forget\<close> and
  \<^verbatim>\<open>kubeconfig\<close> commands. \<open>cliEnv\<close> holds what a process finds: the working and home directories, the
  environment, its own name, the image it was built with, the YAML coders and the embedded
  provider manifest.
\<close>

record cliEnv =
  ceConfig :: configEnv
  ceGetwd :: "string result"
  ceGetenv :: "string \<Rightarrow> string"
  ceBinary :: string
  ceImage :: string
  ceEncode :: "clientObject \<Rightarrow> string result"
  ceDecode :: "string \<Rightarrow> doc result list"
  ceProviderComponents :: string
  ceSsh :: sshLib

record options =
  opConfigPath :: string
  opStateDir :: string
  opVerbose :: bool

subsection \<open>Names\<close>

definition CanonicalName :: string where "CanonicalName = ''kg''"

definition resolveBinaryName :: "string list \<Rightarrow> string" where
  "resolveBinaryName args =
     (case args of
        [] \<Rightarrow> CanonicalName
      | arg0 # _ \<Rightarrow>
          let name = trimSuffix (pathBase arg0) ''.exe''
          in if name = [] \<or> name = ''.'' \<or> name = ''/'' \<or> hasSuffix name ''.test'' then CanonicalName else name)"

definition invoke :: "cliEnv \<Rightarrow> string \<Rightarrow> string" where
  "invoke E args = (if args = [] then ceBinary E else ceBinary E @ '' '' @ args)"

definition hintColumn :: nat where "hintColumn = 30"

definition pad :: "string \<Rightarrow> string" where
  "pad invocation =
     (if length invocation \<ge> hintColumn then invocation @ '' ''
      else invocation @ replicate (hintColumn - length invocation) CHR '' '')"

definition runFirst :: "cliEnv \<Rightarrow> string \<Rightarrow> string" where
  "runFirst E args = [CHR 0x0A, CHR 0x0A] @ ''Run `'' @ invoke E args @ ''` first''"

subsection \<open>Options\<close>

definition ConfigDir :: string where "ConfigDir = ''.kg''"
definition ConfigFile :: string where "ConfigFile = ''config''"

definition BootstrapKubeconfig :: "options \<Rightarrow> string" where
  "BootstrapKubeconfig o1 = pathJoin [opStateDir o1, ''bootstrap.kubeconfig'']"

definition WorkloadKubeconfig :: "options \<Rightarrow> string \<Rightarrow> string" where
  "WorkloadKubeconfig o1 clusterName = pathJoin [opStateDir o1, clusterName @ ''.kubeconfig'']"

definition LoadOptions :: "cliEnv \<Rightarrow> options \<Rightarrow> genesisConfig result" where
  "LoadOptions E o1 = Load (ceConfig E) (opConfigPath o1)"

definition defaultConfigPath :: "cliEnv \<Rightarrow> string" where
  "defaultConfigPath E =
     (if ceGetenv E ''KG_CONFIG'' \<noteq> [] then ceGetenv E ''KG_CONFIG''
      else if ceGetenv E ''KGENESIS_CONFIG'' \<noteq> [] then ceGetenv E ''KGENESIS_CONFIG''
      else case userHomeDir (ceConfig E) of
             Inl _ \<Rightarrow> pathJoin [ConfigDir, ConfigFile]
           | Inr home \<Rightarrow> pathJoin [home, ConfigDir, ConfigFile])"

definition defaultStateDir :: "cliEnv \<Rightarrow> string result" where
  "defaultStateDir E = (case userHomeDir (ceConfig E) of Inl e \<Rightarrow> Inl e | Inr home \<Rightarrow> Inr (pathJoin [home, ConfigDir]))"

definition stat :: "string \<Rightarrow> unit result cli" where
  "stat path = perform (File (StatFile path)) unitOf"

definition bootstrapClusterExists :: "options \<Rightarrow> bool cli" where
  "bootstrapClusterExists o1 = bind (stat (BootstrapKubeconfig o1)) (\<lambda>r. Ret (case r of Inl _ \<Rightarrow> False | Inr _ \<Rightarrow> True))"

subsection \<open>The registry, as the commands use it\<close>

definition registryGet :: "options \<Rightarrow> string \<Rightarrow> string \<Rightarrow> clusterRecord option result cli" where
  "registryGet o1 namespace name = perform (Registry (opStateDir o1) (RegistryGet namespace name)) recordOf"

definition registryList :: "options \<Rightarrow> clusterRecord list result cli" where
  "registryList o1 = perform (Registry (opStateDir o1) RegistryList) recordsOf"

definition registryPut :: "options \<Rightarrow> clusterRecord \<Rightarrow> unit result cli" where
  "registryPut o1 r = perform (Registry (opStateDir o1) (RegistryPut r)) unitOf"

definition registryForget :: "options \<Rightarrow> string \<Rightarrow> string \<Rightarrow> unit result cli" where
  "registryForget o1 namespace name = perform (Registry (opStateDir o1) (RegistryForget namespace name)) unitOf"

definition workloadPath :: "options \<Rightarrow> string \<Rightarrow> string \<Rightarrow> string" where
  "workloadPath o1 namespace name =
     (if namespace = name then WorkloadKubeconfig o1 name
      else pathJoin [opStateDir o1, ''kubeconfigs'', Key namespace name @ ''.kubeconfig''])"

text \<open>\<^verbatim>\<open>filepath.Abs\<close>.\<close>

definition absPath :: "cliEnv \<Rightarrow> string \<Rightarrow> string result" where
  "absPath E path =
     (if isAbs path then Inr (Clean path)
      else case ceGetwd E of Inl e \<Rightarrow> Inl e | Inr wd \<Rightarrow> Inr (pathJoin [wd, path]))"

abbreviation cfgName :: "genesisConfig \<Rightarrow> string" where "cfgName cfg \<equiv> ccName (gcCluster cfg)"
abbreviation cfgNamespace :: "genesisConfig \<Rightarrow> string" where "cfgNamespace cfg \<equiv> ccNamespace (gcCluster cfg)"

definition recordOfIdentity :: "cliEnv \<Rightarrow> options \<Rightarrow> string \<Rightarrow> string \<Rightarrow> endpoint \<Rightarrow> string \<Rightarrow> clusterRecord result" where
  "recordOfIdentity E o1 namespace name ep mode =
     (case absPath E (workloadPath o1 namespace name) of
        Inl e \<Rightarrow> Inl e
      | Inr workload \<Rightarrow>
          (case absPath E (BootstrapKubeconfig o1) of
             Inl e \<Rightarrow> Inl e
           | Inr bootstrapPath \<Rightarrow>
               let management = (if mode = SelfManaged then workload else if mode = Released then [] else bootstrapPath)
               in Inr \<lparr>rcVersion = 1, rcName = name, rcNamespace = namespace, rcMode = mode,
                       rcEndpoint = joinHostPort (epHost ep) (itoa (sint (epPort ep))),
                       rcManagementKubeconfig = management, rcWorkloadKubeconfig = workload, rcUpdatedAt = 0\<rparr>))"

text \<open>\<^verbatim>\<open>recordFor\<close> reads nothing of the configuration but the cluster's identity and endpoint.\<close>

definition recordFor :: "cliEnv \<Rightarrow> options \<Rightarrow> genesisConfig \<Rightarrow> string \<Rightarrow> clusterRecord result" where
  "recordFor E o1 cfg mode =
     recordOfIdentity E o1 (cfgNamespace cfg) (cfgName cfg) (ccControlPlaneEndpoint (gcCluster cfg)) mode"

definition remember :: "cliEnv \<Rightarrow> options \<Rightarrow> genesisConfig \<Rightarrow> string \<Rightarrow> unit result cli" where
  "remember E o1 cfg mode =
     (case recordFor E o1 cfg mode of
        Inl e \<Rightarrow> Ret (Inl e)
      | Inr r \<Rightarrow> wrapE ''save cluster management record'' (registryPut o1 r))"

definition notGenesisManaged :: "cliEnv \<Rightarrow> clusterRecord \<Rightarrow> goerror" where
  "notGenesisManaged E r = errorf (''cluster '' @ rcNamespace r @ ''/'' @ rcName r @ '' is '' @ rcMode r @
     ''; this operation requires genesis management. Use its workload kubeconfig for direct administration; use `'' @
     invoke E (''cluster forget --cluster '' @ rcNamespace r @ ''/'' @ rcName r) @
     ''` only after retiring the cluster to reuse its identity'')"

definition requireGenesisManaged :: "cliEnv \<Rightarrow> options \<Rightarrow> genesisConfig \<Rightarrow> unit result cli" where
  "requireGenesisManaged E o1 cfg = bindE (registryGet o1 (cfgNamespace cfg) (cfgName cfg)) (\<lambda>r.
     case r of
       None \<Rightarrow> Ret (Inr ())
     | Some r \<Rightarrow> if rcMode r \<noteq> Managed then Ret (Inl (notGenesisManaged E r)) else Ret (Inr ()))"

definition selects :: "string \<Rightarrow> clusterRecord \<Rightarrow> bool" where
  "selects selector r \<longleftrightarrow> selector = rcName r \<or> selector = rcNamespace r @ ''/'' @ rcName r"

fun findRecord :: "string \<Rightarrow> clusterRecord option \<Rightarrow> clusterRecord list \<Rightarrow> clusterRecord option result" where
  "findRecord selector found [] = Inr found"
| "findRecord selector found (r # rs) =
     (if \<not> selects selector r then findRecord selector found rs
      else if found \<noteq> None then Inl (errorf (''cluster '' @ goQuote selector @ '' is ambiguous; use namespace/name''))
      else findRecord selector (Some r) rs)"

definition selectRecord :: "cliEnv \<Rightarrow> options \<Rightarrow> string \<Rightarrow> clusterRecord result cli" where
  "selectRecord E o1 selector =
     (if selector = [] then
        (case LoadOptions E o1 of
           Inl e \<Rightarrow> Ret (Inl e)
         | Inr cfg \<Rightarrow> bindE (registryGet o1 (cfgNamespace cfg) (cfgName cfg)) (\<lambda>r.
             case r of Some r \<Rightarrow> Ret (Inr r) | None \<Rightarrow> Ret (recordFor E o1 cfg Managed)))
      else bindE (registryList o1) (\<lambda>records.
        Ret (case findRecord selector None records of
               Inl e \<Rightarrow> Inl e
             | Inr None \<Rightarrow> Inl (errorf (''cluster '' @ goQuote selector @ '' is not registered; run `'' @ invoke E ''clusters'' @
                 ''` to see known clusters''))
             | Inr (Some r) \<Rightarrow> Inr r)))"

definition clusterForget :: "cliEnv \<Rightarrow> options \<Rightarrow> string \<Rightarrow> bool \<Rightarrow> unit result cli" where
  "clusterForget E o1 selector yes = bindE (selectRecord E o1 selector) (\<lambda>r.
     if \<not> yes then Ret (Inr ()) else registryForget o1 (rcNamespace r) (rcName r))"

definition managementPath :: "options \<Rightarrow> genesisConfig \<Rightarrow> string result cli" where
  "managementPath o1 cfg = bindE (registryGet o1 (cfgNamespace cfg) (cfgName cfg)) (\<lambda>r.
     case r of
       None \<Rightarrow> Ret (Inr (BootstrapKubeconfig o1))
     | Some r \<Rightarrow>
         if rcMode r = Released
         then Ret (Inl (errorf (''cluster '' @ rcNamespace r @ ''/'' @ rcName r @ '' is released and has no CAPI host inventory'')))
         else Ret (Inr (rcManagementKubeconfig r)))"

subsection \<open>Kubeconfigs\<close>

definition writeKubeconfig :: "string \<Rightarrow> string \<Rightarrow> unit result cli" where
  "writeKubeconfig path kubeconfig =
     bindE (perform (File (MkdirAll (pathDir path))) unitOf) (\<lambda>_.
     wrapE (''write '' @ path) (perform (File (WriteFileAt path kubeconfig)) unitOf))"

definition fetchKubeconfig :: "cliEnv \<Rightarrow> options \<Rightarrow> genesisConfig \<Rightarrow> string \<Rightarrow> string \<Rightarrow> string result cli" where
  "fetchKubeconfig E o1 cfg management path = bind (stat management) (\<lambda>m.
     case m of
       Inl _ \<Rightarrow> bind (stat path) (\<lambda>p. Ret (case p of
           Inr _ \<Rightarrow> Inr path
         | Inl _ \<Rightarrow> Inl (errorf (''no management kubeconfig in '' @ opStateDir o1 @ ''; run `'' @ invoke E ''init'' @ ''` first''))))
     | Inr _ \<Rightarrow> bindE (GetKubeconfig management (cfgName cfg) (cfgNamespace cfg)) (\<lambda>kubeconfig.
         bindE (writeKubeconfig path kubeconfig) (\<lambda>_. Ret (Inr path))))"

definition requireWorkloadKubeconfig :: "cliEnv \<Rightarrow> options \<Rightarrow> genesisConfig \<Rightarrow> string result cli" where
  "requireWorkloadKubeconfig E o1 cfg = bindE (registryGet o1 (cfgNamespace cfg) (cfgName cfg)) (\<lambda>r.
     case r of
       None \<Rightarrow> fetchKubeconfig E o1 cfg (BootstrapKubeconfig o1) (workloadPath o1 (cfgNamespace cfg) (cfgName cfg))
     | Some r \<Rightarrow>
         if rcMode r = Released
         then bindE (wrapE ''released cluster kubeconfig'' (stat (rcWorkloadKubeconfig r))) (\<lambda>_. Ret (Inr (rcWorkloadKubeconfig r)))
         else fetchKubeconfig E o1 cfg (rcManagementKubeconfig r) (rcWorkloadKubeconfig r))"

definition clusterKubeconfig :: "clusterRecord \<Rightarrow> string result cli" where
  "clusterKubeconfig r =
     (if rcMode r = Released
      then wrapE ''read released cluster kubeconfig'' (perform (File (ReadFileAt (rcWorkloadKubeconfig r))) textOf)
      else GetKubeconfig (rcManagementKubeconfig r) (rcName r) (rcNamespace r))"

definition kubeconfigCommand :: "cliEnv \<Rightarrow> options \<Rightarrow> string \<Rightarrow> string \<Rightarrow> bool \<Rightarrow> unit result cli" where
  "kubeconfigCommand E o1 selector output toStdout = bindE (selectRecord E o1 selector) (\<lambda>r.
     bindE (clusterKubeconfig r) (\<lambda>kubeconfig.
     if toStdout then bind (perform (WriteOut kubeconfig) unitOf) (\<lambda>_. Ret (Inr ()))
     else writeKubeconfig (if output = [] then rcWorkloadKubeconfig r else output) kubeconfig))"


subsection \<open>Where the kubeconfigs are\<close>

lemma elements_plain: "plainName f \<Longrightarrow> pathElements f = [f]"
  by (auto simp: pathElements_def splitOn_free plainName_def cleanStep_def)

lemma elements_Nil [simp]: "pathElements [] = []"
  by (simp add: pathElements_def cleanStep_def)

lemma elements_join2: "plainName f \<Longrightarrow> pathElements (pathJoin [dir, f]) = f # pathElements dir"
  by (cases "dir = []")
    (auto simp: pathJoin_def elements_Clean elements_plain Clean_snoc(1) [simplified] plainName_def)

lemma elements_join3:
  assumes "plainName d" "plainName f"
  shows "pathElements (pathJoin [dir, d, f]) = f # d # pathElements dir"
proof (cases "dir = []")
  case True
  then have "pathJoin [dir, d, f] = pathJoin [d, f]" by (simp add: pathJoin_def)
  then show ?thesis using elements_join2 [OF assms(2), of d] elements_plain [OF assms(1)] True by simp
next
  case False
  have "pathJoin [dir, d, f] = Clean ((dir @ ''/'' @ d) @ ''/'' @ f)" using False by (simp add: pathJoin_def)
  then have "pathElements (pathJoin [dir, d, f]) = f # pathElements (dir @ ''/'' @ d)"
    using Clean_snoc(1) [OF _ assms(2), of "dir @ ''/'' @ d"] by (simp only: elements_Clean) simp
  then show ?thesis using Clean_snoc(1) [OF False assms(1)] by simp
qed

lemma plainName_kubeconfig: "CHR ''/'' \<notin> set n \<Longrightarrow> plainName (n @ ''.kubeconfig'')"
  by (auto simp: plainName_def append_eq_Cons_conv)

lemma plainName_key: "plainName (Key ns n @ ''.kubeconfig'')"
  by (rule plainName_kubeconfig) (auto simp: Key_def dest: sha256Hex_plain)

lemma workloadPath_elements:
  assumes "CHR ''/'' \<notin> set n"
  shows "pathElements (workloadPath o1 ns n) =
    (if ns = n then (n @ ''.kubeconfig'') # pathElements (opStateDir o1)
     else (Key ns n @ ''.kubeconfig'') # ''kubeconfigs'' # pathElements (opStateDir o1))"
proof -
  have "plainName ''kubeconfigs''" by (simp add: plainName_def)
  then show ?thesis
    using elements_join2 [OF plainName_kubeconfig [OF assms]] elements_join3 [OF _ plainName_key]
    by (simp add: workloadPath_def WorkloadKubeconfig_def)
qed

lemma bootstrap_elements:
  "pathElements (BootstrapKubeconfig o1) = (''bootstrap'' @ ''.kubeconfig'') # pathElements (opStateDir o1)"
  unfolding BootstrapKubeconfig_def by (subst elements_join2) (simp_all add: plainName_def)

lemma cons_self: "a # b # xs \<noteq> c # xs" by simp

text \<open>
  C39. No two clusters share a kubeconfig file. The workload kubeconfigs of two different
  identities are different files, as long as SHA-256 tells apart the identities whose
  namespace is not their name.
\<close>

theorem workloadPath_separates:
  assumes "CHR ''/'' \<notin> set n" "CHR ''/'' \<notin> set n'" "(ns, n) \<noteq> (ns', n')"
    and "ns \<noteq> n \<Longrightarrow> ns' \<noteq> n' \<Longrightarrow> Key ns n \<noteq> Key ns' n'"
  shows "workloadPath o1 ns n \<noteq> workloadPath o1 ns' n'"
proof
  assume "workloadPath o1 ns n = workloadPath o1 ns' n'"
  then have "pathElements (workloadPath o1 ns n) = pathElements (workloadPath o1 ns' n')" by (rule arg_cong)
  then show False
    unfolding workloadPath_elements [OF assms(1)] workloadPath_elements [OF assms(2)]
    using assms(3,4) by (auto split: if_splits)
qed

text \<open>
  The genesis node's own kubeconfig is the exception: it is the workload kubeconfig of the
  cluster called \<^verbatim>\<open>bootstrap\<close> in the namespace of that name, and of no other. Fetching that
  cluster's kubeconfig overwrites the only way to reach the genesis node.
\<close>

theorem workloadPath_bootstrap_clash:
  assumes "CHR ''/'' \<notin> set n"
  shows "workloadPath o1 ns n = BootstrapKubeconfig o1 \<longleftrightarrow> ns = ''bootstrap'' \<and> n = ''bootstrap''"
proof
  assume "workloadPath o1 ns n = BootstrapKubeconfig o1"
  then have "pathElements (workloadPath o1 ns n) = pathElements (BootstrapKubeconfig o1)" by (rule arg_cong)
  then have "ns = n" "n @ ''.kubeconfig'' = ''bootstrap'' @ ''.kubeconfig''"
    unfolding workloadPath_elements [OF assms] bootstrap_elements by (auto split: if_splits)
  then show "ns = ''bootstrap'' \<and> n = ''bootstrap''" by (simp only: append_same_eq)
qed (simp add: workloadPath_def WorkloadKubeconfig_def BootstrapKubeconfig_def)

definition exampleOptions :: options where
  "exampleOptions = \<lparr>opConfigPath = ''/etc/kg/kg.yaml'', opStateDir = ''/root/.kg'', opVerbose = False\<rparr>"

theorem workloadPath_separates_witness:
  "workloadPath exampleOptions ''lab'' ''lab'' \<noteq> workloadPath exampleOptions ''edge'' ''lab''"
  by (rule workloadPath_separates) simp_all

theorem workloadPath_bootstrap_clash_witness:
  "workloadPath exampleOptions ''bootstrap'' ''bootstrap'' = BootstrapKubeconfig exampleOptions"
  using workloadPath_bootstrap_clash [of "''bootstrap''" exampleOptions "''bootstrap''"] by simp

subsection \<open>Which record a command works on\<close>

lemma findRecord_spec:
  "findRecord sel found rs =
     (case filter (selects sel) rs of
        [] \<Rightarrow> Inr found
      | [r] \<Rightarrow> if found = None then Inr (Some r) else Inl (errorf (''cluster '' @ goQuote sel @ '' is ambiguous; use namespace/name''))
      | _ \<Rightarrow> Inl (errorf (''cluster '' @ goQuote sel @ '' is ambiguous; use namespace/name'')))"
  by (induction rs arbitrary: found) (auto split: list.splits)

lemma replay_perform [simp]: "replay (perform q sel) evs = Some b \<longleftrightarrow> (\<exists>r. evs = [(q, r)] \<and> sel r = Some b)"
  by (auto simp: perform_def replay_Call split: option.splits)

text \<open>
  A selector picks a record or nothing: \<^verbatim>\<open>selectRecord\<close> with \<^verbatim>\<open>--cluster\<close> makes one call, the list of
  the registry, and returns a record exactly when it is the only one in the list that the
  selector names, by its name or by namespace and name.
\<close>

theorem selectRecord_exact:
  assumes "selector \<noteq> []"
  shows "replay (selectRecord E o1 selector) evs = Some (Inr r) \<longleftrightarrow>
    (\<exists>records. evs = [(Registry (opStateDir o1) RegistryList, CRecords (Inr records))] \<and> filter (selects selector) records = [r])"
proof -
  have pick: "(case findRecord selector None rs of Inl e \<Rightarrow> Inl e | Inr None \<Rightarrow> Inl e0 | Inr (Some x) \<Rightarrow> Inr x) = Inr r \<longleftrightarrow>
      filter (selects selector) rs = [r]" for rs and e0 :: goerror
    by (auto simp: findRecord_spec split: list.splits)
  show ?thesis
    using assms by (auto simp: selectRecord_def registryList_def replay_bindE pick)
qed

lemma ValidateRecord_stamp: "rcVersion r = 1 \<Longrightarrow> ValidateRecord (stamp now r) = ValidateRecord r"
  by (simp add: ValidateRecord_def stamp_def)

lemma isAbs_absPath:
  assumes "absPath E p = Inr q" "\<And>wd. ceGetwd E = Inr wd \<Longrightarrow> isAbs wd"
  shows "isAbs q"
  using assms by (auto simp: absPath_def isAbs_pathJoin split: if_splits sum.splits)

text \<open>
  What the commands record passes the registry's own validation: the record of a cluster with
  a name and a namespace, in each of the three modes, is one \<^verbatim>\<open>Put\<close> does not refuse.
\<close>

theorem recordFor_valid:
  assumes "recordFor E o1 cfg mode = Inr r" "cfgName cfg \<noteq> []" "cfgNamespace cfg \<noteq> []"
    and "mode \<in> {Managed, SelfManaged, Released}" "\<And>wd. ceGetwd E = Inr wd \<Longrightarrow> isAbs wd"
  shows "ValidateRecord (stamp now r) = None \<and> recordKey r = (cfgNamespace cfg, cfgName cfg) \<and> rcMode r = mode"
proof -
  obtain w b where w: "absPath E (workloadPath o1 (cfgNamespace cfg) (cfgName cfg)) = Inr w"
    "absPath E (BootstrapKubeconfig o1) = Inr b" "rcWorkloadKubeconfig r = w" "rcVersion r = 1"
    "rcName r = cfgName cfg" "rcNamespace r = cfgNamespace cfg" "rcMode r = mode"
    "rcManagementKubeconfig r = (if mode = SelfManaged then w else if mode = Released then [] else b)"
    using assms(1) by (auto simp: recordFor_def recordOfIdentity_def Let_def split: sum.splits)
  have "isAbs w" "isAbs b" using isAbs_absPath w(1,2) assms(5) by blast+
  moreover have "Managed \<noteq> SelfManaged" "Managed \<noteq> Released" "SelfManaged \<noteq> Released" by (simp_all add: mode_defs)
  ultimately have "ValidateRecord r = None" using assms(2-4) w by (auto simp: ValidateRecord_def)
  then show ?thesis using ValidateRecord_stamp [OF w(4)] w by (simp add: recordKey_def)
qed

definition exampleCliEnv :: "configEnv \<Rightarrow> cliEnv" where
  "exampleCliEnv C = \<lparr>ceConfig = C, ceGetwd = Inr ''/root'', ceGetenv = (\<lambda>_. []), ceBinary = ''kg'', ceImage = ''ghcr.io/ashon/kg:dev'',
     ceEncode = (\<lambda>_. Inr []), ceDecode = (\<lambda>_. []), ceProviderComponents = [], ceSsh = exampleSshLib\<rparr>"

abbreviation exampleCE :: cliEnv where "exampleCE \<equiv> exampleCliEnv (exampleEnv exampleTwo)"

theorem recordFor_valid_witness:
  "\<exists>r. recordFor exampleCE exampleOptions exampleLoaded Released = Inr r \<and> ValidateRecord (stamp 5 r) = None"
proof -
  have n: "cfgName exampleLoaded \<noteq> []" "cfgNamespace exampleLoaded \<noteq> []" by code_simp+
  have a: "isAbs (workloadPath exampleOptions (cfgNamespace exampleLoaded) (cfgName exampleLoaded))"
    "isAbs (BootstrapKubeconfig exampleOptions)" by code_simp+
  obtain r where r: "recordFor exampleCE exampleOptions exampleLoaded Released = Inr r"
    using a by (simp add: recordFor_def recordOfIdentity_def absPath_def Let_def)
  have "isAbs wd" if "ceGetwd exampleCE = Inr wd" for wd using that by (auto simp: exampleCliEnv_def isAbs_def)
  then have "ValidateRecord (stamp 5 r) = None" using recordFor_valid [OF r n] by blast
  then show ?thesis using r by blast
qed

definition exampleRecord :: "string \<Rightarrow> string \<Rightarrow> string \<Rightarrow> clusterRecord" where
  "exampleRecord ns n mode = \<lparr>rcVersion = 1, rcName = n, rcNamespace = ns, rcMode = mode, rcEndpoint = ''10.0.0.9:6443'',
     rcManagementKubeconfig = (if mode = Released then [] else ''/root/.kg/bootstrap.kubeconfig''),
     rcWorkloadKubeconfig = ''/root/.kg/x.kubeconfig'', rcUpdatedAt = 0\<rparr>"

theorem selectRecord_exact_witness:
  "replay (selectRecord exampleCE exampleOptions ''lab'') [(Registry ''/root/.kg'' RegistryList,
     CRecords (Inr [exampleRecord ''lab'' ''lab'' Managed, exampleRecord ''edge'' ''edge'' Released]))] =
   Some (Inr (exampleRecord ''lab'' ''lab'' Managed))"
  by (subst selectRecord_exact) (simp_all add: exampleOptions_def selects_def exampleRecord_def)

end
