(* ===== verification/KG_CliCluster.thy ===== *)
theory KG_CliCluster
  imports KG_CliRegistry KG_Connection
begin

text \<open>
  \<^verbatim>\<open>cli/cluster.go\<close>, \<^verbatim>\<open>cli/cni.go\<close>, \<^verbatim>\<open>cli/clusters.go\<close> and \<^verbatim>\<open>cli/registered_status.go\<close>: creating,
  watching, listing and deleting clusters. The polling loops carry what is left of the context's
  deadline; an interval that does not fit into it ends the loop, because the context is done
  before the timer. Durations are nanoseconds.
\<close>

subsection \<open>Summary\<close>

definition MachineControlPlaneLabel :: string where "MachineControlPlaneLabel = ''cluster.x-k8s.io/control-plane''"
definition MachinePhaseRunning :: string where "MachinePhaseRunning = ''Running''"

definition totalWorkers :: "genesisConfig \<Rightarrow> int32" where
  "totalWorkers cfg = foldl (\<lambda>n w. n + wpReplicas w) 0 (gcWorkers cfg)"

record machineFailure =
  mfMachine :: string
  mfHost :: string
  mfMessage :: string

record summary =
  suCluster :: liveCluster
  suControlPlaneReady :: int32
  suControlPlaneDesired :: int32
  suMachines :: "liveMachine list"
  suMachinesRunning :: int32
  suMachinesDesired :: int32
  suHosts :: "host list"
  suFailures :: "machineFailure list"

definition ready :: "summary \<Rightarrow> bool" where
  "ready s \<longleftrightarrow> 0 < sint (suControlPlaneDesired s) \<and> suControlPlaneReady s = suControlPlaneDesired s \<and>
     0 < sint (suMachinesDesired s) \<and> suMachinesRunning s = suMachinesDesired s"

definition isRunning :: "liveMachine \<Rightarrow> bool" where
  "isRunning m \<longleftrightarrow> lmPhase m = MachinePhaseRunning"

definition isControlPlane :: "liveMachine \<Rightarrow> bool" where
  "isControlPlane m \<longleftrightarrow> map_of (mLabels (lmMeta m)) MachineControlPlaneLabel \<noteq> None"

text \<open>The counters are \<^verbatim>\<open>int32\<close>.\<close>

definition countMachines :: "(liveMachine \<Rightarrow> bool) \<Rightarrow> liveMachine list \<Rightarrow> int32" where
  "countMachines P ms = of_nat (length (filter P ms))"

definition bootstrapFailure :: "hostMachine \<Rightarrow> machineFailure option" where
  "bootstrapFailure hm =
     (case findCondition (hmtConditions (hmStatus hm)) HostMachineProvisioned of
        None \<Rightarrow> None
      | Some condition \<Rightarrow>
          if cdStatus condition \<noteq> ConditionFalse \<or> cdReason condition \<noteq> ReasonBootstrapFailed then None
          else Some \<lparr>mfMachine = mName (hmMeta hm),
            mfHost = (case hmtHostRef (hmStatus hm) of None \<Rightarrow> ''-'' | Some h \<Rightarrow> h), mfMessage = cdMessage condition\<rparr>)"

definition summaryOf :: "genesisConfig \<Rightarrow> liveCluster \<Rightarrow> liveMachine list \<Rightarrow> host list \<Rightarrow> hostMachine list \<Rightarrow> summary" where
  "summaryOf cfg cl ms hs hms = \<lparr>suCluster = cl,
     suControlPlaneReady = countMachines (\<lambda>m. isControlPlane m \<and> isRunning m) ms,
     suControlPlaneDesired = ccControlPlaneReplicas (gcCluster cfg), suMachines = ms,
     suMachinesRunning = countMachines isRunning ms,
     suMachinesDesired = ccControlPlaneReplicas (gcCluster cfg) + totalWorkers cfg, suHosts = hs,
     suFailures = List.map_filter bootstrapFailure hms\<rparr>"

definition clusterSummary :: "cliEnv \<Rightarrow> string \<Rightarrow> genesisConfig \<Rightarrow> summary result cli" where
  "clusterSummary E c cfg =
     bind (perform (Kube c (GetLiveCluster (cfgNamespace cfg, cfgName cfg))) liveOf) (\<lambda>r. case r of
       Inl e \<Rightarrow> if ekind e = ErrNotFound
         then Ret (Inl (errorf (''cluster '' @ keyString (cfgNamespace cfg, cfgName cfg) @ '' does not exist yet; run `'' @
           invoke E ''cluster create'' @ ''`'')))
         else Ret (Inl e)
     | Inr cl \<Rightarrow>
         bindE (perform (Kube c (ListLiveMachines (cfgNamespace cfg) (cfgName cfg))) machinesOf) (\<lambda>ms.
         bindE (perform (Kube c (ListHostsIn (Some (cfgNamespace cfg)))) hostsOf) (\<lambda>hs.
         bindE (perform (Kube c (ListHostMachinesIn (cfgNamespace cfg))) hostMachinesOf) (\<lambda>hms.
         Ret (Inr (summaryOf cfg cl ms hs hms))))))"

text \<open>The rows \<^verbatim>\<open>printStatus\<close> prints: machine, role, phase, host, address.\<close>

fun hostForMachine :: "host list \<Rightarrow> string \<Rightarrow> string \<times> string" where
  "hostForMachine [] machineName = (''-'', ''-'')"
| "hostForMachine (h # hs) machineName =
     (case stClaimRef (hStatus h) of
        None \<Rightarrow> hostForMachine hs machineName
      | Some ref \<Rightarrow> if orName ref = machineName then (hName h, hsAddress (hSpec h)) else hostForMachine hs machineName)"

definition statusRows :: "summary \<Rightarrow> (string \<times> string \<times> string \<times> string \<times> string) list" where
  "statusRows s = map (\<lambda>m. (mName (lmMeta m), if isControlPlane m then ''control-plane'' else ''worker'', lmPhase m,
     hostForMachine (suHosts s) (mName (lmMeta m)))) (suMachines s)"

subsection \<open>Waiting for a cluster\<close>

definition seconds :: "int \<Rightarrow> int" where "seconds n = n * 1000000000"

definition failureText :: "machineFailure \<Rightarrow> string" where
  "failureText f = [CHR 0x0A] @ ''  '' @ mfMachine f @ '' on host '' @ mfHost f @ [CHR 0x0A] @
     concat (map (\<lambda>line. ''    '' @ line @ [CHR 0x0A]) (splitOn CHR 0x0A (trimSpace (mfMessage f))))"

definition newBootstrapFailedError :: "machineFailure list \<Rightarrow> goerror" where
  "newBootstrapFailedError failures = errorf (itoa (int (length failures)) @
     '' machine(s) failed to bootstrap and will not retry:'' @ [CHR 0x0A] @ concat (map failureText failures) @
     [CHR 0x0A] @ ''The full log is at '' @ LogPath @
     '' on each host. Delete the cluster to reset the hosts and start again.'' @ [CHR 0x0A])"

definition notReadyInTime :: "cliEnv \<Rightarrow> genesisConfig \<Rightarrow> goerror" where
  "notReadyInTime E cfg = errorf (''cluster '' @ cfgName cfg @ '' was not ready in time; run `'' @
     invoke E ''cluster status'' @ ''` to see where it stopped'')"

definition pollInterval :: int where "pollInterval = seconds 15"

function waitForCluster :: "cliEnv \<Rightarrow> string \<Rightarrow> genesisConfig \<Rightarrow> int \<Rightarrow> unit result cli" where
  "waitForCluster E c cfg remaining = bindE (clusterSummary E c cfg) (\<lambda>s.
     if ready s then Ret (Inr ())
     else if suFailures s \<noteq> [] then Ret (Inl (newBootstrapFailedError (suFailures s)))
     else bind (perform (Wait pollInterval) elapsedOf) (\<lambda>elapsed.
       if \<not> elapsed \<or> remaining < pollInterval
       then Ret (Inl (notReadyInTime E cfg))
       else waitForCluster E c cfg (remaining - pollInterval)))"
  by pat_completeness auto
termination
  by (relation "measure (\<lambda>(E, c, cfg, remaining). nat remaining)") (auto simp: pollInterval_def seconds_def)

declare waitForCluster.simps [simp del]

subsection \<open>CNI\<close>

definition readManifest :: "string \<Rightarrow> string result cli" where
  "readManifest source =
     (if \<not> hasPrefix source ''http://'' \<and> \<not> hasPrefix source ''https://''
      then wrapE (''read '' @ source) (perform (File (ReadFileAt source)) textOf)
      else bindE (perform (HttpRequest source) unitOf) (\<lambda>_.
        bindE (wrapE (''fetch '' @ source) (perform (HttpGet source) httpOf)) (\<lambda>(code, status, body).
        if code \<noteq> 200 then Ret (Inl (errorf (''fetch '' @ source @ '': '' @ status)))
        else Ret (case body of Inl e \<Rightarrow> Inl (wrapf (''read '' @ source) e) | Inr d \<Rightarrow> Inr d))))"

definition installCNI :: "cliEnv \<Rightarrow> string \<Rightarrow> genesisConfig \<Rightarrow> unit result cli" where
  "installCNI E c cfg = eachE (\<lambda>source. bindE (readManifest source) (\<lambda>data.
     wrapE (''apply '' @ source) (ApplyManifest (ceDecode E) c data))) (cniManifests (ccCNI (gcCluster cfg)))"

definition cniInstall :: "cliEnv \<Rightarrow> options \<Rightarrow> unit result cli" where
  "cniInstall E o1 =
     (case LoadOptions E o1 of
        Inl e \<Rightarrow> Ret (Inl e)
      | Inr cfg \<Rightarrow>
          if \<not> HasCNI (ccCNI (gcCluster cfg)) then Ret (Inr ())
          else bindE (requireWorkloadKubeconfig E o1 cfg) (\<lambda>kubeconfig.
            bindE (NewClient kubeconfig) (\<lambda>c. installCNI E c cfg)))"

subsection \<open>Create\<close>

definition createApply :: "cliEnv \<Rightarrow> options \<Rightarrow> genesisConfig \<Rightarrow> objects \<Rightarrow> string result cli" where
  "createApply E o1 cfg objs =
     bindE (requireGenesisManaged E o1 cfg) (\<lambda>_.
     bindE (hintE (runFirst E ''init'') (NewClient (BootstrapKubeconfig o1))) (\<lambda>c.
     bindE (Apply c (AllObjects objs)) (\<lambda>_.
     bindE (remember E o1 cfg Managed) (\<lambda>_. Ret (Inr c)))))"

definition createWait :: "cliEnv \<Rightarrow> options \<Rightarrow> genesisConfig \<Rightarrow> string \<Rightarrow> int \<Rightarrow> unit result cli" where
  "createWait E o1 cfg c waitTimeout =
     bindE (waitForCluster E c cfg waitTimeout) (\<lambda>_.
     if \<not> HasCNI (ccCNI (gcCluster cfg)) then Ret (Inr ())
     else bindE (requireWorkloadKubeconfig E o1 cfg) (\<lambda>workloadKubeconfig.
       bindE (NewClient workloadKubeconfig) (\<lambda>workloadClient. installCNI E workloadClient cfg)))"

definition clusterCreate :: "cliEnv \<Rightarrow> options \<Rightarrow> bool \<Rightarrow> bool \<Rightarrow> int \<Rightarrow> unit result cli" where
  "clusterCreate E o1 dryRun wait waitTimeout =
     (case LoadOptions E o1 of
        Inl e \<Rightarrow> Ret (Inl e)
      | Inr cfg \<Rightarrow>
          (case RenderConfig (ceConfig E) cfg of
             Inl e \<Rightarrow> Ret (Inl e)
           | Inr objs \<Rightarrow>
               if dryRun then
                 (case ToYAML (ceEncode E) (AllObjects objs) of
                    Inl e \<Rightarrow> Ret (Inl e)
                  | Inr manifest \<Rightarrow> perform (WriteOut manifest) unitOf)
               else bindE (createApply E o1 cfg objs) (\<lambda>c.
                 if \<not> wait then Ret (Inr ()) else createWait E o1 cfg c waitTimeout)))"

subsection \<open>Delete\<close>

definition unverifiedHosts :: "host list \<Rightarrow> host list" where
  "unverifiedHosts hosts = filter (\<lambda>h. case findCondition (stConditions (hStatus h)) HostReset of
     None \<Rightarrow> False | Some condition \<Rightarrow> cdStatus condition \<noteq> ConditionTrue) hosts"

text \<open>What \<^verbatim>\<open>reportReleasedHosts\<close> reports: how many hosts are back in the pool, and which were released without a reset.\<close>

definition reportReleasedHosts :: "string \<Rightarrow> string \<Rightarrow> (nat \<times> host list) result cli" where
  "reportReleasedHosts c namespace =
     bindE (wrapE (''read the host pool in '' @ namespace) (perform (Kube c (ListHostsIn (Some namespace))) hostsOf)) (\<lambda>hosts.
     Ret (Inr (length hosts - length (unverifiedHosts hosts), unverifiedHosts hosts)))"

definition stillDeleting :: "objectKey \<Rightarrow> goerror" where
  "stillDeleting key = errorf (''cluster '' @ keyString key @ '' was still being deleted when the timeout expired'')"

definition goneInterval :: int where "goneInterval = seconds 10"

function waitForClusterGone :: "string \<Rightarrow> objectKey \<Rightarrow> int \<Rightarrow> unit result cli" where
  "waitForClusterGone c key remaining =
     bind (perform (Kube c (GetLiveCluster key)) liveOf) (\<lambda>r. case r of
       Inl e \<Rightarrow> if ekind e = ErrNotFound then bindE (reportReleasedHosts c (fst key)) (\<lambda>_. Ret (Inr ())) else Ret (Inl e)
     | Inr _ \<Rightarrow> bind (perform (Wait goneInterval) elapsedOf) (\<lambda>elapsed.
         if \<not> elapsed \<or> remaining < goneInterval
         then Ret (Inl (stillDeleting key))
         else waitForClusterGone c key (remaining - goneInterval)))"
  by pat_completeness auto
termination
  by (relation "measure (\<lambda>(c, key, remaining). nat remaining)") (auto simp: goneInterval_def seconds_def)

declare waitForClusterGone.simps [simp del]

definition deleteFrom :: "options \<Rightarrow> genesisConfig \<Rightarrow> string \<Rightarrow> int \<Rightarrow> unit result cli" where
  "deleteFrom o1 cfg c waitTimeout =
     (let key = (cfgNamespace cfg, cfgName cfg)
      in bind (perform (Kube c (GetLiveCluster key)) liveOf) (\<lambda>r. case r of
           Inl e \<Rightarrow> if ekind e = ErrNotFound then registryForget o1 (cfgNamespace cfg) (cfgName cfg) else Ret (Inl e)
         | Inr cl \<Rightarrow>
             bindE (perform (Kube c (DeleteLiveCluster cl)) unitOf) (\<lambda>_.
             bindE (waitForClusterGone c key waitTimeout) (\<lambda>_.
             registryForget o1 (cfgNamespace cfg) (cfgName cfg)))))"

definition clusterDelete :: "cliEnv \<Rightarrow> options \<Rightarrow> bool \<Rightarrow> int \<Rightarrow> unit result cli" where
  "clusterDelete E o1 yes waitTimeout =
     (case LoadOptions E o1 of
        Inl e \<Rightarrow> Ret (Inl e)
      | Inr cfg \<Rightarrow>
          if \<not> yes then Ret (Inr ())
          else bindE (requireGenesisManaged E o1 cfg) (\<lambda>_.
            bindE (NewClient (BootstrapKubeconfig o1)) (\<lambda>c. deleteFrom o1 cfg c waitTimeout)))"


subsection \<open>List\<close>

record clusterRow =
  cwRecord :: clusterRecord
  cwPhase :: string
  cwHosts :: string

type_synonym rows = "(string \<times> clusterRow) list"

definition registeredRows :: "clusterRecord list \<Rightarrow> rows" where
  "registeredRows records = fold (\<lambda>r rows. AList.update (Key (rcNamespace r) (rcName r))
     \<lparr>cwRecord = r, cwPhase = ''-'', cwHosts = ''-''\<rparr> rows) records []"

definition livePhase :: "liveCluster \<Rightarrow> string" where
  "livePhase cl = (if lcPaused cl = Some True then ''Paused'' else if lcPhase cl = [] then ''-'' else lcPhase cl)"

definition hostCounts :: "host list \<Rightarrow> string \<Rightarrow> string" where
  "hostCounts hosts namespace =
     (let own = filter (\<lambda>h. mNamespace (hMeta h) = namespace) hosts
      in itoa (int (length (filter (\<lambda>h. stClaimRef (hStatus h) \<noteq> None) own))) @ ''/'' @ itoa (int (length own)))"

definition refreshRow :: "string \<Rightarrow> liveCluster \<Rightarrow> host list \<Rightarrow> clusterRecord \<Rightarrow> rows \<Rightarrow> rows" where
  "refreshRow key cl hosts r rows =
     (if rcMode r = SelfManaged then rows
      else AList.update key \<lparr>cwRecord = r, cwPhase = livePhase cl, cwHosts = hostCounts hosts (mNamespace (lcMeta cl))\<rparr> rows)"

text \<open>
  The rows are a Go map the caller keeps when an error ends the discovery: the result is the rows
  and the error, if any.
\<close>

fun discoverEach :: "cliEnv \<Rightarrow> options \<Rightarrow> host list \<Rightarrow> liveCluster list \<Rightarrow> rows \<Rightarrow> (rows \<times> goerror option) cli" where
  "discoverEach E o1 hosts [] rows = Ret (rows, None)"
| "discoverEach E o1 hosts (cl # cls) rows =
     (let ns = mNamespace (lcMeta cl); name = mName (lcMeta cl); key = Key ns name
      in case map_of rows key of
           Some row \<Rightarrow> discoverEach E o1 hosts cls (refreshRow key cl hosts (cwRecord row) rows)
         | None \<Rightarrow>
             (case recordOfIdentity E o1 ns name (lcEndpoint cl) Managed of
                Inl e \<Rightarrow> Ret (rows, Some e)
              | Inr r \<Rightarrow> bind (registryPut o1 r) (\<lambda>p. case p of
                    Inl e \<Rightarrow> Ret (rows, Some e)
                  | Inr _ \<Rightarrow> discoverEach E o1 hosts cls (refreshRow key cl hosts r rows))))"

definition discoverClusters :: "cliEnv \<Rightarrow> options \<Rightarrow> string \<Rightarrow> rows \<Rightarrow> (rows \<times> goerror option) cli" where
  "discoverClusters E o1 c rows =
     bind (perform (Kube c ListLiveClusters) livesOf) (\<lambda>r. case r of
       Inl e \<Rightarrow> Ret (rows, Some (wrapf ''list genesis clusters'' e))
     | Inr cls \<Rightarrow> bind (perform (Kube c (ListHostsIn None)) hostsOf) (\<lambda>r. case r of
         Inl e \<Rightarrow> Ret (rows, Some (wrapf ''list genesis hosts'' e))
       | Inr hosts \<Rightarrow> discoverEach E o1 hosts cls rows))"

text \<open>The rows in the order \<^verbatim>\<open>printClusterRows\<close> prints them. No two rows have the same identity, so the order of the map does not show.\<close>

definition sortedRows :: "rows \<Rightarrow> clusterRow list" where
  "sortedRows rows = sliceStable (\<lambda>a b. recordLess (cwRecord a) (cwRecord b)) (map snd rows)"

definition clustersCommand :: "cliEnv \<Rightarrow> options \<Rightarrow> bool \<Rightarrow> clusterRow list result cli" where
  "clustersCommand E o1 offline = bindE (registryList o1) (\<lambda>records.
     let rows = registeredRows records
     in if offline then Ret (Inr (sortedRows rows))
        else bind (bootstrapClusterExists o1) (\<lambda>up.
          if \<not> up then Ret (Inr (sortedRows rows))
          else bind (NewClient (BootstrapKubeconfig o1)) (\<lambda>r.
            bind (case r of Inl e \<Rightarrow> Ret (rows, Some e) | Inr c \<Rightarrow> discoverClusters E o1 c rows) (\<lambda>(rows', err).
            case err of
              Some e \<Rightarrow> if rows' = [] then Ret (Inl e) else Ret (Inr (sortedRows rows'))
            | None \<Rightarrow> Ret (Inr (sortedRows rows'))))))"

subsection \<open>Status\<close>

definition zeroConfig :: "string \<Rightarrow> string \<Rightarrow> int32 \<Rightarrow> workerPool list \<Rightarrow> genesisConfig" where
  "zeroConfig ns name replicas pools = \<lparr>gcAPIVersion = [], gcKind = [],
     gcCluster = \<lparr>ccName = name, ccNamespace = ns, ccKubernetesVersion = [],
       ccControlPlaneEndpoint = \<lparr>epHost = [], epPort = 0\<rparr>, ccControlPlaneReplicas = replicas,
       ccNetwork = \<lparr>nwPodCIDR = [], nwServiceCIDR = [], nwServiceDomain = []\<rparr>, ccImageRepository = [],
       ccPreKubeadmCommands = [], ccPostKubeadmCommands = [], ccIgnorePreflightErrors = [],
       ccCNI = \<lparr>cniManifests = []\<rparr>, ccVirtualIP = \<lparr>vipEnabled = False, vipInterface = [], vipVersion = []\<rparr>\<rparr>,
     gcSSH = \<lparr>shUser = [], shPort = 0, shPrivateKeyPath = [], shPassphrase = [], shPassword = [], shHostKeyPolicy = []\<rparr>,
     gcHosts = [], gcWorkers = pools,
     gcBootstrap = \<lparr>bcClusterName = [], bcNodeImage = [], bcCAPIVersion = [], bcCertManagerVersion = []\<rparr>\<rparr>"

definition orZero :: "int32 option \<Rightarrow> int32" where
  "orZero r = (case r of None \<Rightarrow> 0 | Some n \<Rightarrow> n)"

definition livePools :: "livePool list \<Rightarrow> workerPool list" where
  "livePools pools = map (\<lambda>p. \<lparr>wpName = lpName p, wpReplicas = orZero (lpReplicas p), wpHostSelector = [],
     wpNodeLabels = [], wpNodeTaints = []\<rparr>) pools"

definition liveClusterConfig :: "string \<Rightarrow> clusterRecord \<Rightarrow> genesisConfig result cli" where
  "liveClusterConfig c r =
     bindE (perform (Kube c (ListControlPlanes (rcNamespace r) (rcName r))) poolsOf) (\<lambda>cps.
     bindE (perform (Kube c (ListDeployments (rcNamespace r) (rcName r))) poolsOf) (\<lambda>pools.
     Ret (Inr (zeroConfig (rcNamespace r) (rcName r) (foldl (\<lambda>n cp. n + orZero (lpReplicas cp)) 0 cps) (livePools pools)))))"

definition healthy :: "liveNode \<Rightarrow> bool" where
  "healthy n \<longleftrightarrow> (''Ready'', ''True'') \<in> set (lnConditions n)"

definition releasedStatus :: "string \<Rightarrow> bool result cli" where
  "releasedStatus c = bindE (perform (Kube c ListNodes) nodesOf) (\<lambda>nodes.
     Ret (Inr (length nodes > 0 \<and> length (filter healthy nodes) = length nodes)))"

definition statusOnce :: "cliEnv \<Rightarrow> clusterRecord \<Rightarrow> string \<Rightarrow> bool result cli" where
  "statusOnce E r c = wrapE (''query '' @ rcMode r @ '' cluster '' @ rcNamespace r @ ''/'' @ rcName r)
     (if rcMode r = Released then releasedStatus c
      else bindE (liveClusterConfig c r) (\<lambda>cfg. bindE (clusterSummary E c cfg) (\<lambda>s. Ret (Inr (ready s)))))"

definition deadlineExceeded :: goerror where
  "deadlineExceeded = \<lparr>emsg = ''context deadline exceeded'', ekind = ErrContext\<rparr>"

function statusLoop :: "cliEnv \<Rightarrow> clusterRecord \<Rightarrow> string \<Rightarrow> bool \<Rightarrow> int \<Rightarrow> unit result cli" where
  "statusLoop E r c watch remaining = bindE (statusOnce E r c) (\<lambda>rdy.
     if \<not> watch \<or> rdy then Ret (Inr ())
     else bind (perform (Wait pollInterval) elapsedOf) (\<lambda>elapsed.
       if \<not> elapsed \<or> remaining < pollInterval then Ret (Inl deadlineExceeded)
       else statusLoop E r c watch (remaining - pollInterval)))"
  by pat_completeness auto
termination
  by (relation "measure (\<lambda>(E, r, c, watch, remaining). nat remaining)") (auto simp: pollInterval_def seconds_def)

declare statusLoop.simps [simp del]

definition statusQuery :: "cliEnv \<Rightarrow> clusterRecord \<Rightarrow> bool \<Rightarrow> int \<Rightarrow> unit result cli" where
  "statusQuery E r watch timeout =
     bindE (wrapE (rcMode r @ '' cluster '' @ rcNamespace r @ ''/'' @ rcName r)
       (NewClient (if rcMode r = Released then rcWorkloadKubeconfig r else rcManagementKubeconfig r))) (\<lambda>c.
     statusLoop E r c watch timeout)"

definition clusterStatus :: "cliEnv \<Rightarrow> options \<Rightarrow> string \<Rightarrow> bool \<Rightarrow> int \<Rightarrow> unit result cli" where
  "clusterStatus E o1 selector watch timeout = bindE (selectRecord E o1 selector) (\<lambda>r.
     if selector = [] \<and> rcMode r = Managed then
       bind (bootstrapClusterExists o1) (\<lambda>up.
         if up then statusQuery E r watch timeout
         else bindE (registryGet o1 (rcNamespace r) (rcName r)) (\<lambda>saved.
           case saved of None \<Rightarrow> Ret (Inr ()) | Some _ \<Rightarrow> statusQuery E r watch timeout))
     else statusQuery E r watch timeout)"


subsection \<open>The waits are polling loops\<close>

lemma clusterSummary_calls: "callsAtMost (clusterSummary E c cfg) 4" "total (clusterSummary E c cfg)"
proof -
  have "callsAtMost (clusterSummary E c cfg) (Suc (Suc (Suc (Suc 0))))"
    unfolding clusterSummary_def by (auto intro!: callsAtMost_perform_bind split: sum.split)
  then show "callsAtMost (clusterSummary E c cfg) 4" by (simp add: eval_nat_numeral)
  show "total (clusterSummary E c cfg)"
    unfolding clusterSummary_def by (auto intro!: total_intros split: sum.split)
qed

lemma statusOnce_calls: "callsAtMost (statusOnce E r c) 6" "total (statusOnce E r c)"
proof -
  have rel: "callsAtMost (releasedStatus c) 6"
    unfolding releasedStatus_def by (rule callsAtMost_mono [of _ "Suc 0"]) (intro branch_intros callsAtMost_perform_bind, simp)
  have sum: "callsAtMost (bindE (clusterSummary E c cfg) (\<lambda>s. Ret (Inr (ready s)))) (4 + 0)" for cfg
    by (intro callsAtMost_bindE clusterSummary_calls(1)) simp
  have conf: "callsAtMost (liveClusterConfig c r) (Suc (Suc 0))"
    unfolding liveClusterConfig_def by (intro callsAtMost_perform_bind) simp
  have live: "callsAtMost (bindE (liveClusterConfig c r) (\<lambda>cfg. bindE (clusterSummary E c cfg) (\<lambda>s. Ret (Inr (ready s))))) 6"
    using callsAtMost_bindE [OF conf sum] by simp
  have wrap: "callsAtMost p n \<Longrightarrow> callsAtMost (wrapE w p) n" for w and p :: "bool result cli" and n
    unfolding wrapE_def by (rule callsAtMost_bind [of p n _ 0, simplified]) simp_all
  show "callsAtMost (statusOnce E r c) 6" unfolding statusOnce_def by (intro wrap branch_intros rel live)
  show "total (statusOnce E r c)"
    unfolding statusOnce_def releasedStatus_def liveClusterConfig_def
    by (intro total_intros branch_intros clusterSummary_calls(2); simp)
qed

lemma intervals [simp]: "0 < pollInterval" "0 < goneInterval"
  by (simp_all add: pollInterval_def goneInterval_def seconds_def)

interpretation ready_wait: polling "waitForCluster E c cfg" "\<lambda>k. bindE (clusterSummary E c cfg) (\<lambda>s.
     if ready s then Ret (Inr ())
     else if suFailures s \<noteq> [] then Ret (Inl (newBootstrapFailedError (suFailures s)))
     else bind (perform (Wait pollInterval) elapsedOf) k)" pollInterval "Inl (notReadyInTime E cfg)" 5 for E c cfg
proof
  show "waitForCluster E c cfg T = bindE (clusterSummary E c cfg) (\<lambda>s. if ready s then Ret (Inr ())
      else if suFailures s \<noteq> [] then Ret (Inl (newBootstrapFailedError (suFailures s)))
      else bind (perform (Wait pollInterval) elapsedOf) (\<lambda>elapsed. if \<not> elapsed \<or> T < pollInterval then Ret (Inl (notReadyInTime E cfg))
        else waitForCluster E c cfg (T - pollInterval)))" for T
    by (rule waitForCluster.simps)
  show "callsAtMost (bindE (clusterSummary E c cfg) (\<lambda>s. if ready s then Ret (Inr ())
      else if suFailures s \<noteq> [] then Ret (Inl (newBootstrapFailedError (suFailures s)))
      else bind (perform (Wait pollInterval) elapsedOf) k)) (5 + m)" if "\<And>e. callsAtMost (k e) m" for k m
  proof -
    have "callsAtMost (if ready s then Ret (Inr ()) else if suFailures s \<noteq> [] then Ret (Inl (newBootstrapFailedError (suFailures s)))
        else bind (perform (Wait pollInterval) elapsedOf) k) (Suc m)" for s
      by (intro branch_intros callsAtMost_perform_bind that)
    from callsAtMost_bindE [OF clusterSummary_calls(1) this] show ?thesis by simp
  qed
qed (auto intro!: total_bindE clusterSummary_calls(2) branch_intros total_bind total_perform)

interpretation gone_wait: polling "waitForClusterGone c key" "\<lambda>k. bind (perform (Kube c (GetLiveCluster key)) liveOf) (\<lambda>r. case r of
     Inl e \<Rightarrow> if ekind e = ErrNotFound then bindE (reportReleasedHosts c (fst key)) (\<lambda>_. Ret (Inr ())) else Ret (Inl e)
   | Inr _ \<Rightarrow> bind (perform (Wait goneInterval) elapsedOf) k)" goneInterval "Inl (stillDeleting key)" 2 for c key
proof
  have rep: "callsAtMost (bindE (reportReleasedHosts c ns) (\<lambda>_. Ret (Inr ()))) (Suc m)"
      "total (bindE (reportReleasedHosts c ns) (\<lambda>_. Ret (Inr ())))" for c ns m
    unfolding reportReleasedHosts_def wrapE_def bindE_def bind_assoc
    by (auto intro!: callsAtMost_perform_bind total_intros split: sum.split)
  show "waitForClusterGone c key T = bind (perform (Kube c (GetLiveCluster key)) liveOf) (\<lambda>r. case r of
      Inl e \<Rightarrow> if ekind e = ErrNotFound then bindE (reportReleasedHosts c (fst key)) (\<lambda>_. Ret (Inr ())) else Ret (Inl e)
    | Inr _ \<Rightarrow> bind (perform (Wait goneInterval) elapsedOf) (\<lambda>elapsed. if \<not> elapsed \<or> T < goneInterval then Ret (Inl (stillDeleting key))
        else waitForClusterGone c key (T - goneInterval)))" for T
    by (rule waitForClusterGone.simps)
  show "callsAtMost (bind (perform (Kube c (GetLiveCluster key)) liveOf) (\<lambda>r. case r of
      Inl e \<Rightarrow> if ekind e = ErrNotFound then bindE (reportReleasedHosts c (fst key)) (\<lambda>_. Ret (Inr ())) else Ret (Inl e)
    | Inr _ \<Rightarrow> bind (perform (Wait goneInterval) elapsedOf) k)) (2 + m)" if "\<And>e. callsAtMost (k e) m" for k m
    unfolding numeral_2_eq_2 add_Suc add_0 by (intro branch_intros callsAtMost_perform_bind rep that)
  show "total (bind (perform (Kube c (GetLiveCluster key)) liveOf) (\<lambda>r. case r of
      Inl e \<Rightarrow> if ekind e = ErrNotFound then bindE (reportReleasedHosts c (fst key)) (\<lambda>_. Ret (Inr ())) else Ret (Inl e)
    | Inr _ \<Rightarrow> bind (perform (Wait goneInterval) elapsedOf) k))" if "\<And>e. total (k e)" for k
    by (intro branch_intros total_bind total_perform rep that; simp)
qed simp

interpretation watch: polling "statusLoop E r c watch" "\<lambda>k. bindE (statusOnce E r c) (\<lambda>rdy.
     if \<not> watch \<or> rdy then Ret (Inr ()) else bind (perform (Wait pollInterval) elapsedOf) k)" pollInterval "Inl deadlineExceeded" 7 for E r c watch
proof
  show "statusLoop E r c watch T = bindE (statusOnce E r c) (\<lambda>rdy. if \<not> watch \<or> rdy then Ret (Inr ())
      else bind (perform (Wait pollInterval) elapsedOf) (\<lambda>elapsed. if \<not> elapsed \<or> T < pollInterval then Ret (Inl deadlineExceeded)
        else statusLoop E r c watch (T - pollInterval)))" for T
    by (rule statusLoop.simps)
  show "callsAtMost (bindE (statusOnce E r c) (\<lambda>rdy. if \<not> watch \<or> rdy then Ret (Inr ())
      else bind (perform (Wait pollInterval) elapsedOf) k)) (7 + m)" if "\<And>e. callsAtMost (k e) m" for k m
  proof -
    have "callsAtMost (if \<not> watch \<or> rdy then Ret (Inr ()) else bind (perform (Wait pollInterval) elapsedOf) k) (Suc m)" for rdy
      by (intro branch_intros callsAtMost_perform_bind that)
    from callsAtMost_bindE [OF statusOnce_calls(1) this] show ?thesis by simp
  qed
qed (auto intro!: total_bindE statusOnce_calls(2) branch_intros total_bind total_perform)

fun exampleAnswer :: "clireq \<Rightarrow> cliresp" where
  "exampleAnswer (File (ReadFileAt p)) = CText (Inr [])"
| "exampleAnswer (Registry d (RegistryGet ns n)) = CRecord (Inr None)"
| "exampleAnswer (Registry d RegistryList) = CRecords (Inr [])"
| "exampleAnswer (Kube c (GetLiveCluster k)) = CCluster (Inr \<lparr>lcMeta = exampleMeta ''lab'', lcPaused = None,
     lcPhase = ''Provisioning'', lcEndpoint = \<lparr>epHost = [], epPort = 0\<rparr>\<rparr>)"
| "exampleAnswer (Kube c ListLiveClusters) = CClusters (Inr [])"
| "exampleAnswer (Kube c (ListLiveMachines ns n)) = CMachines (Inr [])"
| "exampleAnswer (Kube c (ListHostsIn ns)) = CHosts (Inr [])"
| "exampleAnswer (Kube c (ListHostMachinesIn ns)) = CHostMachines (Inr [])"
| "exampleAnswer (Kube c (GetHostAt k)) = CHost (Inr exampleTofuHost)"
| "exampleAnswer (Kube c (UpdateHostStatusAt h)) = CHost (Inr h)"
| "exampleAnswer (Kube c (ListControlPlanes ns n)) = CPools (Inr [])"
| "exampleAnswer (Kube c (ListDeployments ns n)) = CPools (Inr [])"
| "exampleAnswer (Kube c ListNodes) = CNodes (Inr [])"
| "exampleAnswer (Tool (ClusterctlKubeconfig m n ns)) = CText (Inr [])"
| "exampleAnswer (Tool KindList) = CTexts (Inr [])"
| "exampleAnswer (Tool (KindListNodes n)) = CTexts (Inr [])"
| "exampleAnswer (HttpGet u) = CHttp (Inr (200, [], Inr []))"
| "exampleAnswer (Wait d) = CElapsed True"
| "exampleAnswer ClockNow = CTime 0"
| "exampleAnswer (Remote q) = CRemote (RUnit (Inr ()))"
| "exampleAnswer _ = CUnit (Inr ())"

lemma exampleAnswer_typed: "typed q (exampleAnswer q)"
  by (induction q rule: exampleAnswer.induct) (simp_all add: unitOf_def textOf_def textsOf_def recordOf_def
      recordsOf_def liveOf_def livesOf_def machinesOf_def hostsOf_def hostOf_def hostMachinesOf_def poolsOf_def
      nodesOf_def httpOf_def elapsedOf_def timeOf_def remoteOf_def)

subsection \<open>The registry decides who may act\<close>

definition managedChecked :: "options \<Rightarrow> genesisConfig \<Rightarrow> history \<Rightarrow> bool" where
  "managedChecked o1 cfg h \<longleftrightarrow> (\<exists>x. (Registry (opStateDir o1) (RegistryGet (cfgNamespace cfg) (cfgName cfg)), CRecord (Inr x)) \<in> set h \<and>
     (\<forall>r. x = Some r \<longrightarrow> rcMode r = Managed))"

definition guarded :: "options \<Rightarrow> genesisConfig \<Rightarrow> history \<Rightarrow> clireq \<Rightarrow> bool" where
  "guarded o1 cfg h q \<longleftrightarrow> q = Registry (opStateDir o1) (RegistryGet (cfgNamespace cfg) (cfgName cfg)) \<or> managedChecked o1 cfg h"

lemma stays_managedChecked: "stays (managedChecked o1 cfg)"
  unfolding managedChecked_def by (intro stays_intros)

lemma wp_guarded_rest: "managedChecked o1 cfg h \<Longrightarrow> wp (guarded o1 cfg) p (\<lambda>_ _. True) h"
  by (rule wp_mono [OF wp_stays [OF stays_managedChecked]]) (auto simp: guarded_def)

lemma wp_requireGenesisManaged:
  "wp (guarded o1 cfg) (bindE (requireGenesisManaged E o1 cfg) f) (\<lambda>_ _. True) h"
  unfolding requireGenesisManaged_def registryGet_def wp_bindE wp_perform reply_sel
  by (auto simp: guarded_def managedChecked_def wp_cases split: sum.split option.split intro!: wp_guarded_rest)

lemma bindE_assoc: "bindE (bindE p f) g = bindE p (\<lambda>x. bindE (f x) g)"
proof -
  have "(\<lambda>x. bind (case x of Inl e \<Rightarrow> Ret (Inl e) | Inr a \<Rightarrow> f a) (\<lambda>r. case r of Inl e \<Rightarrow> Ret (Inl e) | Inr a \<Rightarrow> g a)) =
    (\<lambda>r. case r of Inl e \<Rightarrow> Ret (Inl e) | Inr x \<Rightarrow> bind (f x) (\<lambda>r. case r of Inl e \<Rightarrow> Ret (Inl e) | Inr a \<Rightarrow> g a))"
    by (rule ext) (simp split: sum.split)
  then show ?thesis by (simp add: bindE_def bind_assoc)
qed

lemma clusterCreate_guarded:
  "LoadOptions E o1 = Inr cfg \<Longrightarrow> wp (guarded o1 cfg) (clusterCreate E o1 False w t) (\<lambda>_ _. True) h"
  by (auto simp: clusterCreate_def createApply_def bindE_assoc wp_requireGenesisManaged split: sum.split)

lemma clusterDelete_guarded:
  "LoadOptions E o1 = Inr cfg \<Longrightarrow> wp (guarded o1 cfg) (clusterDelete E o1 yes t) (\<lambda>_ _. True) h"
  by (auto simp: clusterDelete_def wp_requireGenesisManaged split: sum.split)


subsection \<open>What a finished create has seen\<close>

text \<open>The four calls of one poll, at the end of a history, and the summary made of their replies.\<close>

definition polled :: "string \<Rightarrow> genesisConfig \<Rightarrow> summary \<Rightarrow> history \<Rightarrow> bool" where
  "polled c cfg s h \<longleftrightarrow> (\<exists>pre post cl ms hs hms. s = summaryOf cfg cl ms hs hms \<and>
     h = pre @ [(Kube c (GetLiveCluster (cfgNamespace cfg, cfgName cfg)), CCluster (Inr cl)),
       (Kube c (ListLiveMachines (cfgNamespace cfg) (cfgName cfg)), CMachines (Inr ms)),
       (Kube c (ListHostsIn (Some (cfgNamespace cfg))), CHosts (Inr hs)),
       (Kube c (ListHostMachinesIn (cfgNamespace cfg)), CHostMachines (Inr hms))] @ post)"

lemma stays_polled: "stays (polled c cfg s)"
  unfolding stays_def polled_def by (metis append.assoc)

lemma polledI:
  "polled c cfg (summaryOf cfg cl ms hs hms) (pre @ [(Kube c (GetLiveCluster (cfgNamespace cfg, cfgName cfg)), CCluster (Inr cl)),
       (Kube c (ListLiveMachines (cfgNamespace cfg) (cfgName cfg)), CMachines (Inr ms)),
       (Kube c (ListHostsIn (Some (cfgNamespace cfg))), CHosts (Inr hs)),
       (Kube c (ListHostMachinesIn (cfgNamespace cfg)), CHostMachines (Inr hms))])"
  unfolding polled_def
  by (rule exI [of _ pre], rule exI [of _ "[]"], rule exI [of _ cl], rule exI [of _ ms], rule exI [of _ hs], rule exI [of _ hms]) simp

lemma ensures_clusterSummary: "ensures (clusterSummary E c cfg) (polled c cfg)"
  unfolding ensures_def clusterSummary_def by (auto simp: wp_simps polledI split: sum.split)

lemma waitForCluster_ready: "ensures (waitForCluster E c cfg T) (\<lambda>_ h. \<exists>s. polled c cfg s h \<and> ready s)"
  unfolding ensures_def
proof
  fix h
  show "wp (\<lambda>_ _. True) (waitForCluster E c cfg T) (\<lambda>x h'. \<forall>a. x = Inr a \<longrightarrow> (\<exists>s. polled c cfg s h' \<and> ready s)) h"
  proof (rule ready_wait.rule_from [where J = "\<lambda>_. True"])
    show "wp (\<lambda>_ _. True) (bindE (clusterSummary E c cfg) (\<lambda>s. if ready s then Ret (Inr ())
        else if suFailures s \<noteq> [] then Ret (Inl (newBootstrapFailedError (suFailures s)))
        else bind (perform (Wait pollInterval) elapsedOf) k)) (\<lambda>x h'. \<forall>a. x = Inr a \<longrightarrow> (\<exists>s. polled c cfg s h' \<and> ready s)) h'"
      if "\<And>e h'. True \<Longrightarrow> wp (\<lambda>_ _. True) (k e) (\<lambda>x h'. \<forall>a. x = Inr a \<longrightarrow> (\<exists>s. polled c cfg s h' \<and> ready s)) h'" for k h'
      unfolding wp_bindE
      by (rule wp_mono [OF ensures_clusterSummary [unfolded ensures_def, rule_format]]) (auto simp: wp_cases wp_perform that [simplified] split: sum.split)
  qed simp_all
qed

lemma ensures_NewClient: "ensures (NewClient p) (\<lambda>c h. c = p)"
proof -
  have "ensures (NewClient p) (\<lambda>c h. (c = p \<and> (\<exists>a::unit. True)) \<and> (\<exists>a::unit. True))"
    unfolding NewClient_def by (intro ensures_bindE) simp_all
  then show ?thesis by simp
qed

definition applied :: "string \<Rightarrow> objects \<Rightarrow> history \<Rightarrow> bool" where
  "applied c objs h \<longleftrightarrow> (\<forall>obj\<in>set (AllObjects objs). (Kube c (ApplyObject obj), CUnit (Inr ())) \<in> set h)"

lemma ensures_Apply: "ensures (Apply c objs) (\<lambda>_ h. \<forall>obj\<in>set objs. (Kube c (ApplyObject obj), CUnit (Inr ())) \<in> set h)"
  unfolding Apply_def
  by (rule ensures_eachE) (auto intro: ensures_mono [OF ensures_perform])

definition recorded :: "cliEnv \<Rightarrow> options \<Rightarrow> genesisConfig \<Rightarrow> string \<Rightarrow> history \<Rightarrow> bool" where
  "recorded E o1 cfg mode h \<longleftrightarrow> (\<exists>r. recordFor E o1 cfg mode = Inr r \<and>
     (Registry (opStateDir o1) (RegistryPut r), CUnit (Inr ())) \<in> set h)"

lemma stays_recorded: "stays (recorded E o1 cfg mode)"
  unfolding recorded_def by (intro stays_intros)

lemma ensures_remember: "ensures (remember E o1 cfg mode) (\<lambda>_. recorded E o1 cfg mode)"
  by (auto simp: remember_def registryPut_def recorded_def split: sum.split intro!: ensures_mono [OF ensures_perform])

lemma stays_applied: "stays (applied c objs)"
  by (auto simp: stays_def applied_def)

lemma ensures_createApply:
  "ensures (createApply E o1 cfg objs) (\<lambda>c h. c = BootstrapKubeconfig o1 \<and>
     applied (BootstrapKubeconfig o1) objs h \<and> recorded E o1 cfg Managed h)"
proof -
  have last: "ensures (bindE (remember E o1 cfg Managed) (\<lambda>_. Ret (Inr c)))
      (\<lambda>x h. x = c \<and> (\<exists>a::unit. recorded E o1 cfg Managed h))" for c
    by (intro ensures_bindE ensures_remember stays_recorded) simp
  have app: "ensures (bindE (Apply c (AllObjects objs)) (\<lambda>_. bindE (remember E o1 cfg Managed) (\<lambda>_. Ret (Inr c))))
      (\<lambda>x h. (x = c \<and> (\<exists>a::unit. recorded E o1 cfg Managed h)) \<and> (\<exists>a::unit. applied c objs h))" for c
    by (intro ensures_bindE last stays_applied) (simp add: applied_def ensures_Apply)
  have cl: "ensures (hintE s (NewClient p)) (\<lambda>c h. c = p)" for s p by (simp add: ensures_NewClient)
  have "ensures (createApply E o1 cfg objs)
      (\<lambda>x h. (((x = BootstrapKubeconfig o1 \<and> (\<exists>a::unit. recorded E o1 cfg Managed h)) \<and>
        (\<exists>a::unit. applied (BootstrapKubeconfig o1) objs h)) \<and> (\<exists>c. c = BootstrapKubeconfig o1)) \<and> (\<exists>a::unit. True))"
    unfolding createApply_def
    by (rule ensures_bindE [OF ensures_True stays_const], rule ensures_bindE [OF cl stays_const]) (simp only: app)
  then show ?thesis by (rule ensures_mono) auto
qed

text \<open>
  C17. \<^verbatim>\<open>cluster create --wait\<close> that succeeds has done and seen everything: it applied every rendered
  object to the genesis node, recorded the cluster as managed, and made one poll whose replies
  show the control plane and the machines complete, as many running as the configuration
  asks for.
\<close>

theorem clusterCreate_means_ready:
  assumes "replay (clusterCreate E o1 False True T) evs = Some (Inr ())"
  shows "\<exists>cfg objs s. LoadOptions E o1 = Inr cfg \<and> RenderConfig (ceConfig E) cfg = Inr objs \<and>
    applied (BootstrapKubeconfig o1) objs evs \<and> recorded E o1 cfg Managed evs \<and>
    polled (BootstrapKubeconfig o1) cfg s evs \<and> ready s"
proof -
  obtain cfg objs where l: "LoadOptions E o1 = Inr cfg" "RenderConfig (ceConfig E) cfg = Inr objs"
    using assms by (auto simp: clusterCreate_def split: sum.splits)
  let ?c = "BootstrapKubeconfig o1"
  have stay: "stays (\<lambda>h. \<exists>s. polled c cfg s h \<and> ready s)" for c
    by (intro stays_ex stays_and stays_polled stays_const)
  have w: "ensures (createWait E o1 cfg c T) (\<lambda>_ h. True \<and> (\<exists>a::unit. \<exists>s. polled c cfg s h \<and> ready s))" for c
    unfolding createWait_def by (rule ensures_bindE [OF waitForCluster_ready stay]) simp
  have "ensures (clusterCreate E o1 False True T) (\<lambda>_ h. (True \<and> (\<exists>a::unit. \<exists>s. polled ?c cfg s h \<and> ready s)) \<and>
      (\<exists>c. c = ?c \<and> applied ?c objs h \<and> recorded E o1 cfg Managed h))"
    unfolding clusterCreate_def l sum.case if_False not_True_eq_False
    by (rule ensures_bindE [OF ensures_createApply])
      (intro stays_and stays_const stays_applied stays_recorded, simp only: not_True_eq_False if_False w)
  from ensures_replay [OF this assms] show ?thesis using l by blast
qed


definition exampleMachine :: "string \<Rightarrow> labels \<Rightarrow> liveMachine" where
  "exampleMachine n ls = \<lparr>lmMeta = (exampleMeta n)\<lparr>mLabels := ls\<rparr>, lmPhase = MachinePhaseRunning\<rparr>"

definition exampleMachines :: "liveMachine list" where
  "exampleMachines = [exampleMachine ''lab-cp'' [(MachineControlPlaneLabel, [])], exampleMachine ''lab-w'' []]"

text \<open>A genesis node on which the cluster is up, with the clusters it lists.\<close>

definition exampleUp :: "liveCluster list \<Rightarrow> clireq \<Rightarrow> cliresp" where
  "exampleUp others q = (case q of Kube c (ListLiveMachines ns n) \<Rightarrow> CMachines (Inr exampleMachines)
     | Kube c ListLiveClusters \<Rightarrow> CClusters (Inr others) | _ \<Rightarrow> exampleAnswer q)"

lemma exampleLoad: "LoadOptions exampleCE exampleOptions = Inr exampleLoaded"
  using exampleTwo_loads by (simp add: LoadOptions_def exampleCliEnv_def exampleOptions_def exampleLoaded_def)

lemma exampleUp_ready: "ready (summaryOf exampleLoaded cl exampleMachines hs hms)"
proof -
  have "ccControlPlaneReplicas (gcCluster exampleLoaded) = 1" "totalWorkers exampleLoaded = 1" by code_simp+
  moreover have "countMachines isRunning exampleMachines = 2" "countMachines (\<lambda>m. isControlPlane m \<and> isRunning m) exampleMachines = 1"
    by code_simp+
  ultimately show ?thesis by (simp add: ready_def summaryOf_def)
qed

lemma exampleUp_summary:
  "outcome (exampleUp others) (clusterSummary exampleCE c exampleLoaded) =
     Some (Inr (summaryOf exampleLoaded \<lparr>lcMeta = exampleMeta ''lab'', lcPaused = None, lcPhase = ''Provisioning'',
       lcEndpoint = \<lparr>epHost = [], epPort = 0\<rparr>\<rparr> exampleMachines [] []))"
  by (simp add: clusterSummary_def exampleUp_def)

lemma exampleUp_wait: "outcome (exampleUp others) (waitForCluster exampleCE c exampleLoaded T) = Some (Inr ())"
  by (subst waitForCluster.simps) (simp add: exampleUp_summary exampleUp_ready)

lemma exampleUp_client: "outcome (exampleUp others) (NewClient p) = Some (Inr p)"
  by (simp add: NewClient_def exampleUp_def)

lemma exampleUp_apply: "outcome (exampleUp others) (Apply c objs) = Some (Inr ())"
  unfolding Apply_def by (rule outcome_eachE) (simp add: exampleUp_def)

lemma exampleUp_guard: "outcome (exampleUp others) (requireGenesisManaged E o1 cfg) = Some (Inr ())"
  by (simp add: requireGenesisManaged_def registryGet_def exampleUp_def)

lemma exampleUp_remember:
  "\<exists>r. recordFor exampleCE exampleOptions exampleLoaded mode = Inr r"
  "outcome (exampleUp others) (remember exampleCE exampleOptions exampleLoaded mode) = Some (Inr ())"
proof -
  have a: "isAbs (workloadPath exampleOptions (cfgNamespace exampleLoaded) (cfgName exampleLoaded))"
    "isAbs (BootstrapKubeconfig exampleOptions)" by code_simp+
  then show "\<exists>r. recordFor exampleCE exampleOptions exampleLoaded mode = Inr r"
    by (simp add: recordFor_def recordOfIdentity_def absPath_def Let_def)
  then show "outcome (exampleUp others) (remember exampleCE exampleOptions exampleLoaded mode) = Some (Inr ())"
    by (auto simp: remember_def registryPut_def exampleUp_def)
qed

theorem clusterCreate_means_ready_witness:
  "\<exists>evs s. replay (clusterCreate exampleCE exampleOptions False True (seconds 60)) evs = Some (Inr ()) \<and>
     polled (BootstrapKubeconfig exampleOptions) exampleLoaded s evs \<and> ready s"
proof -
  obtain objs where r: "RenderConfig (ceConfig exampleCE) exampleLoaded = Inr objs"
    using exampleLoaded_renders by (auto simp: exampleCliEnv_def)
  have "\<not> HasCNI (ccCNI (gcCluster exampleLoaded))" by code_simp
  then have "outcome (exampleUp others) (clusterCreate exampleCE exampleOptions False True (seconds 60)) = Some (Inr ())"
    by (simp add: clusterCreate_def createApply_def createWait_def exampleLoad r exampleUp_guard exampleUp_client
        exampleUp_apply exampleUp_remember exampleUp_wait)
  from outcome_replay [OF this] obtain evs where
    e: "replay (clusterCreate exampleCE exampleOptions False True (seconds 60)) evs = Some (Inr ())" by (elim exE conjE)
  from clusterCreate_means_ready [OF e] obtain cfg s where
    s: "LoadOptions exampleCE exampleOptions = Inr cfg" "polled (BootstrapKubeconfig exampleOptions) cfg s evs" "ready s"
    by (elim exE conjE)
  have c: "cfg = exampleLoaded" using s(1) unfolding exampleLoad sum.inject by (rule sym)
  show ?thesis by (rule exI [of _ evs], rule exI [of _ s]) (intro conjI e s(2) [unfolded c] s(3))
qed


subsection \<open>Delete\<close>

definition gone :: "string \<Rightarrow> objectKey \<Rightarrow> history \<Rightarrow> bool" where
  "gone c key h \<longleftrightarrow> (\<exists>e. (Kube c (GetLiveCluster key), CCluster (Inl e)) \<in> set h \<and> ekind e = ErrNotFound)"

lemma stays_gone: "stays (gone c key)"
  unfolding gone_def by (intro stays_intros)

text \<open>What \<^verbatim>\<open>cluster delete\<close> may do at a history: forget an identity only when the genesis node answered that the cluster is not there, delete only the object it read.\<close>

definition deleteRule :: "options \<Rightarrow> genesisConfig \<Rightarrow> history \<Rightarrow> clireq \<Rightarrow> bool" where
  "deleteRule o1 cfg h q \<longleftrightarrow>
     (\<forall>d ns n. q = Registry d (RegistryForget ns n) \<longrightarrow> (ns, n) = (cfgNamespace cfg, cfgName cfg) \<and>
        gone (BootstrapKubeconfig o1) (cfgNamespace cfg, cfgName cfg) h) \<and>
     (\<forall>c cl. q = Kube c (DeleteLiveCluster cl) \<longrightarrow> c = BootstrapKubeconfig o1 \<and>
        (Kube c (GetLiveCluster (cfgNamespace cfg, cfgName cfg)), CCluster (Inr cl)) \<in> set h)"

lemma deleteRule_other [simp]:
  "deleteRule o1 cfg h (File f)" "deleteRule o1 cfg h (Registry d (RegistryGet ns n))" "deleteRule o1 cfg h (LoadKubeconfig p)"
  "deleteRule o1 cfg h (BuildClient p)" "deleteRule o1 cfg h (Wait w)" "deleteRule o1 cfg h (Kube c (GetLiveCluster k))"
  "deleteRule o1 cfg h (Kube c (ListHostsIn m))"
  by (simp_all add: deleteRule_def)

lemma waitForClusterGone_wp:
  "wp (deleteRule o1 cfg) (waitForClusterGone c key T) (\<lambda>x h'. x = Inr () \<longrightarrow> gone c key h') h"
  by (rule gone_wait.rule_from [where J = "\<lambda>_. True"])
    (auto simp: wp_simps reportReleasedHosts_def gone_def split: sum.split)

lemma deleteFrom_wp: "wp (deleteRule o1 cfg) (deleteFrom o1 cfg (BootstrapKubeconfig o1) T) (\<lambda>_ _. True) h"
proof -
  let ?c = "BootstrapKubeconfig o1" and ?key = "(cfgNamespace cfg, cfgName cfg)"
  have forget: "wp (deleteRule o1 cfg) (registryForget o1 (cfgNamespace cfg) (cfgName cfg)) (\<lambda>_ _. True) h'" if "gone ?c ?key h'" for h'
    using that by (simp add: registryForget_def wp_perform deleteRule_def)
  have wait: "wp (deleteRule o1 cfg) (waitForClusterGone ?c ?key T)
      (\<lambda>x h'. case x of Inl e \<Rightarrow> True | Inr _ \<Rightarrow> wp (deleteRule o1 cfg) (registryForget o1 (cfgNamespace cfg) (cfgName cfg)) (\<lambda>_ _. True) h') h'" for h'
    by (rule wp_mono [OF waitForClusterGone_wp]) (auto intro: forget split: sum.split)
  have del: "deleteRule o1 cfg (h @ [(Kube ?c (GetLiveCluster ?key), CCluster (Inr cl))]) (Kube ?c (DeleteLiveCluster cl))" for cl
    by (simp add: deleteRule_def)
  have g: "gone ?c ?key (h @ [(Kube ?c (GetLiveCluster ?key), CCluster (Inl e))])" if "ekind e = ErrNotFound" for e
    using that by (auto simp: gone_def)
  show ?thesis
    unfolding deleteFrom_def Let_def
    by (auto simp: wp_simps wait del forget [OF g] split: sum.split)
qed

text \<open>
  C16. \<^verbatim>\<open>cluster delete\<close> forgets a cluster only when it is gone: it drops the registry entry of the
  configured identity after the genesis node answered that the cluster does not exist, and the
  only object it ever deletes is the Cluster it read under that identity. This holds at every
  point where the command can be interrupted.
\<close>

theorem clusterDelete_forgets_only_gone:
  assumes "cutoff (clusterDelete E o1 yes T) evs" "LoadOptions E o1 = Inr cfg" "i < length evs"
  shows "deleteRule o1 cfg (take i evs) (fst (evs ! i))"
proof -
  have client: "wp (deleteRule o1 cfg) (NewClient (BootstrapKubeconfig o1))
      (\<lambda>x h'. case x of Inl e \<Rightarrow> True | Inr c \<Rightarrow> wp (deleteRule o1 cfg) (deleteFrom o1 cfg c T) (\<lambda>_ _. True) h') h" for h
    by (auto simp: NewClient_def wp_simps deleteFrom_wp split: sum.split)
  have "wp (deleteRule o1 cfg) (clusterDelete E o1 yes T) (\<lambda>_ _. True) []"
    by (auto simp: clusterDelete_def assms(2) requireGenesisManaged_def registryGet_def wp_simps client split: sum.split option.split)
  then show ?thesis by (rule wp_cutoff [OF _ assms(1,3)])
qed

subsection \<open>Discovery\<close>

lemma registeredRows_keys: "r \<in> set records \<Longrightarrow> map_of (registeredRows records) (Key (rcNamespace r) (rcName r)) \<noteq> None"
proof -
  let ?f = "\<lambda>r. AList.update (Key (rcNamespace r) (rcName r)) \<lparr>cwRecord = r, cwPhase = ''-'', cwHosts = ''-''\<rparr>"
  have keep: "map_of rows k \<noteq> None \<Longrightarrow> map_of (fold ?f rs rows) k \<noteq> None" for rs rows k
    by (induction rs arbitrary: rows) auto
  have "r \<in> set rs \<Longrightarrow> map_of (fold ?f rs rows) (Key (rcNamespace r) (rcName r)) \<noteq> None" for rs rows
  proof (induction rs arbitrary: rows)
    case (Cons a rs)
    show ?case
    proof (cases "r \<in> set rs")
      case True
      then show ?thesis using Cons.IH [OF True] by simp
    next
      case False
      then have "r = a" using Cons.prems by simp
      then show ?thesis using keep [of "?f r rows" "Key (rcNamespace r) (rcName r)" rs] by simp
    qed
  qed simp
  then show "r \<in> set records \<Longrightarrow> map_of (registeredRows records) (Key (rcNamespace r) (rcName r)) \<noteq> None"
    unfolding registeredRows_def .
qed

lemma refreshRow_keys: "map_of rows k \<noteq> None \<Longrightarrow> map_of (refreshRow key cl hosts r rows) k \<noteq> None"
  by (auto simp: refreshRow_def)

text \<open>
  The calls that only look: of the registry, of the genesis node and of local files. A record that
  \<^verbatim>\<open>clusters\<close> writes, its only other call, is new: its key is not among those in \<open>K\<close>.
\<close>

definition looks :: "options \<Rightarrow> clireq \<Rightarrow> bool" where
  "looks o1 q \<longleftrightarrow> q = Registry (opStateDir o1) RegistryList \<or> q = File (StatFile (BootstrapKubeconfig o1)) \<or>
     q = LoadKubeconfig (BootstrapKubeconfig o1) \<or> q = BuildClient (BootstrapKubeconfig o1) \<or>
     q = Kube (BootstrapKubeconfig o1) ListLiveClusters \<or> q = Kube (BootstrapKubeconfig o1) (ListHostsIn None)"

definition addsOnly :: "options \<Rightarrow> string set \<Rightarrow> clireq \<Rightarrow> bool" where
  "addsOnly o1 K q \<longleftrightarrow> looks o1 q \<or>
     (\<exists>r. q = Registry (opStateDir o1) (RegistryPut r) \<and> rcMode r = Managed \<and> Key (rcNamespace r) (rcName r) \<notin> K)"

lemma discoverEach_adds:
  "\<forall>k\<in>K. map_of rows k \<noteq> None \<Longrightarrow> calls (addsOnly o1 K) (discoverEach E o1 hosts cls rows)"
proof (induction cls arbitrary: rows)
  case (Cons cl cls)
  let ?ns = "mNamespace (lcMeta cl)" and ?n = "mName (lcMeta cl)"
  have ih: "calls (addsOnly o1 K) (discoverEach E o1 hosts cls (refreshRow key cl hosts r rows))" for key r
    using Cons.prems refreshRow_keys by (intro Cons.IH) blast
  show ?case
  proof (cases "map_of rows (Key ?ns ?n)")
    case (Some row)
    then show ?thesis by (simp add: Let_def ih)
  next
    case None
    then have new: "Key ?ns ?n \<notin> K" using Cons.prems by auto
    have rec: "rcMode r = Managed \<and> rcNamespace r = ?ns \<and> rcName r = ?n" if "recordOfIdentity E o1 ?ns ?n (lcEndpoint cl) Managed = Inr r" for r
      using that by (auto simp: recordOfIdentity_def Let_def split: sum.splits)
    have put: "calls (addsOnly o1 K) (perform (Registry (opStateDir o1) (RegistryPut r)) unitOf)"
      if "recordOfIdentity E o1 ?ns ?n (lcEndpoint cl) Managed = Inr r" for r
      using rec [OF that] new by (auto simp: perform_def addsOnly_def split: option.split)
    show ?thesis
      by (auto simp: Let_def None registryPut_def split: sum.split intro!: calls_bind put ih)
  qed
qed simp

lemma calls_perform: "P q \<Longrightarrow> calls P (perform q sel)"
  by (simp add: perform_def split: option.split)

lemma clusters_adds:
  "calls (addsOnly o1 (set (map (\<lambda>r. Key (rcNamespace r) (rcName r)) records)))
     (discoverClusters E o1 (BootstrapKubeconfig o1) (registeredRows records))"
  unfolding discoverClusters_def
  by (intro calls_bind calls_perform)
    (auto simp: addsOnly_def [of _ _ "Kube _ _"] looks_def split: sum.split
      intro!: calls_bind calls_perform discoverEach_adds registeredRows_keys [simplified])

lemma NewClient_calls: "P (LoadKubeconfig p) \<Longrightarrow> P (BuildClient p) \<Longrightarrow> calls P (NewClient p)"
  unfolding NewClient_def wrapE_def by (intro calls_bindE calls_bind calls_perform) simp_all

lemma NewClient_bind_calls:
  assumes "P (LoadKubeconfig p)" "P (BuildClient p)" "\<And>e. calls P (f (Inl e))" "calls P (f (Inr p))"
  shows "calls P (bind (NewClient p) f)"
proof -
  have "calls P (bind (Ret (Inr p)) f)" using assms(4) by simp
  then show ?thesis
    using assms(1-3) by (auto simp: NewClient_def wrapE_def bindE_def bind_assoc perform_def split: sum.split option.split)
qed

text \<open>After the list of the registry the command only looks and adds keys that are not in it.\<close>

lemma clustersCommand_adds:
  "\<exists>rest. clustersCommand E o1 offline = bindE (perform (Registry (opStateDir o1) RegistryList) recordsOf) rest \<and>
     (\<forall>records. calls (addsOnly o1 (set (map (\<lambda>r. Key (rcNamespace r) (rcName r)) records))) (rest records))"
proof -
  let ?q = "Registry (opStateDir o1) RegistryList"
  define rest where "rest records = (let rows = registeredRows records
     in if offline then Ret (Inr (sortedRows rows))
        else bind (bootstrapClusterExists o1) (\<lambda>up.
          if \<not> up then Ret (Inr (sortedRows rows))
          else bind (NewClient (BootstrapKubeconfig o1)) (\<lambda>r.
            bind (case r of Inl e \<Rightarrow> Ret (rows, Some e) | Inr c \<Rightarrow> discoverClusters E o1 c rows) (\<lambda>(rows', err).
            case err of
              Some e \<Rightarrow> if rows' = [] then Ret (Inl e) else Ret (Inr (sortedRows rows'))
            | None \<Rightarrow> Ret (Inr (sortedRows rows'))))))" for records :: "clusterRecord list"
  let ?K = "\<lambda>records. set (map (\<lambda>r. Key (rcNamespace r) (rcName r)) records)"
  have live: "calls (addsOnly o1 (?K records)) (bind (NewClient (BootstrapKubeconfig o1)) (\<lambda>r.
      bind (case r of Inl e \<Rightarrow> Ret (registeredRows records, Some e) | Inr c \<Rightarrow> discoverClusters E o1 c (registeredRows records)) (\<lambda>(rows', err).
      case err of
        Some e \<Rightarrow> if rows' = [] then Ret (Inl e) else Ret (Inr (sortedRows rows'))
      | None \<Rightarrow> Ret (Inr (sortedRows rows')))))" for records
    by (rule NewClient_bind_calls)
      (auto simp: addsOnly_def [of _ _ "LoadKubeconfig _"] addsOnly_def [of _ _ "BuildClient _"] looks_def
        intro!: calls_bind clusters_adds [simplified] split: option.split prod.split)
  have up: "calls (addsOnly o1 (?K records)) (bootstrapClusterExists o1)" for records
    unfolding bootstrapClusterExists_def stat_def by (intro calls_bind calls_perform) (simp_all add: addsOnly_def looks_def)
  have only: "calls (addsOnly o1 (?K records)) (rest records)" for records
  proof (cases offline)
    case False
    have "calls (addsOnly o1 (?K records)) (bind (bootstrapClusterExists o1) (\<lambda>up. if \<not> up then Ret (Inr (sortedRows (registeredRows records)))
        else f))" if "calls (addsOnly o1 (?K records)) f" for f
      by (rule calls_bind [OF up]) (use that in simp)
    from this [OF live] show ?thesis unfolding rest_def Let_def using False by simp
  qed (simp add: rest_def Let_def)
  have "clustersCommand E o1 offline = bindE (perform ?q recordsOf) rest"
    unfolding clustersCommand_def registryList_def rest_def ..
  then show ?thesis using only by blast
qed

text \<open>
  C38. Looking changes nothing but to add what was missing. At every point of \<^verbatim>\<open>kg clusters\<close> its
  calls so far are lookups of the registry, of the genesis node and of its kubeconfig, and writes of
  managed records under keys that the registry did not list: it forgets no record, replaces none and writes to no
  API server and no file, so a released or self-managed cluster keeps its record even when the
  genesis node still holds the old Cluster object.
\<close>

theorem clusters_only_adds:
  assumes "cutoff (clustersCommand E o1 offline) evs" "e \<in> set evs"
  shows "looks o1 (fst e) \<or>
    (\<exists>r. fst e = Registry (opStateDir o1) (RegistryPut r) \<and> rcMode r = Managed \<and>
       (\<exists>records. (Registry (opStateDir o1) RegistryList, CRecords (Inr records)) \<in> set evs \<and>
         (\<forall>x\<in>set records. Key (rcNamespace x) (rcName x) \<noteq> Key (rcNamespace r) (rcName r))))"
proof (cases "looks o1 (fst e)")
  case False
  let ?q = "Registry (opStateDir o1) RegistryList"
  let ?K = "\<lambda>records. set (map (\<lambda>r. Key (rcNamespace r) (rcName r)) records)"
  obtain rest where command: "clustersCommand E o1 offline = bindE (perform ?q recordsOf) rest"
    and only: "\<And>records. calls (addsOnly o1 (?K records)) (rest records)"
    using clustersCommand_adds [of E o1 offline] by blast
  have c: "cutoff (bindE (perform ?q recordsOf) rest) evs" using assms(1) command by simp
  have first: "e' \<in> set evs' \<Longrightarrow> cutoff (perform ?q recordsOf) evs' \<Longrightarrow> fst e' = ?q" for e' evs'
    using calls_cutoff [of "\<lambda>q. q = ?q" "perform ?q recordsOf"] by (simp add: calls_perform)
  have notlist: "fst e \<noteq> ?q" using False by (auto simp: looks_def)
  from c obtain e1 e2 records where s: "evs = e1 @ e2" "e1 = [(?q, CRecords (Inr records))]" "cutoff (rest records) e2"
    using first [OF assms(2)] notlist unfolding cutoff_bindE by auto
  have "e \<in> set e2" using assms(2) notlist s(1,2) by auto
  from calls_cutoff [OF only s(3) this] False obtain r where
    r: "fst e = Registry (opStateDir o1) (RegistryPut r)" "rcMode r = Managed" "Key (rcNamespace r) (rcName r) \<notin> ?K records"
    unfolding addsOnly_def by blast
  have "\<forall>x\<in>set records. Key (rcNamespace x) (rcName x) \<noteq> Key (rcNamespace r) (rcName r)"
  proof
    fix x assume "x \<in> set records"
    then have "Key (rcNamespace x) (rcName x) \<in> ?K records" by simp
    with r(3) show "Key (rcNamespace x) (rcName x) \<noteq> Key (rcNamespace r) (rcName r)" by (intro notI) (simp only:)
  qed
  then show ?thesis using r(1,2) s(1,2) by auto
qed simp


definition exampleStray :: liveCluster where
  "exampleStray = \<lparr>lcMeta = exampleMeta ''lab'', lcPaused = None, lcPhase = ''Provisioned'',
     lcEndpoint = \<lparr>epHost = ''10.0.0.9'', epPort = 6443\<rparr>\<rparr>"

text \<open>The registry is empty and the genesis node runs one cluster.\<close>

lemma exampleFound_run:
  "\<exists>evs. cutoff (clustersCommand exampleCE exampleOptions False) evs \<and>
     (\<exists>e\<in>set evs. \<exists>r. fst e = Registry ''/root/.kg'' (RegistryPut r))"
proof -
  let ?ns = "mNamespace (lcMeta exampleStray)" and ?n = "mName (lcMeta exampleStray)"
  have "absPath exampleCE (BootstrapKubeconfig exampleOptions) = Inr (BootstrapKubeconfig exampleOptions)" by code_simp
  moreover have "\<exists>w. absPath exampleCE (workloadPath exampleOptions ?ns ?n) = Inr w"
    by (simp add: absPath_def exampleCliEnv_def)
  ultimately obtain r where r: "recordOfIdentity exampleCE exampleOptions ?ns ?n (lcEndpoint exampleStray) Managed = Inr r"
    by (auto simp: recordOfIdentity_def Let_def)
  let ?evs = "[(Registry ''/root/.kg'' RegistryList, CRecords (Inr [])),
      (File (StatFile (BootstrapKubeconfig exampleOptions)), CUnit (Inr ())),
      (LoadKubeconfig (BootstrapKubeconfig exampleOptions), CUnit (Inr ())), (BuildClient (BootstrapKubeconfig exampleOptions), CUnit (Inr ())),
      (Kube (BootstrapKubeconfig exampleOptions) ListLiveClusters, CClusters (Inr [exampleStray])),
      (Kube (BootstrapKubeconfig exampleOptions) (ListHostsIn None), CHosts (Inr [])),
      (Registry ''/root/.kg'' (RegistryPut r), CUnit (Inr ()))] :: history"
  have d: "opStateDir exampleOptions = ''/root/.kg''" by (simp add: exampleOptions_def)
  have "cutoff (clustersCommand exampleCE exampleOptions False) ?evs"
    by (simp add: clustersCommand_def registryList_def bootstrapClusterExists_def stat_def NewClient_def wrapE_def bindE_def
        perform_def discoverClusters_def registeredRows_def registryPut_def d r Let_def)
  then show ?thesis by (intro exI [of _ ?evs] conjI) auto
qed

theorem clusters_only_adds_witness:
  "\<exists>evs. \<exists>r::clusterRecord. cutoff (clustersCommand exampleCE exampleOptions False) evs \<and> rcMode r = Managed \<and>
     (\<exists>records. (Registry ''/root/.kg'' RegistryList, CRecords (Inr records)) \<in> set evs \<and>
       (\<forall>x\<in>set records. Key (rcNamespace x) (rcName x) \<noteq> Key (rcNamespace r) (rcName r)))"
proof -
  obtain evs e r where e: "cutoff (clustersCommand exampleCE exampleOptions False) evs" "e \<in> set evs"
    "fst e = Registry ''/root/.kg'' (RegistryPut r)" using exampleFound_run by (elim exE bexE conjE)
  have d: "opStateDir exampleOptions = ''/root/.kg''" by (simp add: exampleOptions_def)
  have "\<not> looks exampleOptions (fst e)" unfolding e(3) looks_def by simp
  then have "\<exists>r'. fst e = Registry ''/root/.kg'' (RegistryPut r') \<and> rcMode r' = Managed \<and>
      (\<exists>records. (Registry ''/root/.kg'' RegistryList, CRecords (Inr records)) \<in> set evs \<and>
        (\<forall>x\<in>set records. Key (rcNamespace x) (rcName x) \<noteq> Key (rcNamespace r') (rcName r')))"
    using clusters_only_adds [OF e(1,2), unfolded d] by (elim disjE) (erule notE, assumption)
  then show ?thesis by (elim exE conjE) (intro exI [of _ evs] exI conjI, rule e(1), assumption+)
qed

theorem clusterDelete_forgets_only_gone_witness:
  "\<exists>evs i. cutoff (clusterDelete exampleCE exampleOptions True (seconds 60)) evs \<and> i < length evs \<and>
     fst (evs ! i) = Registry ''/root/.kg'' (RegistryForget ''lab'' ''lab'') \<and>
     gone (BootstrapKubeconfig exampleOptions) (''lab'', ''lab'') (take i evs)"
proof -
  let ?c = "BootstrapKubeconfig exampleOptions"
  have n: "cfgName exampleLoaded = ''lab''" "cfgNamespace exampleLoaded = ''lab''" by code_simp+
  have d: "opStateDir exampleOptions = ''/root/.kg''" by (simp add: exampleOptions_def)
  let ?evs = "[(Registry ''/root/.kg'' (RegistryGet ''lab'' ''lab''), CRecord (Inr None)),
      (LoadKubeconfig ?c, CUnit (Inr ())), (BuildClient ?c, CUnit (Inr ())),
      (Kube ?c (GetLiveCluster (''lab'', ''lab'')), CCluster (Inl \<lparr>emsg = ''gone'', ekind = ErrNotFound\<rparr>)),
      (Registry ''/root/.kg'' (RegistryForget ''lab'' ''lab''), CUnit (Inr ()))] :: history"
  have c: "cutoff (clusterDelete exampleCE exampleOptions True (seconds 60)) ?evs"
    by (simp add: clusterDelete_def exampleLoad requireGenesisManaged_def registryGet_def NewClient_def wrapE_def bindE_def
        perform_def deleteFrom_def registryForget_def n d Let_def)
  have i: "4 < length ?evs" by simp
  have "gone ?c (''lab'', ''lab'') (take 4 ?evs)"
    using clusterDelete_forgets_only_gone [OF c exampleLoad i] by (simp add: deleteRule_def n)
  then show ?thesis using c by (intro exI [of _ ?evs] exI [of _ 4]) simp
qed

end
