(* ===== verification/KG_CliInventory.thy ===== *)
theory KG_CliInventory
  imports KG_CliCluster KG_Inventory
begin

text \<open>
  \<^verbatim>\<open>cli/inventory.go\<close>: the preflight of every host over SSH, the host pool as the management
  cluster sees it, and \<^verbatim>\<open>inventory trust\<close>, which forgets a pinned host key. The preflight runs one
  goroutine per host; \<open>checkHosts\<close> is the list of their programs and \<open>runAll\<close> any interleaving of
  them.
\<close>

subsection \<open>Preflight\<close>

record checkResult =
  ckHost :: hostConfig
  ckInfo :: "systemInfo option"
  ckErr :: "goerror option"
  ckWarning :: string

definition cliSshConfig :: "hostConfig \<Rightarrow> string \<Rightarrow> config" where
  "cliSshConfig h key = \<lparr>cfAddress = hcfAddress h, cfPort = sint (hcfPort h), cfUser = hcfUser h, cfPrivateKey = key,
     cfPassphrase = hcfPassphrase h, cfPassword = hcfPassword h, cfPolicy = hcfHostKeyPolicy h,
     cfKnownPublicKey = hcfPublicKey h\<rparr>"

definition cliSshConfigFor :: "hostConfig \<Rightarrow> config result cli" where
  "cliSshConfigFor h =
     (if hcfPrivateKeyPath h \<noteq> []
      then bindE (wrapE ''read private key'' (perform (File (ReadFileAt (hcfPrivateKeyPath h))) textOf)) (\<lambda>key.
        Ret (Inr (cliSshConfig h key)))
      else Ret (Inr (cliSshConfig h [])))"

definition joinWarnings :: "string \<Rightarrow> string \<Rightarrow> string" where
  "joinWarnings existing additional = (if existing = [] then additional else existing @ ''; '' @ additional)"

definition minorOf :: "string \<Rightarrow> string" where
  "minorOf version =
     (let parts = splitOn CHR ''.'' (trimPrefix version ''v'')
      in if length parts < 2 then version else ''v'' @ parts ! 0 @ ''.'' @ parts ! 1)"

definition kubeadmMismatch :: "string \<Rightarrow> string \<Rightarrow> string" where
  "kubeadmMismatch want got =
     (if want = [] \<or> got = [] then []
      else if minorOf want = minorOf got then []
      else ''kubeadm is '' @ got @ '', and the configuration asks for '' @ want)"

definition dirtyCheck :: string where
  "dirtyCheck = ''if ls /etc/kubernetes/*.conf >/dev/null 2>&1; then echo conf; '' @
     ''elif [ -n \"$(ls -A /var/lib/etcd 2>/dev/null)\" ]; then echo etcd; fi''"

definition dirtyWarning :: "sshResult \<times> goerror option \<Rightarrow> string" where
  "dirtyWarning x = (case x of (res, err) \<Rightarrow>
     if err \<noteq> None then []
     else if trimSpace (rsStdout res) = ''conf'' then ''kubeadm has already run here; /etc/kubernetes holds its kubeconfigs''
     else if trimSpace (rsStdout res) = ''etcd'' then ''/var/lib/etcd is not empty, so this host held an etcd member''
     else [])"

definition warnings :: "string \<Rightarrow> systemInfo \<Rightarrow> sshResult \<times> goerror option \<Rightarrow> string" where
  "warnings want info dirty =
     (let w0 = dirtyWarning dirty;
          w1 = (if inContainerRuntime info = [] then joinWarnings w0 ''no container runtime found; install containerd before provisioning'' else w0);
          m = kubeadmMismatch want (inKubeadmVersion info)
      in if m \<noteq> [] then joinWarnings w1 m else w1)"

definition checkFailed :: "hostConfig \<Rightarrow> systemInfo option \<Rightarrow> goerror \<Rightarrow> checkResult" where
  "checkFailed h info e = \<lparr>ckHost = h, ckInfo = info, ckErr = Some e, ckWarning = []\<rparr>"

definition checkConn :: "hostConfig \<Rightarrow> string \<Rightarrow> sshClient \<Rightarrow> checkResult cli" where
  "checkConn h want conn = bind (liftR (Probe conn)) (\<lambda>p. case p of
     Inl e \<Rightarrow> Ret (checkFailed h None e)
   | Inr info \<Rightarrow> bind (liftR (Run conn ''id -u'')) (\<lambda>(res, err). case err of
       Some e \<Rightarrow> Ret (checkFailed h (Some info) (wrapf ''check privileges'' e))
     | None \<Rightarrow>
         if trimSpace (rsStdout res) \<noteq> ''0''
         then Ret (checkFailed h (Some info) (errorf (''connects as uid '' @ trimSpace (rsStdout res) @ ''; kg needs root'')))
         else bind (liftR (Run conn dirtyCheck)) (\<lambda>d.
           Ret \<lparr>ckHost = h, ckInfo = Some info, ckErr = None, ckWarning = warnings want info d\<rparr>)))"

definition checkHost :: "cliEnv \<Rightarrow> hostConfig \<Rightarrow> string \<Rightarrow> checkResult cli" where
  "checkHost E h want = bind (cliSshConfigFor h) (\<lambda>c. case c of
     Inl e \<Rightarrow> Ret (checkFailed h None e)
   | Inr cfg \<Rightarrow> bind (liftR (Dial (ceSsh E) cfg)) (\<lambda>d. case d of
       Inl e \<Rightarrow> Ret (checkFailed h None e)
     | Inr conn \<Rightarrow> bind (checkConn h want conn) (\<lambda>r. bind (liftR (closeConn (scConn conn))) (\<lambda>_. Ret r))))"

definition checkHosts :: "cliEnv \<Rightarrow> genesisConfig \<Rightarrow> checkResult cli list" where
  "checkHosts E cfg = map (\<lambda>h. checkHost E h (ccKubernetesVersion (gcCluster cfg))) (gcHosts cfg)"

text \<open>An interleaving is a list of events tagged with the goroutine; each writes its own slot.\<close>

definition ofThread :: "nat \<Rightarrow> (nat \<times> clireq \<times> cliresp) list \<Rightarrow> history" where
  "ofThread i evs = map snd (filter (\<lambda>e. fst e = i) evs)"

definition runAll :: "'a cli list \<Rightarrow> (nat \<times> clireq \<times> cliresp) list \<Rightarrow> 'a list option" where
  "runAll ps evs = (if \<forall>i<length ps. replay (ps ! i) (ofThread i evs) \<noteq> None
     then Some (map (\<lambda>i. the (replay (ps ! i) (ofThread i evs))) [0..<length ps]) else None)"

text \<open>\<^verbatim>\<open>reportCheck\<close> prints the results and fails when a host is not usable.\<close>

definition reportCheck :: "checkResult list \<Rightarrow> unit result" where
  "reportCheck results =
     (let failed = length (filter (\<lambda>r. ckErr r \<noteq> None) results)
      in if failed > 0 then Inl (errorf (itoa (int failed) @ '' of '' @ itoa (int (length results)) @ '' host(s) are not usable''))
         else Inr ())"

subsection \<open>The pool\<close>

definition hostRow :: "host \<Rightarrow> string \<times> string \<times> string \<times> hostPhase \<times> string" where
  "hostRow h = (hName h, hsAddress (hSpec h), mapGet (mLabels (hMeta h)) RoleLabel,
     (if stPhase (hStatus h) = HostPhaseUnset then HostPhasePending else stPhase (hStatus h)),
     (case stClaimRef (hStatus h) of None \<Rightarrow> ''-'' | Some ref \<Rightarrow> orName ref))"

definition listFrom :: "cliEnv \<Rightarrow> genesisConfig \<Rightarrow> string \<Rightarrow> (string \<times> string \<times> string \<times> hostPhase \<times> string) list result cli" where
  "listFrom E cfg management = bindE (hintE (runFirst E ''init'') (NewClient management)) (\<lambda>c.
     bindE (wrapE ''list hosts'' (perform (Kube c (ListHostsIn (Some (cfgNamespace cfg)))) hostsOf)) (\<lambda>hosts.
     Ret (Inr (map hostRow (SortHosts hName hosts)))))"

definition inventoryList :: "cliEnv \<Rightarrow> options \<Rightarrow> (string \<times> string \<times> string \<times> hostPhase \<times> string) list result cli" where
  "inventoryList E o1 =
     (case LoadOptions E o1 of
        Inl e \<Rightarrow> Ret (Inl e)
      | Inr cfg \<Rightarrow> bindE (managementPath o1 cfg) (\<lambda>management.
          bind (stat management) (\<lambda>s.
          if (case s of Inl e \<Rightarrow> ekind e = ErrNotExist | Inr _ \<Rightarrow> False) \<and> management = BootstrapKubeconfig o1 then Ret (Inr [])
          else listFrom E cfg management)))"

subsection \<open>Trust\<close>

text \<open>
  \<^verbatim>\<open>retry.RetryOnConflict(retry.DefaultRetry, f)\<close>: five attempts in all, another one only after a
  conflict.
\<close>

fun retryOnConflict :: "nat \<Rightarrow> ('q, 'r, 'a result) cmd \<Rightarrow> ('q, 'r, 'a result) cmd" where
  "retryOnConflict 0 p = p"
| "retryOnConflict (Suc n) p = bind p (\<lambda>r. case r of
     Inl e \<Rightarrow> if ekind e = ErrConflict then retryOnConflict n p else Ret (Inl e)
   | Inr a \<Rightarrow> Ret (Inr a))"

definition defaultRetries :: nat where "defaultRetries = 4"

definition forgetKey :: "host \<Rightarrow> host" where
  "forgetKey h = h\<lparr>hStatus := (hStatus h)\<lparr>stObservedPublicKey := []\<rparr>\<rparr>"

definition clearPin :: "string \<Rightarrow> objectKey \<Rightarrow> unit result cli" where
  "clearPin c key = bindE (perform (Kube c (GetHostAt key)) hostOf) (\<lambda>h.
     bindE (perform (Kube c (UpdateHostStatusAt (forgetKey h))) hostOf) (\<lambda>_. Ret (Inr ())))"

definition trustHost :: "string \<Rightarrow> string \<Rightarrow> string \<Rightarrow> unit result cli" where
  "trustHost c namespace name =
     bindE (wrapE (''read host '' @ keyString (namespace, name)) (perform (Kube c (GetHostAt (namespace, name))) hostOf)) (\<lambda>h.
     if hsHostKeyPolicy (hSpec h) = HostKeyPolicyStrict
     then Ret (Inl (errorf (name @ '' uses the Strict policy, where the key to accept is spec.publicKey and changing it is a deliberate edit, not a command'')))
     else if stObservedPublicKey (hStatus h) = [] then Ret (Inr ())
     else wrapE (''forget the pinned key for '' @ name) (retryOnConflict defaultRetries (clearPin c (namespace, name))))"

definition inventoryTrust :: "cliEnv \<Rightarrow> options \<Rightarrow> string list \<Rightarrow> unit result cli" where
  "inventoryTrust E o1 names =
     (case LoadOptions E o1 of
        Inl e \<Rightarrow> Ret (Inl e)
      | Inr cfg \<Rightarrow> bindE (managementPath o1 cfg) (\<lambda>management.
          bindE (hintE (runFirst E ''init'') (NewClient management)) (\<lambda>c.
          eachE (trustHost c (cfgNamespace cfg)) names)))"

definition abbreviateKey :: "string \<Rightarrow> string" where
  "abbreviateKey authorizedKey =
     (let fs = KG_GoStrings.fields authorizedKey
      in if length fs < 2 \<or> length (fs ! 1) < 20 then authorizedKey
         else fs ! 0 @ '' '' @ take 10 (fs ! 1) @ ''...'' @ drop (length (fs ! 1) - 6) (fs ! 1))"


subsection \<open>The preflight only looks\<close>

lemma calls_liftR: "calls (\<lambda>q. P (Remote q)) p \<Longrightarrow> calls P (liftR p)"
proof (induction p)
  case (Call q k)
  have "calls P (case r of CRemote x \<Rightarrow> liftR (k x) | _ \<Rightarrow> Stuck)" for r using Call by (cases r) auto
  then show ?case using Call.prems by simp
qed auto

text \<open>The calls a preflight may make: read a key, connect, run one of three queries, close.\<close>

fun looksAt :: "hostConfig \<Rightarrow> clireq \<Rightarrow> bool" where
  "looksAt h (File (ReadFileAt p)) \<longleftrightarrow> p = hcfPrivateKeyPath h"
| "looksAt h (Remote (DialTCP a)) \<longleftrightarrow> a = joinHostPort (hcfAddress h) (itoa (if sint (hcfPort h) = 0 then 22 else sint (hcfPort h)))"
| "looksAt h (Remote (KeyExchange c)) \<longleftrightarrow> True"
| "looksAt h (Remote (UserAuth c au)) \<longleftrightarrow> auUser au = hcfUser h"
| "looksAt h (Remote (Exec c cmd inp)) \<longleftrightarrow> inp = None \<and> cmd \<in> {probeScript, ''id -u'', dirtyCheck}"
| "looksAt h (Remote (CloseConn c)) \<longleftrightarrow> True"
| "looksAt h _ \<longleftrightarrow> False"

lemma calls_typed [simp]:
  "calls P (dialTCP a) \<longleftrightarrow> P (DialTCP a)" "calls P (keyExchange c) \<longleftrightarrow> P (KeyExchange c)" "calls P (userAuth c au) \<longleftrightarrow> P (UserAuth c au)"
  "calls P (execCmd c cmd inp) \<longleftrightarrow> P (Exec c cmd inp)" "calls P (closeConn c) \<longleftrightarrow> P (CloseConn c)"
  by (auto simp: call_defs split: resp.split)


lemma authMethods_user: "authMethods L cfg = Inr au \<Longrightarrow> auUser au = cfUser cfg"
  by (auto simp: authMethods_def rbind_Inr_iff Let_def split: if_splits)

lemma Dial_calls:
  assumes "P (DialTCP (dialAddr cfg))" "\<And>c. P (KeyExchange c)" "\<And>c. P (CloseConn c)"
    and "\<And>c au. auUser au = cfUser cfg \<Longrightarrow> P (UserAuth c au)"
  shows "calls P (Dial L cfg)"
proof -
  have give: "calls P (bind (closeConn c) (\<lambda>_. Ret (x :: sshClient result)))" for c x
    by (rule calls_bind) (simp_all add: assms)
  show ?thesis
    unfolding Dial_def Let_def
    by (cases "authMethods L cfg")
      (auto simp: assms(1) [unfolded dialAddr_def] assms(2,3) authMethods_user intro!: calls_bind give assms(4) split: sum.split)
qed

lemma cliSshConfigFor_calls: "calls (looksAt h) (cliSshConfigFor h)"
  unfolding cliSshConfigFor_def wrapE_def by (auto intro!: calls_bindE calls_bind calls_perform)

lemma checkConn_calls: "calls (looksAt h) (checkConn h want conn)"
proof -
  have run: "calls (looksAt h) (liftR (Run conn cmd))" if "cmd \<in> {probeScript, ''id -u'', dirtyCheck}" for cmd
    using that by (intro calls_liftR) (simp add: Run_def runCmd_def calls_bind)
  have probe: "calls (looksAt h) (liftR (Probe conn))"
    unfolding Probe_def by (intro calls_liftR calls_bind) (auto simp: Run_def runCmd_def calls_bind split: option.split)
  show ?thesis
    unfolding checkConn_def by (auto intro!: calls_bind run probe split: sum.split option.split)
qed

lemma checkHost_calls: "calls (looksAt h) (checkHost E h want)"
proof -
  have dial: "calls (looksAt h) (liftR (Dial L (cliSshConfig h key)))" for L key
    by (intro calls_liftR Dial_calls) (simp_all add: dialAddr_def dialPort_def cliSshConfig_def)
  have conf: "calls (looksAt h) (bind (cliSshConfigFor h) f)"
    if f: "\<And>e. calls (looksAt h) (f (Inl e))" "\<And>key. calls (looksAt h) (f (Inr (cliSshConfig h key)))"
    for f :: "config result \<Rightarrow> checkResult cli"
  proof (cases "hcfPrivateKeyPath h = []")
    case False
    have "bind (cliSshConfigFor h) f = bind (perform (File (ReadFileAt (hcfPrivateKeyPath h))) textOf)
        (\<lambda>x. f (case x of Inl e \<Rightarrow> Inl (wrapf ''read private key'' e) | Inr key \<Rightarrow> Inr (cliSshConfig h key)))"
      using False by (simp add: cliSshConfigFor_def bindE_def wrapE_def bind_assoc)
        (rule arg_cong [where f = "bind _"], rule ext, simp split: sum.split)
    then show ?thesis using f by (auto intro!: calls_bind calls_perform split: sum.split)
  qed (simp add: cliSshConfigFor_def f)
  have close: "calls (looksAt h) (liftR (closeConn c))" for c by (intro calls_liftR) simp
  show ?thesis
    unfolding checkHost_def by (rule conf) (auto intro!: calls_bind dial checkConn_calls close split: sum.split)
qed


text \<open>
  The preflight changes nothing. Whatever a host answers and wherever the run is cut off,
  \<^verbatim>\<open>inventory check\<close> reads the private key of the host, connects to the configured address as the
  configured user, and sends no command but the probe, \<^verbatim>\<open>id -u\<close> and the test for leftovers of
  kubeadm, with nothing on their input; it touches no API server and no registry.
\<close>

theorem inventory_check_only_looks:
  assumes "cutoff (checkHost E h want) evs" "e \<in> set evs"
  shows "looksAt h (fst e)"
  by (rule calls_cutoff [OF checkHost_calls assms])

subsection \<open>What a passing host has\<close>

text \<open>The calls of a program of the SSH layer inside a command.\<close>

definition overSsh :: "trace \<Rightarrow> history" where
  "overSsh evs = map (\<lambda>(q, r). (Remote q, CRemote r)) evs"

lemma overSsh_simps [simp]:
  "overSsh [] = []" "overSsh ((q, r) # evs) = (Remote q, CRemote r) # overSsh evs"
  by (simp_all add: overSsh_def)

lemma replay_liftR: "replay (liftR p) evs = Some a \<Longrightarrow> \<exists>e. evs = overSsh e \<and> replay p e = Some a"
proof (induction p arbitrary: evs)
  case (Call q k)
  then obtain r es where e: "evs = (Remote q, r) # es" "replay (case r of CRemote x \<Rightarrow> liftR (k x) | _ \<Rightarrow> Stuck) es = Some a"
    by (auto simp: replay_Call)
  then obtain x where x: "r = CRemote x" "replay (liftR (k x)) es = Some a" by (cases r) auto
  from Call.IH [OF _ x(2)] obtain e' where "es = overSsh e'" "replay (k x) e' = Some a" by blast
  then show ?case using e(1) x(1) by (intro exI [of _ "(q, x) # e'"]) simp
qed auto

lemma replay_lift_Run:
  assumes "replay (liftR (Run c cmd)) evs = Some (res, err)"
  shows "\<exists>y. evs = [(Remote (Exec (scConn c) cmd None), CRemote (RExec y))] \<and> runReply cmd y = (res, err)"
  using replay_liftR [OF assms] by (auto simp: Run_def runCmd_def replay_run)

lemma runReply_succeeded: "runReply cmd y = (res, None) \<Longrightarrow> \<exists>out err. y = Done out err RunOk \<and> rsStdout res = out"
  by (auto simp: runReply_def Let_def split: execReply.splits runEnd.splits)

text \<open>What a result without an error and its warning rest on: the three commands of the check, on one connection.\<close>

lemma replay_lift_Probe:
  assumes "replay (liftR (Probe c)) evs = Some (Inr info)"
  shows "\<exists>out err. evs = [(Remote (Exec (scConn c) probeScript None), CRemote (RExec (Done out err RunOk)))] \<and>
    info = systemInfoOf out"
  using replay_liftR [OF assms] by (auto simp: Probe_def replay_ssh replay_run runReply_ok)

lemma checkConn_passed:
  assumes "replay (checkConn h want conn) evs = Some r" "ckErr r = None"
  shows "\<exists>probed pe out err d.
    (Remote (Exec (scConn conn) probeScript None), CRemote (RExec (Done probed pe RunOk))) \<in> set evs \<and>
    (Remote (Exec (scConn conn) ''id -u'' None), CRemote (RExec (Done out err RunOk))) \<in> set evs \<and> trimSpace out = ''0'' \<and>
    (Remote (Exec (scConn conn) dirtyCheck None), CRemote (RExec d)) \<in> set evs \<and>
    ckInfo r = Some (systemInfoOf probed) \<and> ckWarning r = warnings want (systemInfoOf probed) (runReply dirtyCheck d)"
proof -
  let ?root = "\<lambda>info (res, err). case err of
       Some e \<Rightarrow> Ret (checkFailed h (Some info) (wrapf ''check privileges'' e))
     | None \<Rightarrow>
         if trimSpace (rsStdout res) \<noteq> ''0''
         then Ret (checkFailed h (Some info) (errorf (''connects as uid '' @ trimSpace (rsStdout res) @ ''; kg needs root'')))
         else bind (liftR (Run conn dirtyCheck)) (\<lambda>d.
           Ret \<lparr>ckHost = h, ckInfo = Some info, ckErr = None, ckWarning = warnings want info d\<rparr>)"
  obtain e1 e2 p where p: "evs = e1 @ e2" "replay (liftR (Probe conn)) e1 = Some p"
    "replay (case p of Inl e \<Rightarrow> Ret (checkFailed h None e) | Inr info \<Rightarrow> bind (liftR (Run conn ''id -u'')) (?root info)) e2 = Some r"
    using assms(1) unfolding checkConn_def replay_bind [of "liftR (Probe conn)"] by blast
  obtain info where i: "p = Inr info" using p(3) assms(2) by (cases p) (auto simp: checkFailed_def)
  obtain probed pe where probe: "e1 = [(Remote (Exec (scConn conn) probeScript None), CRemote (RExec (Done probed pe RunOk)))]"
    "info = systemInfoOf probed" using replay_lift_Probe [OF p(2) [unfolded i]] by (elim exE conjE)
  obtain e3 e4 x where x: "e2 = e3 @ e4" "replay (liftR (Run conn ''id -u'')) e3 = Some x" "replay (?root info x) e4 = Some r"
    using p(3) [unfolded i sum.case] unfolding replay_bind [of "liftR (Run conn _)"] by (elim exE conjE)
  obtain res err where xx: "x = (res, err)" by (cases x)
  note u = x [unfolded xx]
  have n: "err = None" using u(3) assms(2) by (cases err) (auto simp: checkFailed_def)
  have z: "trimSpace (rsStdout res) = ''0''"
  proof (rule ccontr)
    assume nz: "trimSpace (rsStdout res) \<noteq> ''0''"
    show False using u(3) assms(2) unfolding n prod.case option.case if_P [OF nz] by (auto simp: checkFailed_def)
  qed
  obtain y where y: "e3 = [(Remote (Exec (scConn conn) ''id -u'' None), CRemote (RExec y))]" "runReply ''id -u'' y = (res, None)"
    using replay_lift_Run [OF u(2)] n by (elim exE conjE) (rule that, assumption, simp only:)
  obtain out er where o: "y = Done out er RunOk" "rsStdout res = out" using runReply_succeeded [OF y(2)] by (elim exE conjE)
  have "replay (bind (liftR (Run conn dirtyCheck)) (\<lambda>d.
      Ret \<lparr>ckHost = h, ckInfo = Some info, ckErr = None, ckWarning = warnings want info d\<rparr>)) e4 = Some r"
    using u(3) unfolding n prod.case option.case z by simp
  then obtain d0 where d0: "replay (liftR (Run conn dirtyCheck)) e4 = Some d0"
    "r = \<lparr>ckHost = h, ckInfo = Some info, ckErr = None, ckWarning = warnings want info d0\<rparr>"
    unfolding replay_bind [of "liftR (Run conn _)"] by auto
  obtain d where d: "e4 = [(Remote (Exec (scConn conn) dirtyCheck None), CRemote (RExec d))]" "runReply dirtyCheck d = d0"
    using replay_lift_Run [of conn dirtyCheck e4 "fst d0" "snd d0"] d0(1) by (auto simp only: prod.collapse)
  have set: "evs = e1 @ e3 @ e4" using p(1) u(1) by simp
  show ?thesis
    by (rule exI [of _ probed], rule exI [of _ pe], rule exI [of _ out], rule exI [of _ er], rule exI [of _ d])
      (simp add: set probe y(1) d o z [unfolded o(2)] d0(2))
qed

lemma checkHost_passed:
  assumes "replay (checkHost E h want) evs = Some r" "ckErr r = None"
  shows "\<exists>key conn au body. replay (checkConn h want conn) body = Some r \<and> set body \<subseteq> set evs \<and>
    (Remote (DialTCP (dialAddr (cliSshConfig h key))), CRemote (RConn (Inr (scConn conn)))) \<in> set evs \<and>
    (Remote (UserAuth (scConn conn) au), CRemote (RUnit (Inr ()))) \<in> set evs"
proof -
  obtain e1 e2 c where c: "evs = e1 @ e2" "replay (cliSshConfigFor h) e1 = Some c"
    "replay (case c of Inl e \<Rightarrow> Ret (checkFailed h None e)
     | Inr cfg \<Rightarrow> bind (liftR (Dial (ceSsh E) cfg)) (\<lambda>d. case d of
         Inl e \<Rightarrow> Ret (checkFailed h None e)
       | Inr conn \<Rightarrow> bind (checkConn h want conn) (\<lambda>r. bind (liftR (closeConn (scConn conn))) (\<lambda>_. Ret r)))) e2 = Some r"
    using assms(1) unfolding checkHost_def replay_bind [of "cliSshConfigFor h"] by blast
  obtain cfg where i: "c = Inr cfg" using c(3) assms(2) by (cases c) (auto simp: checkFailed_def)
  have "\<exists>key. cfg = cliSshConfig h key"
    using c(2) i by (auto simp: cliSshConfigFor_def replay_bindE split: if_splits)
  then obtain key where key: "cfg = cliSshConfig h key" ..
  obtain e3 e4 d where d: "e2 = e3 @ e4" "replay (liftR (Dial (ceSsh E) cfg)) e3 = Some d"
    "replay (case d of Inl e \<Rightarrow> Ret (checkFailed h None e)
       | Inr conn \<Rightarrow> bind (checkConn h want conn) (\<lambda>r. bind (liftR (closeConn (scConn conn))) (\<lambda>_. Ret r))) e4 = Some r"
    using c(3) [unfolded i sum.case] unfolding replay_bind [of "liftR (Dial _ _)"] by blast
  obtain conn where j: "d = Inr conn" using d(3) assms(2) by (cases d) (auto simp: checkFailed_def)
  obtain e where e: "e3 = overSsh e" "replay (Dial (ceSsh E) cfg) e = Some (Inr conn)" using replay_liftR [OF d(2)] j by blast
  obtain k au where "e = [(DialTCP (dialAddr cfg), RConn (Inr (scConn conn))), (KeyExchange (scConn conn), RKey (Inr k)),
      (UserAuth (scConn conn) au, RUnit (Inr ()))]" using replay_Dial_ok [OF e(2)] by blast
  then have dial: "e3 = [(Remote (DialTCP (dialAddr cfg)), CRemote (RConn (Inr (scConn conn)))),
      (Remote (KeyExchange (scConn conn)), CRemote (RKey (Inr k))), (Remote (UserAuth (scConn conn) au), CRemote (RUnit (Inr ())))]"
    using e(1) by simp
  obtain body e6 r' where b: "e4 = body @ e6" "replay (checkConn h want conn) body = Some r'"
    "replay (bind (liftR (closeConn (scConn conn))) (\<lambda>_. Ret r')) e6 = Some r"
    using d(3) [unfolded j sum.case] unfolding replay_bind [of "checkConn h want conn"] by blast
  have "r' = r" using b(3) unfolding replay_bind by auto
  then show ?thesis using b(1,2) c(1) d(1) dial key by (intro exI [of _ key] exI [of _ conn] exI [of _ au] exI [of _ body]) auto
qed

lemma warnings_Nil:
  assumes "warnings want info (runReply dirtyCheck d) = []"
  shows "\<forall>left err. d = Done left err RunOk \<longrightarrow> trimSpace left \<noteq> ''conf'' \<and> trimSpace left \<noteq> ''etcd''"
    "inContainerRuntime info \<noteq> []" "inKubeadmVersion info \<noteq> [] \<and> want \<noteq> [] \<longrightarrow> minorOf want = minorOf (inKubeadmVersion info)"
proof -
  have w: "dirtyWarning (runReply dirtyCheck d) = [] \<and> inContainerRuntime info \<noteq> [] \<and> kubeadmMismatch want (inKubeadmVersion info) = []"
    using assms by (auto simp: warnings_def Let_def joinWarnings_def split: if_splits)
  show "\<forall>left err. d = Done left err RunOk \<longrightarrow> trimSpace left \<noteq> ''conf'' \<and> trimSpace left \<noteq> ''etcd''"
    using w by (auto simp: dirtyWarning_def runReply_def)
  show "inContainerRuntime info \<noteq> []" using w by simp
  show "inKubeadmVersion info \<noteq> [] \<and> want \<noteq> [] \<longrightarrow> minorOf want = minorOf (inKubeadmVersion info)"
    using w by (auto simp: kubeadmMismatch_def split: if_splits)
qed

text \<open>
  C36. A host the preflight passes was reached at its configured address and logged in to, over one connection its probe ran
  and is what the result reports, and the user there is root. If there is no warning either, the probe
  found a container runtime, the minor version of its kubeadm, when both are known, is the one
  the configuration asks for, and the test for leftovers of an earlier kubeadm, if it could be
  run, found none; a test that could not be run gives no warning.
\<close>

theorem inventory_check_means_usable:
  assumes "replay (checkHost E h want) evs = Some r" "ckErr r = None"
  shows "\<exists>key conn au probed pe out err d.
    (Remote (DialTCP (dialAddr (cliSshConfig h key))), CRemote (RConn (Inr conn))) \<in> set evs \<and>
    (Remote (UserAuth conn au), CRemote (RUnit (Inr ()))) \<in> set evs \<and>
    (Remote (Exec conn probeScript None), CRemote (RExec (Done probed pe RunOk))) \<in> set evs \<and> ckInfo r = Some (systemInfoOf probed) \<and>
    (Remote (Exec conn ''id -u'' None), CRemote (RExec (Done out err RunOk))) \<in> set evs \<and> trimSpace out = ''0'' \<and>
    (Remote (Exec conn dirtyCheck None), CRemote (RExec d)) \<in> set evs \<and>
    (ckWarning r = [] \<longrightarrow>
       (\<forall>left err. d = Done left err RunOk \<longrightarrow> trimSpace left \<noteq> ''conf'' \<and> trimSpace left \<noteq> ''etcd'') \<and>
       inContainerRuntime (systemInfoOf probed) \<noteq> [] \<and>
       (inKubeadmVersion (systemInfoOf probed) \<noteq> [] \<and> want \<noteq> [] \<longrightarrow> minorOf want = minorOf (inKubeadmVersion (systemInfoOf probed))))"
proof -
  obtain key conn au body where b: "replay (checkConn h want conn) body = Some r" "set body \<subseteq> set evs"
    "(Remote (DialTCP (dialAddr (cliSshConfig h key))), CRemote (RConn (Inr (scConn conn)))) \<in> set evs"
    "(Remote (UserAuth (scConn conn) au), CRemote (RUnit (Inr ()))) \<in> set evs"
    using checkHost_passed [OF assms] by (elim exE conjE)
  obtain probed pe out err d where p:
    "(Remote (Exec (scConn conn) probeScript None), CRemote (RExec (Done probed pe RunOk))) \<in> set body"
    "(Remote (Exec (scConn conn) ''id -u'' None), CRemote (RExec (Done out err RunOk))) \<in> set body" "trimSpace out = ''0''"
    "(Remote (Exec (scConn conn) dirtyCheck None), CRemote (RExec d)) \<in> set body"
    "ckInfo r = Some (systemInfoOf probed)" "ckWarning r = warnings want (systemInfoOf probed) (runReply dirtyCheck d)"
    using checkConn_passed [OF b(1) assms(2)] by (elim exE conjE)
  show ?thesis
  proof (rule exI [of _ key], rule exI [of _ "scConn conn"], rule exI [of _ au], rule exI [of _ probed], rule exI [of _ pe],
      rule exI [of _ out], rule exI [of _ err], rule exI [of _ d], intro conjI impI)
    assume "ckWarning r = []"
    then have w: "warnings want (systemInfoOf probed) (runReply dirtyCheck d) = []" using p(6) by (simp only:)
    show "\<forall>left err. d = Done left err RunOk \<longrightarrow> trimSpace left \<noteq> ''conf'' \<and> trimSpace left \<noteq> ''etcd''"
      by (rule warnings_Nil(1) [OF w])
    show "inContainerRuntime (systemInfoOf probed) \<noteq> []" by (rule warnings_Nil(2) [OF w])
    assume "inKubeadmVersion (systemInfoOf probed) \<noteq> [] \<and> want \<noteq> []"
    then show "minorOf want = minorOf (inKubeadmVersion (systemInfoOf probed))" by (rule warnings_Nil(3) [OF w, rule_format])
  qed (rule b(3) b(4) p(3) p(5) subsetD [OF b(2) p(1)] subsetD [OF b(2) p(2)] subsetD [OF b(2) p(4)])+
qed


subsection \<open>Trust forgets a key and nothing else\<close>

definition readHost :: "string \<Rightarrow> objectKey \<Rightarrow> host \<Rightarrow> history \<Rightarrow> bool" where
  "readHost c key h hist \<longleftrightarrow> (Kube c (GetHostAt key), CHost (Inr h)) \<in> set hist"

text \<open>The only change \<^verbatim>\<open>trust\<close> makes: the status of a named host, as read, without its pinned key, after a read showed that its policy is not Strict.\<close>

definition trustRule :: "string \<Rightarrow> string list \<Rightarrow> history \<Rightarrow> clireq \<Rightarrow> bool" where
  "trustRule ns names hist q \<longleftrightarrow> (case q of
     Kube c (UpdateHostStatusAt h') \<Rightarrow> \<exists>name h h0. name \<in> set names \<and> readHost c (ns, name) h hist \<and> h' = forgetKey h \<and>
       readHost c (ns, name) h0 hist \<and> hsHostKeyPolicy (hSpec h0) \<noteq> HostKeyPolicyStrict
   | Kube c (GetHostAt k) \<Rightarrow> True
   | Registry d (RegistryGet a b) \<Rightarrow> True
   | LoadKubeconfig p \<Rightarrow> True | BuildClient p \<Rightarrow> True
   | _ \<Rightarrow> False)"

lemma stays_readHost: "stays (readHost c key h)"
  unfolding readHost_def by (rule stays_mem)

definition permitted :: "string \<Rightarrow> objectKey \<Rightarrow> history \<Rightarrow> bool" where
  "permitted c key hist \<longleftrightarrow> (\<exists>h0. readHost c key h0 hist \<and> hsHostKeyPolicy (hSpec h0) \<noteq> HostKeyPolicyStrict)"

lemma permitted_snoc: "permitted c key hist \<Longrightarrow> permitted c key (hist @ [e])"
  by (auto simp: permitted_def readHost_def)

lemma clearPin_wp:
  assumes "name \<in> set names" "permitted c (ns, name) hist"
  shows "wp (trustRule ns names) (clearPin c (ns, name)) (\<lambda>_. permitted c (ns, name)) hist"
proof -
  have upd: "trustRule ns names (hist @ [(Kube c (GetHostAt (ns, name)), CHost (Inr h))]) (Kube c (UpdateHostStatusAt (forgetKey h)))" for h
    using assms unfolding trustRule_def by (auto simp: permitted_def readHost_def)
  show ?thesis
    unfolding clearPin_def using assms(2)
    by (auto simp: wp_simps upd [simplified] permitted_snoc trustRule_def [of _ _ _ "Kube c (GetHostAt _)"] split: sum.split)
      (metis append.assoc append_Cons append_Nil permitted_snoc)+
qed

lemma retry_wp:
  assumes "\<And>hist. I hist \<Longrightarrow> wp G p (\<lambda>_. I) hist"
  shows "I hist \<Longrightarrow> wp G (retryOnConflict n p) (\<lambda>_. I) hist"
proof (induction n arbitrary: hist)
  case (Suc n)
  show ?case
    unfolding retryOnConflict.simps wp_bind
    by (rule wp_mono [OF assms [OF Suc.prems]]) (auto simp: wp_cases intro: Suc.IH)
qed (simp add: assms)

lemma trustHost_wp:
  assumes "name \<in> set names"
  shows "wp (trustRule ns names) (trustHost c ns name) (\<lambda>_ _. True) hist"
proof -
  have clear: "wp (trustRule ns names) (retryOnConflict defaultRetries (clearPin c (ns, name))) (\<lambda>_ _. True) hist'"
    if "permitted c (ns, name) hist'" for hist'
    by (rule wp_mono [OF retry_wp [OF clearPin_wp [OF assms] that]]) simp_all
  have ok: "permitted c (ns, name) (hist @ [(Kube c (GetHostAt (ns, name)), CHost (Inr h))])"
    if "hsHostKeyPolicy (hSpec h) \<noteq> HostKeyPolicyStrict" for h
    using that by (auto simp: permitted_def readHost_def)
  show ?thesis
    unfolding trustHost_def
    by (auto simp: wp_simps trustRule_def [of _ _ _ "Kube c (GetHostAt _)"] split: sum.split intro!: clear ok)
qed

lemma inventoryTrust_wp:
  assumes "LoadOptions E o1 = Inr cfg"
  shows "wp (trustRule (cfgNamespace cfg) names) (inventoryTrust E o1 names) (\<lambda>_ _. True) hist"
proof -
  let ?G = "trustRule (cfgNamespace cfg) names"
  have each: "wp ?G (eachE (trustHost c (cfgNamespace cfg)) names) (\<lambda>_ _. True) h" for c h
    by (rule wp_eachE [where I = "\<lambda>_. True"]) (auto intro: wp_mono [OF trustHost_wp] split: sum.split)
  have client: "wp ?G (bindE (hintE s (NewClient m)) (\<lambda>c. eachE (trustHost c (cfgNamespace cfg)) names)) (\<lambda>_ _. True) h" for s m h
    by (auto simp: NewClient_def wp_simps each trustRule_def [of _ _ _ "LoadKubeconfig _"] trustRule_def [of _ _ _ "BuildClient _"] split: sum.split)
  show ?thesis
    unfolding inventoryTrust_def assms sum.case wp_bindE [of _ "managementPath o1 cfg"]
    by (auto simp: managementPath_def registryGet_def wp_bindE [of _ "perform _ _"] wp_perform wp_cases client
        trustRule_def [of _ _ _ "Registry _ _"] split: sum.split option.split)
qed

text \<open>
  C37. \<^verbatim>\<open>inventory trust\<close> changes one field of the hosts it is given. At every point of every run,
  with conflicts and retries, the only write is the status of a named host exactly as it was
  read with its pinned key emptied, and a host under the Strict policy is never written.
\<close>

theorem inventory_trust_only_forgets_key:
  assumes "cutoff (inventoryTrust E o1 names) evs" "LoadOptions E o1 = Inr cfg" "i < length evs"
  shows "trustRule (cfgNamespace cfg) names (take i evs) (fst (evs ! i))"
  by (rule wp_cutoff [OF inventoryTrust_wp [OF assms(2)] assms(1,3)])

text \<open>The next connection then pins the key the machine presents.\<close>

lemma trust_repins:
  assumes "hsHostKeyPolicy (hSpec h) = HostKeyPolicyTOFU" "replay (connect L (forgetKey h)) evs = Some (Inr (conn, h'))"
  shows "stObservedPublicKey (hStatus h') = scHostKey conn"
proof -
  have "h' = pinKey (forgetKey h) (scHostKey conn)" by (rule replay_connect [OF assms(2)])
  then show ?thesis using assms(1) by (simp add: pinKey_def forgetKey_def)
qed


subsection \<open>A host that passes\<close>

definition exampleCheckHost :: hostConfig where
  "exampleCheckHost = \<lparr>hcfName = ''w-1'', hcfAddress = ''10.0.0.5'', hcfRole = CfgRoleWorker, hcfLabels = [], hcfUser = ''root'',
     hcfPort = 22, hcfPrivateKeyPath = ''id'', hcfPassphrase = [], hcfPassword = [], hcfHostKeyPolicy = PolicyTOFU, hcfPublicKey = []\<rparr>"

definition exampleProbed :: string where
  "exampleProbed = ''runtime=cri-o''"

text \<open>A host that answers as a prepared one does.\<close>

definition exampleRemote :: "req \<Rightarrow> resp" where
  "exampleRemote q = (case q of
     DialTCP a \<Rightarrow> RConn (Inr 7) | KeyExchange c \<Rightarrow> RKey (Inr ''key'')
   | Exec c cmd inp \<Rightarrow> RExec (Done (if cmd = ''id -u'' then ''0'' else if hd cmd = CHR ''i'' then [] else exampleProbed) [] RunOk)
   | _ \<Rightarrow> RUnit (Inr ()))"

definition exampleSite :: "clireq \<Rightarrow> cliresp" where
  "exampleSite q = (case q of File (ReadFileAt p) \<Rightarrow> CText (Inr ''pem'') | Remote r \<Rightarrow> CRemote (exampleRemote r) | _ \<Rightarrow> CUnit (Inr ()))"

lemma outcome_liftR: "(\<And>q. srv (Remote q) = CRemote (f q)) \<Longrightarrow> outcome srv (liftR p) = outcome f p"
  by (induction p) auto

lemma exampleProbed_info:
  "inContainerRuntime (systemInfoOf exampleProbed) = ''cri-o'' \<and> inKubeadmVersion (systemInfoOf exampleProbed) = []"
  by code_simp

lemma exampleRemote_run:
  "outcome exampleRemote (Run c cmd) = Some (runReply cmd (Done (if cmd = ''id -u'' then ''0'' else if hd cmd = CHR ''i'' then [] else exampleProbed) [] RunOk))"
  by (simp add: Run_def runCmd_def execCmd_def exampleRemote_def)

lemma exampleCommands: "probeScript \<noteq> ''id -u''" "hd probeScript \<noteq> CHR ''i''" "dirtyCheck \<noteq> ''id -u''" "hd dirtyCheck = CHR ''i''"
  "dirtyWarning (runReply dirtyCheck (Done [] [] RunOk)) = []" "trimSpace ''0'' = ''0''"
  by code_simp+

lemma exampleChecked:
  "\<exists>r. outcome exampleSite (checkHost exampleCE exampleCheckHost ''v1.34.1'') = Some r \<and> ckErr r = None \<and> ckWarning r = []"
proof -
  have remote: "outcome exampleSite (liftR p) = outcome exampleRemote p" for p :: "'a prog"
    by (rule outcome_liftR) (simp add: exampleSite_def)
  have dial: "\<exists>c. outcome exampleRemote (Dial exampleSshLib (cliSshConfig exampleCheckHost ''pem'')) = Some (Inr c)"
    by (simp add: Dial_def authMethods_def cliSshConfig_def exampleCheckHost_def exampleSshLib_def hostKeyCallback_def Let_def
        dialTCP_def keyExchange_def userAuth_def exampleRemote_def PolicyStrict_def PolicyTOFU_def PolicyInsecure_def)
  then obtain c where c: "outcome exampleRemote (Dial exampleSshLib (cliSshConfig exampleCheckHost ''pem'')) = Some (Inr c)" by blast
  have ok: "runReply cmd (Done out [] RunOk) = (\<lparr>rsStdout = out, rsStderr = [], rsExitCode = 0\<rparr>, None)" for cmd out
    by (simp add: runReply_def)
  have w: "warnings ''v1.34.1'' (systemInfoOf exampleProbed) (runReply dirtyCheck (Done [] [] RunOk)) = []"
    using exampleProbed_info by (simp add: warnings_def exampleCommands kubeadmMismatch_def)
  have probe: "outcome exampleRemote (Probe c) = Some (Inr (systemInfoOf exampleProbed))"
    by (simp add: Probe_def exampleRemote_run ok exampleCommands)
  have conn: "outcome exampleSite (checkConn exampleCheckHost ''v1.34.1'' c) =
      Some \<lparr>ckHost = exampleCheckHost, ckInfo = Some (systemInfoOf exampleProbed), ckErr = None, ckWarning = []\<rparr>"
    using w by (simp add: checkConn_def remote probe exampleRemote_run ok exampleCommands)
  have cfg: "outcome exampleSite (cliSshConfigFor exampleCheckHost) = Some (Inr (cliSshConfig exampleCheckHost ''pem''))"
    by (simp add: cliSshConfigFor_def exampleCheckHost_def exampleSite_def)
  have close: "outcome exampleRemote (closeConn n) = Some ()" for n by (simp add: closeConn_def exampleRemote_def)
  have lib: "ceSsh exampleCE = exampleSshLib" by (simp add: exampleCliEnv_def)
  show ?thesis by (simp add: checkHost_def cfg remote lib c conn close)
qed

theorem inventory_check_means_usable_witness:
  "\<exists>evs r probed. replay (checkHost exampleCE exampleCheckHost ''v1.34.1'') evs = Some r \<and> ckErr r = None \<and>
     ckInfo r = Some (systemInfoOf probed) \<and> inContainerRuntime (systemInfoOf probed) \<noteq> []"
proof -
  obtain r where r: "outcome exampleSite (checkHost exampleCE exampleCheckHost ''v1.34.1'') = Some r" "ckErr r = None" "ckWarning r = []"
    using exampleChecked by (elim exE conjE)
  from outcome_replay [OF r(1)] obtain evs where e: "replay (checkHost exampleCE exampleCheckHost ''v1.34.1'') evs = Some r"
    by (elim exE conjE)
  from inventory_check_means_usable [OF e r(2)] obtain probed where
    "ckInfo r = Some (systemInfoOf probed)" "inContainerRuntime (systemInfoOf probed) \<noteq> []"
    using r(3) by (elim exE conjE) (erule impE, assumption, elim conjE, rule that)
  then show ?thesis using e r(2) by (intro exI [of _ evs] exI [of _ r] exI [of _ probed] conjI)
qed

theorem inventory_check_only_looks_witness:
  "\<exists>evs. evs \<noteq> [] \<and> cutoff (checkHost exampleCE exampleCheckHost ''v1.34.1'') evs \<and> (\<forall>e\<in>set evs. looksAt exampleCheckHost (fst e))"
proof -
  have c: "cutoff (checkHost exampleCE exampleCheckHost ''v1.34.1'') [(File (ReadFileAt ''id''), CText (Inr ''pem''))]"
    by (simp add: checkHost_def cliSshConfigFor_def wrapE_def bindE_def perform_def exampleCheckHost_def)
  have "looksAt exampleCheckHost (fst (File (ReadFileAt ''id''), CText (Inr ''pem'')))"
    by (rule inventory_check_only_looks [OF c]) simp
  then show ?thesis using c by (intro exI [of _ "[(File (ReadFileAt ''id''), CText (Inr ''pem''))]"]) simp
qed

definition examplePinned :: host where
  "examplePinned = pinKey exampleTofuHost ''ssh-ed25519 AkeyZ''"

definition exampleTrust :: "string \<Rightarrow> history" where
  "exampleTrust c = [(Registry ''/root/.kg'' (RegistryGet ''lab'' ''lab''), CRecord (Inr None)),
      (LoadKubeconfig c, CUnit (Inr ())), (BuildClient c, CUnit (Inr ())),
      (Kube c (GetHostAt (''lab'', ''kg-worker-1'')), CHost (Inr examplePinned)),
      (Kube c (GetHostAt (''lab'', ''kg-worker-1'')), CHost (Inr examplePinned)),
      (Kube c (UpdateHostStatusAt (forgetKey examplePinned)), CHost (Inr (forgetKey examplePinned)))]"

theorem inventory_trust_only_forgets_key_witness:
  "trustRule (cfgNamespace exampleLoaded) [''kg-worker-1''] (take 5 (exampleTrust (BootstrapKubeconfig exampleOptions)))
     (fst (exampleTrust (BootstrapKubeconfig exampleOptions) ! 5))"
proof -
  have n: "cfgName exampleLoaded = ''lab''" "cfgNamespace exampleLoaded = ''lab''" by code_simp+
  have d: "opStateDir exampleOptions = ''/root/.kg''" by (simp add: exampleOptions_def)
  have h: "hsHostKeyPolicy (hSpec examplePinned) \<noteq> HostKeyPolicyStrict" "stObservedPublicKey (hStatus examplePinned) \<noteq> []"
    by code_simp+
  have c: "cutoff (inventoryTrust exampleCE exampleOptions [''kg-worker-1'']) (exampleTrust (BootstrapKubeconfig exampleOptions))"
    using h by (simp add: inventoryTrust_def exampleLoad managementPath_def registryGet_def NewClient_def wrapE_def hintE_def bindE_def
        perform_def trustHost_def clearPin_def defaultRetries_def eval_nat_numeral exampleTrust_def n d)
  have i: "5 < length (exampleTrust (BootstrapKubeconfig exampleOptions))" by (simp add: exampleTrust_def)
  show ?thesis by (rule inventory_trust_only_forgets_key [OF c exampleLoad i])
qed

end
