(* ===== verification/KG_Eject.thy ===== *)
theory KG_Eject
  imports KG_CliInventory
begin

text \<open>
  The life of the genesis node: \<^verbatim>\<open>init\<close> (\<^verbatim>\<open>cli/init.go\<close>), \<^verbatim>\<open>eject\<close> (\<^verbatim>\<open>cli/pivot.go\<close>, \<^verbatim>\<open>cli/image.go\<close>) and \<^verbatim>\<open>reset\<close>
  (\<^verbatim>\<open>cli/reset.go\<close>).
\<close>

subsection \<open>Images\<close>

definition providerImageFor :: "cliEnv \<Rightarrow> string \<Rightarrow> string result" where
  "providerImageFor E override =
     (if override \<noteq> [] then Inr override
      else if ceImage E = [] then Inl (errorf ''this build carries no controller image; pass --provider-image'')
      else Inr (ceImage E))"

definition eligible :: "string \<Rightarrow> host \<Rightarrow> bool" where
  "eligible clusterName h \<longleftrightarrow>
     (let owner = mapGet (mLabels (hMeta h)) ClusterNameLabel
      in mDeletionTimestamp (hMeta h) = None \<and> \<not> hsUnhealthy (hSpec h) \<and>
         \<not> (owner \<noteq> [] \<and> owner \<noteq> clusterName) \<and> \<not> (stClaimRef (hStatus h) \<noteq> None \<and> owner \<noteq> clusterName))"

definition imageHosts :: "string \<Rightarrow> genesisConfig \<Rightarrow> hostConfig list result cli" where
  "imageHosts c cfg =
     bindE (wrapE (''list image recipients for '' @ cfgName cfg) (perform (Kube c (ListHostsIn (Some (cfgNamespace cfg)))) hostsOf)) (\<lambda>hosts.
     Ret (Inr (filter (\<lambda>h. \<exists>x\<in>set hosts. eligible (cfgName cfg) x \<and> hName x = hcfName h) (gcHosts cfg))))"

definition importCommand :: string where "importCommand = ''ctr --namespace k8s.io images import -''"

text \<open>
  The archive that \<^verbatim>\<open>docker save\<close> streams into the remote command is not a value of the model: the
  command's input is empty here.
\<close>

definition importImage :: "string \<Rightarrow> sshClient \<Rightarrow> unit result cli" where
  "importImage img conn =
     bindE (wrapE ''pipe docker save'' (perform (Tool (DockerPipe img)) unitOf)) (\<lambda>_.
     bindE (wrapE ''run docker save'' (perform (Tool (DockerStart img)) unitOf)) (\<lambda>_.
     bind (liftR (RunWithInput conn importCommand [])) (\<lambda>(res, runErr).
     bindE (wrapE ''docker save'' (perform (Tool DockerWait) unitOf)) (\<lambda>_.
     Ret (case runErr of Some e \<Rightarrow> Inl (hintf ('': '' @ trimSpace (rsStderr res)) e) | None \<Rightarrow> Inr ())))))"

definition seedHost :: "cliEnv \<Rightarrow> string \<Rightarrow> hostConfig \<Rightarrow> unit result cli" where
  "seedHost E img h = bindE (cliSshConfigFor h) (\<lambda>cfg. bindE (liftR (Dial (ceSsh E) cfg)) (\<lambda>conn.
     bind (importImage img conn) (\<lambda>r. bind (liftR (closeConn (scConn conn))) (\<lambda>_. Ret r))))"

definition seedProviderImage :: "cliEnv \<Rightarrow> hostConfig list \<Rightarrow> string \<Rightarrow> unit result cli" where
  "seedProviderImage E hosts img = eachE (\<lambda>h. wrapE (''seed '' @ img @ '' onto '' @ hcfName h) (seedHost E img h)) hosts"

subsection \<open>Init\<close>

definition providerDeployment :: string where "providerDeployment = ''kgenesis-controller-manager''"
definition providerContainer :: string where "providerContainer = ''manager''"

definition installProvider :: "cliEnv \<Rightarrow> string \<Rightarrow> string \<Rightarrow> unit result cli" where
  "installProvider E kubeconfig img = bindE (NewClient kubeconfig) (\<lambda>c.
     case DecodeManifest (ceDecode E) (ceProviderComponents E) of
       Inl e \<Rightarrow> Ret (Inl e)
     | Inr objects \<Rightarrow>
         (case SetDeploymentImage providerDeployment providerContainer img objects of
            Inl e \<Rightarrow> Ret (Inl e)
          | Inr objects' \<Rightarrow> ApplyObjects c objects'))"

text \<open>
  \<^verbatim>\<open>waitForCRD\<close>: \<open>noMatch\<close> is \<^verbatim>\<open>meta.IsNoMatchError\<close>. The loop reads the clock against its own two
  minutes and waits in steps of two seconds within the context; \<open>remaining\<close> is what is left of
  the context's deadline.
\<close>

definition crdInterval :: int where "crdInterval = seconds 2"

function waitForCRD :: "(goerror \<Rightarrow> bool) \<Rightarrow> string \<Rightarrow> string \<Rightarrow> int \<Rightarrow> int \<Rightarrow> unit result cli" where
  "waitForCRD noMatch c namespace deadline remaining =
     bind (perform (Kube c (ListHostsIn (Some namespace))) hostsOf) (\<lambda>r. case r of
       Inr _ \<Rightarrow> Ret (Inr ())
     | Inl e \<Rightarrow>
         if \<not> noMatch e then Ret (Inl (wrapf ''wait for the Host CRD'' e))
         else bind (perform ClockNow timeOf) (\<lambda>now.
           if deadline < now then Ret (Inl (errorf ''the Host CRD did not become available in time''))
           else bind (perform (Wait crdInterval) elapsedOf) (\<lambda>elapsed.
             if \<not> elapsed \<or> remaining < crdInterval then Ret (Inl deadlineExceeded)
             else waitForCRD noMatch c namespace deadline (remaining - crdInterval))))"
  by pat_completeness auto
termination
  by (relation "measure (\<lambda>(noMatch, c, namespace, deadline, remaining). nat remaining)") (auto simp: crdInterval_def seconds_def)

declare waitForCRD.simps [simp del]

definition inventoryObjects :: "objects \<Rightarrow> clientObject list" where
  "inventoryObjects objs = ONamespace (obNamespace objs) # map OSecret (obSecrets objs) @ map OHost (obHosts objs)"

definition applyInventory :: "cliEnv \<Rightarrow> (goerror \<Rightarrow> bool) \<Rightarrow> string \<Rightarrow> genesisConfig \<Rightarrow> int \<Rightarrow> nat result cli" where
  "applyInventory E noMatch kubeconfig cfg remaining = bindE (NewClient kubeconfig) (\<lambda>c.
     case RenderConfig (ceConfig E) cfg of
       Inl e \<Rightarrow> Ret (Inl e)
     | Inr objs \<Rightarrow>
         bind (perform ClockNow timeOf) (\<lambda>now.
         bindE (waitForCRD noMatch c (cfgNamespace cfg) (now + seconds 120) remaining) (\<lambda>_.
         bindE (Apply c (inventoryObjects objs)) (\<lambda>_. Ret (Inr (length (obHosts objs)))))))"

definition initCluster :: "cliEnv \<Rightarrow> (goerror \<Rightarrow> bool) \<Rightarrow> options \<Rightarrow> genesisConfig \<Rightarrow> string \<Rightarrow> bool \<Rightarrow> int \<Rightarrow> unit result cli" where
  "initCluster E noMatch o1 cfg providerImage loadImage waitTimeout =
     (let kubeconfig = BootstrapKubeconfig o1; name = bcClusterName (gcBootstrap cfg)
      in bindE (kindCreate name \<lparr>coNodeImage = bcNodeImage (gcBootstrap cfg), coKubeconfigPath = kubeconfig\<rparr>) (\<lambda>_.
         bindE (Init \<lparr>ioKubeconfigPath = kubeconfig, ioVersion = bcCAPIVersion (gcBootstrap cfg), ioInfrastructureProvider = [],
           ioWaitTimeout = waitTimeout\<rparr>) (\<lambda>_.
         case providerImageFor E providerImage of
           Inl e \<Rightarrow> Ret (Inl e)
         | Inr img \<Rightarrow>
             bindE (installProvider E kubeconfig img) (\<lambda>_.
             bind (if loadImage then Ret True else ImageAvailableLocally img) (\<lambda>load.
             bindE (if load then LoadImage name img else Ret (Inr ())) (\<lambda>_.
             bindE (applyInventory E noMatch kubeconfig cfg waitTimeout) (\<lambda>_. Ret (Inr ()))))))))"

definition initCommand :: "cliEnv \<Rightarrow> (goerror \<Rightarrow> bool) \<Rightarrow> options \<Rightarrow> string \<Rightarrow> bool \<Rightarrow> int \<Rightarrow> unit result cli" where
  "initCommand E noMatch o1 providerImage loadImage waitTimeout =
     (case LoadOptions E o1 of
        Inl e \<Rightarrow> Ret (Inl e)
      | Inr cfg \<Rightarrow> bindE (requireGenesisManaged E o1 cfg) (\<lambda>_. initCluster E noMatch o1 cfg providerImage loadImage waitTimeout))"

subsection \<open>Reset\<close>

text \<open>\<^verbatim>\<open>kindCluster.Delete\<close> and \<^verbatim>\<open>os.Remove\<close>, which is not an error when the file is missing.\<close>

definition deleteBootstrap :: "string \<Rightarrow> string \<Rightarrow> unit result cli" where
  "deleteBootstrap name kubeconfig = bindE (kindDelete name kubeconfig) (\<lambda>_.
     bind (perform (File (RemoveAt kubeconfig)) unitOf) (\<lambda>r. Ret (case r of
       Inl e \<Rightarrow> if ekind e = ErrNotExist then Inr () else Inl e
     | Inr _ \<Rightarrow> Inr ())))"

definition resetCommand :: "cliEnv \<Rightarrow> options \<Rightarrow> string \<Rightarrow> bool \<Rightarrow> unit result cli" where
  "resetCommand E o1 clusterName yes =
     (case (if clusterName \<noteq> [] then Inr clusterName
            else case LoadOptions E o1 of
                   Inl e \<Rightarrow> Inl (hintf ([CHR 0x0A, CHR 0x0A] @ ''Pass --name to delete a bootstrap cluster without reading the config'') e)
                 | Inr cfg \<Rightarrow> Inr (bcClusterName (gcBootstrap cfg))) of
        Inl e \<Rightarrow> Ret (Inl e)
      | Inr name \<Rightarrow> bindE (kindExists name) (\<lambda>running.
          if \<not> running \<or> \<not> yes then Ret (Inr ()) else deleteBootstrap name (BootstrapKubeconfig o1)))"


subsection \<open>Eject: may the cluster manage itself\<close>

definition minSelfManagedControlPlanes :: int where "minSelfManagedControlPlanes = 3"

text \<open>\<^verbatim>\<open>spare[role]\<close>: the free hosts under a role label.\<close>

definition spare :: "host list \<Rightarrow> string \<Rightarrow> nat" where
  "spare hosts role = length (filter (\<lambda>h. \<not> (stClaimRef (hStatus h) \<noteq> None \<or> stPhase (hStatus h) \<noteq> HostPhaseAvailable) \<and>
     mapGet (mLabels (hMeta h)) RoleLabel = role) hosts)"

definition selfManageProblems :: "genesisConfig \<Rightarrow> host list \<Rightarrow> string list" where
  "selfManageProblems cfg hosts =
     (let replicas = ccControlPlaneReplicas (gcCluster cfg)
      in (if sint replicas < minSelfManagedControlPlanes
          then [''the control plane has '' @ itoa (sint replicas) @ '' replica(s); etcd needs '' @ itoa minSelfManagedControlPlanes @
                '' to keep quorum while one is replaced''] else []) @
         (if spare hosts RoleControlPlane = 0 then [''no control plane host is free, so the control plane can never be rolled''] else []) @
         (if length (gcWorkers cfg) > 0 \<and> spare hosts RoleWorker = 0
          then [''no worker host is free, so a worker pool can never be rolled''] else []))"

definition checkSelfManageable :: "cliEnv \<Rightarrow> string \<Rightarrow> genesisConfig \<Rightarrow> unit result cli" where
  "checkSelfManageable E c cfg =
     bindE (wrapE (''read the host pool in '' @ cfgNamespace cfg) (perform (Kube c (ListHostsIn (Some (cfgNamespace cfg)))) hostsOf)) (\<lambda>hosts.
     let problems = selfManageProblems cfg hosts
     in if length problems = 0 then Ret (Inr ())
        else Ret (Inl (errorf (cfgName cfg @ '' cannot manage itself:'' @ [CHR 0x0A] @ ''  - '' @
          joinWith ([CHR 0x0A] @ ''  - '') problems @ [CHR 0x0A, CHR 0x0A] @ ''Add hosts to the pool and retry, or run `'' @
          invoke E ''eject'' @ ''` to release it instead''))))"

subsection \<open>Eject: pausing and moving\<close>

definition pauseOnce :: "string \<Rightarrow> objectKey \<Rightarrow> unit result cli" where
  "pauseOnce c key = bindE (perform (Kube c (GetLiveCluster key)) liveOf) (\<lambda>cl.
     if lcPaused cl = Some True then Ret (Inr ())
     else perform (Kube c (UpdateLiveCluster (cl\<lparr>lcPaused := Some True\<rparr>))) unitOf)"

definition pauseCluster :: "string \<Rightarrow> genesisConfig \<Rightarrow> unit result cli" where
  "pauseCluster c cfg =
     (let key = (cfgNamespace cfg, cfgName cfg)
      in wrapE (''release cluster '' @ keyString key) (retryOnConflict defaultRetries (pauseOnce c key)))"

definition countInventory :: "string \<Rightarrow> string \<Rightarrow> (nat \<times> nat) result cli" where
  "countInventory c namespace =
     bindE (wrapE (''count the hosts in '' @ namespace) (perform (Kube c (ListHostsIn (Some namespace))) hostsOf)) (\<lambda>hosts.
     bindE (wrapE (''count the host machines in '' @ namespace) (perform (Kube c (ListHostMachinesIn namespace)) hostMachinesOf)) (\<lambda>machines.
     Ret (Inr (length hosts, length machines))))"

definition notPresent :: "objectKey \<Rightarrow> string" where
  "notPresent key = ''cluster '' @ keyString key @
     '' is not present in the target cluster after the move, so the bootstrap cluster was left alone''"

definition leftBehind :: "string \<Rightarrow> nat \<times> nat \<Rightarrow> nat \<times> nat \<Rightarrow> goerror" where
  "leftBehind name held landed = errorf (''the move left part of '' @ name @ '' behind: the genesis node had '' @
     itoa (int (fst held)) @ '' host(s) and '' @ itoa (int (snd held)) @ '' host machine(s), '' @ name @ '' has '' @
     itoa (int (fst landed)) @ '' and '' @ itoa (int (snd landed)) @ ''. The bootstrap cluster was left alone'')"

definition verifyMoved :: "string \<Rightarrow> string \<Rightarrow> string \<Rightarrow> nat \<times> nat \<Rightarrow> unit result cli" where
  "verifyMoved kubeconfig namespace name held = bindE (NewClient kubeconfig) (\<lambda>c.
     bindE (wrapE (notPresent (namespace, name)) (perform (Kube c (GetLiveCluster (namespace, name))) liveOf)) (\<lambda>_.
     bindE (countInventory c namespace) (\<lambda>landed.
     if landed \<noteq> held then Ret (Inl (leftBehind name held landed)) else Ret (Inr ()))))"

definition installTargetProviders :: "cliEnv \<Rightarrow> string \<Rightarrow> string \<Rightarrow> string \<Rightarrow> int \<Rightarrow> unit result cli" where
  "installTargetProviders E kubeconfig capiVersion providerImage timeout =
     bindE (Init \<lparr>ioKubeconfigPath = kubeconfig, ioVersion = capiVersion, ioInfrastructureProvider = [], ioWaitTimeout = timeout\<rparr>) (\<lambda>_.
     case providerImageFor E providerImage of
       Inl e \<Rightarrow> Ret (Inl e)
     | Inr img \<Rightarrow> installProvider E kubeconfig img)"

record moveRequest =
  mqCfg :: genesisConfig
  mqBootstrapClient :: string
  mqBootstrapKubeconfig :: string
  mqWorkloadKubeconfig :: string
  mqProviderImage :: string
  mqWaitTimeout :: int
  mqDryRun :: bool

definition seedIfLocal :: "cliEnv \<Rightarrow> moveRequest \<Rightarrow> string \<Rightarrow> unit result cli" where
  "seedIfLocal E req img = bind (ImageAvailableLocally img) (\<lambda>here.
     if \<not> here then Ret (Inr ())
     else bindE (imageHosts (mqBootstrapClient req) (mqCfg req)) (\<lambda>hosts. seedProviderImage E hosts img))"

definition moveToCluster :: "cliEnv \<Rightarrow> moveRequest \<Rightarrow> unit result cli" where
  "moveToCluster E req =
     (case providerImageFor E (mqProviderImage req) of
        Inl e \<Rightarrow> Ret (Inl e)
      | Inr img \<Rightarrow>
          (let ns = cfgNamespace (mqCfg req)
           in bindE (seedIfLocal E req img) (\<lambda>_.
              bindE (installTargetProviders E (mqWorkloadKubeconfig req) (bcCAPIVersion (gcBootstrap (mqCfg req)))
                (mqProviderImage req) (mqWaitTimeout req)) (\<lambda>_.
              bindE (countInventory (mqBootstrapClient req) ns) (\<lambda>held.
              bindE (Move \<lparr>moFromKubeconfig = mqBootstrapKubeconfig req, moToKubeconfig = mqWorkloadKubeconfig req,
                moNamespace = ns, moDryRun = mqDryRun req\<rparr>) (\<lambda>_.
              if mqDryRun req then Ret (Inr ())
              else verifyMoved (mqWorkloadKubeconfig req) ns (cfgName (mqCfg req)) held))))))"

subsection \<open>Eject: what is left\<close>

definition stillManaged :: "string \<Rightarrow> liveCluster \<Rightarrow> bool" where
  "stillManaged ejected cl \<longleftrightarrow> mNamespace (lcMeta cl) \<noteq> ejected \<and> lcPaused cl \<noteq> Some True"

definition clustersRemaining :: "string \<Rightarrow> string \<Rightarrow> string list result cli" where
  "clustersRemaining c ejected =
     bindE (wrapE ''list the clusters still managed here'' (perform (Kube c ListLiveClusters) livesOf)) (\<lambda>cls.
     Ret (Inr (sortStrings (map (\<lambda>cl. mNamespace (lcMeta cl) @ ''/'' @ mName (lcMeta cl)) (filter (stillManaged ejected) cls)))))"

subsection \<open>Eject\<close>

definition notReadyYet :: "cliEnv \<Rightarrow> genesisConfig \<Rightarrow> summary \<Rightarrow> goerror" where
  "notReadyYet E cfg s = errorf (''cluster '' @ cfgName cfg @ '' is not ready yet (control plane '' @
     itoa (sint (suControlPlaneReady s)) @ ''/'' @ itoa (sint (suControlPlaneDesired s)) @ '', machines '' @
     itoa (sint (suMachinesRunning s)) @ ''/'' @ itoa (sint (suMachinesDesired s)) @ ''); run `'' @
     invoke E ''cluster status --watch'' @ ''`'')"

record ejectFlags =
  efDryRun :: bool
  efKeepBootstrap :: bool
  efSelfManage :: bool
  efProviderImage :: string
  efWaitTimeout :: int

text \<open>Up to the point where the cluster is let go: it is ready, and its kubeconfig is saved.\<close>

definition ejectPrepare :: "cliEnv \<Rightarrow> options \<Rightarrow> genesisConfig \<Rightarrow> ejectFlags \<Rightarrow> string result cli" where
  "ejectPrepare E o1 cfg f =
     (let bootstrapKubeconfig = BootstrapKubeconfig o1; workloadKubeconfig = workloadPath o1 (cfgNamespace cfg) (cfgName cfg)
      in bindE (hintE (runFirst E ''init'') (NewClient bootstrapKubeconfig)) (\<lambda>c.
         bindE (clusterSummary E c cfg) (\<lambda>s.
         if \<not> ready s then Ret (Inl (notReadyYet E cfg s))
         else bindE (GetKubeconfig bootstrapKubeconfig (cfgName cfg) (cfgNamespace cfg)) (\<lambda>kubeconfig.
           bindE (writeKubeconfig workloadKubeconfig kubeconfig) (\<lambda>_.
           bindE (if \<not> efDryRun f then remember E o1 cfg Managed else Ret (Inr ())) (\<lambda>_.
           Ret (Inr c)))))))"

definition ejectHandover :: "cliEnv \<Rightarrow> options \<Rightarrow> genesisConfig \<Rightarrow> ejectFlags \<Rightarrow> string \<Rightarrow> unit result cli" where
  "ejectHandover E o1 cfg f c =
     (if efSelfManage f
      then bindE (checkSelfManageable E c cfg) (\<lambda>_. moveToCluster E \<lparr>mqCfg = cfg, mqBootstrapClient = c,
        mqBootstrapKubeconfig = BootstrapKubeconfig o1, mqWorkloadKubeconfig = workloadPath o1 (cfgNamespace cfg) (cfgName cfg),
        mqProviderImage = efProviderImage f, mqWaitTimeout = efWaitTimeout f, mqDryRun = efDryRun f\<rparr>)
      else if efDryRun f then Ret (Inr ())
      else pauseCluster c cfg)"

definition ejectedMode :: "ejectFlags \<Rightarrow> string" where
  "ejectedMode f = (if efSelfManage f then SelfManaged else Released)"

definition ejectFinish :: "cliEnv \<Rightarrow> options \<Rightarrow> genesisConfig \<Rightarrow> ejectFlags \<Rightarrow> string \<Rightarrow> unit result cli" where
  "ejectFinish E o1 cfg f c =
     bindE (wrapE ''handover completed, but the registry could not be updated; the genesis node was kept''
       (remember E o1 cfg (ejectedMode f))) (\<lambda>_.
     bindE (clustersRemaining c (cfgNamespace cfg)) (\<lambda>remaining.
     if efKeepBootstrap f then Ret (Inr ())
     else if length remaining > 0 then Ret (Inr ())
     else deleteBootstrap (bcClusterName (gcBootstrap cfg)) (BootstrapKubeconfig o1)))"

definition ejectCommand :: "cliEnv \<Rightarrow> options \<Rightarrow> ejectFlags \<Rightarrow> unit result cli" where
  "ejectCommand E o1 f =
     (case LoadOptions E o1 of
        Inl e \<Rightarrow> Ret (Inl e)
      | Inr cfg \<Rightarrow> bindE (requireGenesisManaged E o1 cfg) (\<lambda>_.
          bindE (ejectPrepare E o1 cfg f) (\<lambda>c.
          bindE (ejectHandover E o1 cfg f c) (\<lambda>_.
          if efDryRun f then Ret (Inr ()) else ejectFinish E o1 cfg f c))))"


subsection \<open>Rules for the steps of a command\<close>

lemma calls_wrapE: "calls P p \<Longrightarrow> calls P (wrapE s p)" "calls P p \<Longrightarrow> calls P (hintE s p)"
  unfolding wrapE_def hintE_def by (rule calls_bind, simp_all)+

lemma calls_eachE: "(\<And>x. x \<in> set xs \<Longrightarrow> calls P (f x)) \<Longrightarrow> calls P (eachE f xs)"
  by (induction xs) (auto intro!: calls_bindE)

lemma calls_retry: "calls P p \<Longrightarrow> calls P (retryOnConflict n p)"
  by (induction n) (auto intro!: calls_bind split: sum.split)

lemma calls_Ret: "calls P (Ret a)" by simp

lemma calls_branch:
  "calls P p \<Longrightarrow> calls P q \<Longrightarrow> calls P (if b then p else q)"
  "(\<And>e. calls P (f e)) \<Longrightarrow> (\<And>x. calls P (g x)) \<Longrightarrow> calls P (case r of Inl e \<Rightarrow> f e | Inr x \<Rightarrow> g x)"
  "calls P p \<Longrightarrow> (\<And>x. calls P (k x)) \<Longrightarrow> calls P (case y of None \<Rightarrow> p | Some x \<Rightarrow> k x)"
  "(\<And>u v. calls P (w u v)) \<Longrightarrow> calls P (case z of (u, v) \<Rightarrow> w u v)"
  by (simp_all split: sum.split option.split prod.split)

lemmas calls_intros = calls_bind calls_bindE calls_perform calls_wrapE calls_eachE calls_retry calls_Ret calls_branch

lemma wp_step:
  assumes "calls P p" "\<And>h q. P q \<Longrightarrow> G h q" "ensures p I" "stays J" "J h"
    and "\<And>e h. Q (Inl e) h" "\<And>a h. I a h \<Longrightarrow> J h \<Longrightarrow> wp G (f a) Q h"
  shows "wp G (bindE p f) Q h"
proof -
  have a: "wp (\<lambda>h q. P q) p (\<lambda>_ _. True) h" using wp_calls [OF assms(1)] .
  have b: "wp (\<lambda>_ _. True) p (\<lambda>x h'. \<forall>a. x = Inr a \<longrightarrow> I a h') h" using assms(3) by (simp add: ensures_def)
  have c: "wp (\<lambda>_ _. True) p (\<lambda>_. J) h" by (rule wp_stays [OF assms(4) TrueI assms(5)])
  show ?thesis
    unfolding wp_bindE
    by (rule wp_mono [OF wp_weaken [OF wp_conj [OF a wp_conj [OF b c]]]]) (auto simp: assms(2,6) split: sum.split intro: assms(7))
qed

subsection \<open>What eject has seen before the genesis node goes\<close>

definition paused :: "string \<Rightarrow> genesisConfig \<Rightarrow> history \<Rightarrow> bool" where
  "paused c cfg h \<longleftrightarrow> (\<exists>cl. (Kube c (GetLiveCluster (cfgNamespace cfg, cfgName cfg)), CCluster (Inr cl)) \<in> set h \<and>
     (lcPaused cl = Some True \<or> (Kube c (UpdateLiveCluster (cl\<lparr>lcPaused := Some True\<rparr>)), CUnit (Inr ())) \<in> set h))"

definition counted :: "string \<Rightarrow> string \<Rightarrow> nat \<times> nat \<Rightarrow> history \<Rightarrow> bool" where
  "counted c ns n h \<longleftrightarrow> (\<exists>hosts machines. (Kube c (ListHostsIn (Some ns)), CHosts (Inr hosts)) \<in> set h \<and>
     (Kube c (ListHostMachinesIn ns), CHostMachines (Inr machines)) \<in> set h \<and> n = (length hosts, length machines))"

definition moved :: "string \<Rightarrow> string \<Rightarrow> genesisConfig \<Rightarrow> history \<Rightarrow> bool" where
  "moved b w cfg h \<longleftrightarrow> (Tool (ClusterctlMove b w (cfgNamespace cfg) False), CUnit (Inr ())) \<in> set h \<and>
     (\<exists>cl. (Kube w (GetLiveCluster (cfgNamespace cfg, cfgName cfg)), CCluster (Inr cl)) \<in> set h) \<and>
     (\<exists>n. counted b (cfgNamespace cfg) n h \<and> counted w (cfgNamespace cfg) n h)"

lemma stays_paused: "stays (paused c cfg)"
  unfolding paused_def stays_def by auto

lemma stays_counted: "stays (counted c ns n)"
  unfolding counted_def by (intro stays_intros)

lemma stays_moved: "stays (moved b w cfg)"
  unfolding moved_def by (intro stays_intros stays_counted)

lemma movedI:
  "(Tool (ClusterctlMove b w (cfgNamespace cfg) False), CUnit (Inr ())) \<in> set h \<Longrightarrow>
   (Kube w (GetLiveCluster (cfgNamespace cfg, cfgName cfg)), CCluster (Inr cl)) \<in> set h \<Longrightarrow>
   counted b (cfgNamespace cfg) n h \<Longrightarrow> counted w (cfgNamespace cfg) n h \<Longrightarrow> moved b w cfg h"
  unfolding moved_def by blast

lemma ensures_retry: "ensures p I \<Longrightarrow> ensures (retryOnConflict n p) I"
proof (induction n)
  case (Suc n)
  have "wp (\<lambda>_ _. True) p (\<lambda>x. wp (\<lambda>_ _. True) (case x of
        Inl e \<Rightarrow> if ekind e = ErrConflict then retryOnConflict n p else Ret (Inl e) | Inr a \<Rightarrow> Ret (Inr a))
      (\<lambda>x h'. \<forall>a. x = Inr a \<longrightarrow> I a h')) h" for h
    by (rule wp_mono [of _ _ "\<lambda>x h'. \<forall>a. x = Inr a \<longrightarrow> I a h'"])
      (use Suc in \<open>auto simp: ensures_def wp_cases split: sum.split\<close>)
  then show ?case by (simp add: ensures_def)
qed simp

lemma ensures_pauseCluster: "ensures (pauseCluster c cfg) (\<lambda>_. paused c cfg)"
proof -
  have "ensures (pauseOnce c (cfgNamespace cfg, cfgName cfg)) (\<lambda>_. paused c cfg)"
    unfolding ensures_def pauseOnce_def by (auto simp: wp_simps paused_def split: sum.split)
  then show ?thesis unfolding pauseCluster_def Let_def ensures_wrapE by (rule ensures_retry)
qed

lemma ensures_countInventory: "ensures (countInventory c ns) (\<lambda>n. counted c ns n)"
proof -
  have i: "counted c ns (length hs, length ms) (h @ [(Kube c (ListHostsIn (Some ns)), CHosts (Inr hs)),
      (Kube c (ListHostMachinesIn ns), CHostMachines (Inr ms))])" for hs ms h
    unfolding counted_def by (rule exI [of _ hs], rule exI [of _ ms]) simp
  show ?thesis unfolding ensures_def countInventory_def by (auto simp: wp_simps i split: sum.split)
qed

lemma ensures_verifyMoved:
  "ensures (verifyMoved w ns name held) (\<lambda>_ h. (\<exists>cl. (Kube w (GetLiveCluster (ns, name)), CCluster (Inr cl)) \<in> set h) \<and> counted w ns held h)"
proof -
  have count: "ensures (bindE (countInventory w ns) (\<lambda>landed. if landed \<noteq> held then Ret (Inl (leftBehind name held landed)) else Ret (Inr ())))
      (\<lambda>_ h. counted w ns held h)"
    unfolding ensures_def wp_bindE
    by (intro allI, rule wp_mono [OF ensures_countInventory [unfolded ensures_def, rule_format]])
      (auto simp: wp_cases split: sum.split)
  have get: "ensures (wrapE s (perform (Kube w (GetLiveCluster (ns, name))) liveOf))
      (\<lambda>cl h. (Kube w (GetLiveCluster (ns, name)), CCluster (Inr cl)) \<in> set h)" for s
    by (auto intro: ensures_mono [OF ensures_perform])
  have "ensures (verifyMoved w ns name held) (\<lambda>_ h. (counted w ns held h \<and>
      (\<exists>cl. (Kube w (GetLiveCluster (ns, name)), CCluster (Inr cl)) \<in> set h)) \<and> (\<exists>c. c = w))"
    unfolding verifyMoved_def
    by (rule ensures_bindE [OF ensures_NewClient stays_const], simp only:, rule ensures_bindE [OF get stays_mem], rule count)
  then show ?thesis by (rule ensures_mono) auto
qed

lemma ensures_Move:
  "ensures (Move opts) (\<lambda>_ h. (Tool (ClusterctlMove (moFromKubeconfig opts) (moToKubeconfig opts) (moNamespace opts) (moDryRun opts)),
     CUnit (Inr ())) \<in> set h)"
  unfolding ensures_def Move_def newClusterctl_def by (auto simp: wp_simps split: sum.split)

lemma ensures_moveToCluster:
  assumes "\<not> mqDryRun req" "mqBootstrapClient req = mqBootstrapKubeconfig req"
  shows "ensures (moveToCluster E req) (\<lambda>_ h. moved (mqBootstrapKubeconfig req) (mqWorkloadKubeconfig req) (mqCfg req) h)"
proof (cases "providerImageFor E (mqProviderImage req)")
  case (Inr img)
  let ?b = "mqBootstrapKubeconfig req" and ?w = "mqWorkloadKubeconfig req" and ?ns = "cfgNamespace (mqCfg req)"
  let ?opts = "\<lparr>moFromKubeconfig = ?b, moToKubeconfig = ?w, moNamespace = ?ns, moDryRun = False\<rparr>"
  let ?there = "\<lambda>held h. (\<exists>cl. (Kube ?w (GetLiveCluster (?ns, cfgName (mqCfg req))), CCluster (Inr cl)) \<in> set h) \<and> counted ?w ?ns held h"
  have mv: "ensures (bindE (Move ?opts) (\<lambda>_. verifyMoved ?w ?ns (cfgName (mqCfg req)) held))
      (\<lambda>_ h. ?there held h \<and> (\<exists>a::unit. (Tool (ClusterctlMove ?b ?w ?ns False), CUnit (Inr ())) \<in> set h))" for held
    using ensures_bindE [OF ensures_Move [of ?opts] stays_mem ensures_verifyMoved] by simp
  have rest: "ensures (bindE (countInventory ?b ?ns) (\<lambda>held. bindE (Move ?opts) (\<lambda>_. verifyMoved ?w ?ns (cfgName (mqCfg req)) held)))
      (\<lambda>_ h. moved ?b ?w (mqCfg req) h)"
    unfolding ensures_def wp_bindE [of _ "countInventory ?b ?ns"]
  proof
    fix h
    have step: "wp (\<lambda>_ _. True) (bindE (Move ?opts) (\<lambda>_. verifyMoved ?w ?ns (cfgName (mqCfg req)) held))
        (\<lambda>x h'. \<forall>a. x = Inr a \<longrightarrow> moved ?b ?w (mqCfg req) h') h'" if "counted ?b ?ns held h'" for held h'
      using wp_conj [OF mv [of held, unfolded ensures_def, rule_format, of h'] wp_stays [OF stays_counted TrueI that]]
      by (rule wp_mono [OF wp_weaken]) (auto intro: movedI)
    show "wp (\<lambda>_ _. True) (countInventory ?b ?ns) (\<lambda>x h'. case x of Inl e \<Rightarrow> \<forall>a. Inl e = Inr a \<longrightarrow> moved ?b ?w (mqCfg req) h'
        | Inr held \<Rightarrow> wp (\<lambda>_ _. True) (bindE (Move ?opts) (\<lambda>_. verifyMoved ?w ?ns (cfgName (mqCfg req)) held))
            (\<lambda>x h'. \<forall>a. x = Inr a \<longrightarrow> moved ?b ?w (mqCfg req) h') h') h"
      by (rule wp_mono [OF ensures_countInventory [unfolded ensures_def, rule_format]]) (auto split: sum.split intro: step [simplified])
  qed
  have "ensures (moveToCluster E req) (\<lambda>_ h. (moved ?b ?w (mqCfg req) h \<and> (\<exists>a::unit. True)) \<and> (\<exists>a::unit. True))"
    unfolding moveToCluster_def Inr sum.case Let_def assms(2) using assms(1) rest
    by (intro ensures_bindE [OF ensures_True stays_const]) simp
  then show ?thesis by (rule ensures_mono) simp
qed (simp add: moveToCluster_def)

lemma ensures_ejectHandover:
  assumes "\<not> efDryRun f" "c = BootstrapKubeconfig o1"
  shows "ensures (ejectHandover E o1 cfg f c) (\<lambda>_ h. if efSelfManage f
    then moved c (workloadPath o1 (cfgNamespace cfg) (cfgName cfg)) cfg h else paused c cfg h)"
proof (cases "efSelfManage f")
  case True
  let ?req = "\<lparr>mqCfg = cfg, mqBootstrapClient = c, mqBootstrapKubeconfig = BootstrapKubeconfig o1,
        mqWorkloadKubeconfig = workloadPath o1 (cfgNamespace cfg) (cfgName cfg),
        mqProviderImage = efProviderImage f, mqWaitTimeout = efWaitTimeout f, mqDryRun = efDryRun f\<rparr>"
  have "ensures (moveToCluster E ?req) (\<lambda>_ h. moved c (workloadPath o1 (cfgNamespace cfg) (cfgName cfg)) cfg h)"
    using ensures_moveToCluster [of ?req E] assms by simp
  then have "ensures (bindE (checkSelfManageable E c cfg) (\<lambda>_. moveToCluster E ?req))
      (\<lambda>_ h. moved c (workloadPath o1 (cfgNamespace cfg) (cfgName cfg)) cfg h \<and> (\<exists>a::unit. True))"
    by (intro ensures_bindE [OF ensures_True stays_const])
  then show ?thesis using True by (simp add: ejectHandover_def)
next
  case False
  then show ?thesis using assms ensures_pauseCluster by (simp add: ejectHandover_def)
qed

lemma ensures_ejectPrepare:
  "ensures (ejectPrepare E o1 cfg f) (\<lambda>c h. c = BootstrapKubeconfig o1 \<and> (\<exists>s. polled c cfg s h \<and> ready s))"
proof -
  let ?b = "BootstrapKubeconfig o1"
  have last: "ensures (bindE p (\<lambda>k. bindE (q k) (\<lambda>_. bindE r (\<lambda>_. Ret (Inr c))))) (\<lambda>x h. x = c)"
    for p :: "string result cli" and q :: "string \<Rightarrow> unit result cli" and r :: "unit result cli" and c
  proof -
    have "ensures (bindE p (\<lambda>k. bindE (q k) (\<lambda>_. bindE r (\<lambda>_. Ret (Inr c)))))
        (\<lambda>x h. ((x = c \<and> (\<exists>a::unit. True)) \<and> (\<exists>a::unit. True)) \<and> (\<exists>k::string. True))"
      by (intro ensures_bindE [OF ensures_True stays_const]) simp
    then show ?thesis by (rule ensures_mono) simp
  qed
  have sum: "ensures (bindE (clusterSummary E c cfg) (\<lambda>s. if \<not> ready s then Ret (Inl (notReadyYet E cfg s))
      else bindE p (\<lambda>k. bindE (q k) (\<lambda>_. bindE r (\<lambda>_. Ret (Inr c))))))
      (\<lambda>x h. x = c \<and> (\<exists>s. polled c cfg s h \<and> ready s))"
    for p :: "string result cli" and q :: "string \<Rightarrow> unit result cli" and r :: "unit result cli" and c
    unfolding ensures_def wp_bindE [of _ "clusterSummary E c cfg"]
  proof
    fix h
    have step: "wp (\<lambda>_ _. True) (bindE p (\<lambda>k. bindE (q k) (\<lambda>_. bindE r (\<lambda>_. Ret (Inr c)))))
        (\<lambda>x h'. \<forall>a. x = Inr a \<longrightarrow> a = c \<and> (\<exists>s. polled c cfg s h' \<and> ready s)) h'" if "polled c cfg s h'" "ready s" for s h'
      by (rule wp_mono [OF wp_weaken [OF wp_conj [OF last [of p q r c, unfolded ensures_def, rule_format] wp_stays [OF stays_polled TrueI that(1)]]]])
        (use that in auto)
    show "wp (\<lambda>_ _. True) (clusterSummary E c cfg) (\<lambda>x h'. case x of Inl e \<Rightarrow> \<forall>a. Inl e = Inr a \<longrightarrow> a = c \<and> (\<exists>s. polled c cfg s h' \<and> ready s)
        | Inr s \<Rightarrow> wp (\<lambda>_ _. True) (if \<not> ready s then Ret (Inl (notReadyYet E cfg s))
            else bindE p (\<lambda>k. bindE (q k) (\<lambda>_. bindE r (\<lambda>_. Ret (Inr c)))))
            (\<lambda>x h'. \<forall>a. x = Inr a \<longrightarrow> a = c \<and> (\<exists>s. polled c cfg s h' \<and> ready s)) h') h"
      by (rule wp_mono [OF ensures_clusterSummary [unfolded ensures_def, rule_format]]) (auto split: sum.split intro: step [simplified])
  qed
  have cl: "ensures (hintE s (NewClient p)) (\<lambda>c h. c = p)" for s p by (simp add: ensures_NewClient)
  have "ensures (ejectPrepare E o1 cfg f) (\<lambda>c h. (c = ?b \<and> (\<exists>s. polled ?b cfg s h \<and> ready s)) \<and> (\<exists>c. c = ?b))"
    unfolding ejectPrepare_def Let_def by (rule ensures_bindE [OF cl stays_const], simp only:, rule sum)
  then show ?thesis by (rule ensures_mono) auto
qed


subsection \<open>The genesis node goes last\<close>

definition noDelete :: "clireq \<Rightarrow> bool" where
  "noDelete q \<longleftrightarrow> (case q of Tool (KindDelete n p) \<Rightarrow> False | _ \<Rightarrow> True)"

lemma noDelete_simps [simp]:
  "noDelete (File x1)" "noDelete (Registry d x2)" "noDelete (LoadKubeconfig p)" "noDelete (BuildClient p)" "noDelete (Kube c k)"
  "noDelete (Remote r)" "noDelete (Tool NewClusterctl)" "noDelete (Tool (ClusterctlInit a1 a2 a3 a4 a5 a6))"
  "noDelete (Tool (ClusterctlMove b1 b2 b3 b4))" "noDelete (Tool (ClusterctlKubeconfig c1 c2 c3))" "noDelete (Tool (DockerInspect e))"
  "noDelete (Tool (DockerPipe e))" "noDelete (Tool (DockerStart e))" "noDelete (Tool DockerWait)"
  by (simp_all add: noDelete_def)

lemma calls_remote: "(\<And>q. P (Remote q)) \<Longrightarrow> calls P (liftR p)"
  by (rule calls_liftR) (induction p, auto)

lemma NewClient_noDelete: "calls noDelete (NewClient p)"
  by (rule NewClient_calls) simp_all

lemma prepare_noDelete: "calls noDelete (ejectPrepare E o1 cfg f)"
  unfolding ejectPrepare_def Let_def clusterSummary_def GetKubeconfig_def newClusterctl_def writeKubeconfig_def remember_def registryPut_def
  by (intro calls_intros NewClient_noDelete) simp_all

lemma install_noDelete: "calls noDelete (installProvider E k img)"
  unfolding installProvider_def ApplyObjects_def by (intro calls_intros NewClient_noDelete) simp_all

lemma seed_noDelete: "calls noDelete (seedProviderImage E hosts img)"
  unfolding seedProviderImage_def seedHost_def importImage_def cliSshConfigFor_def
  by (intro calls_intros calls_remote) simp_all

lemma move_noDelete: "calls noDelete (moveToCluster E req)"
  unfolding moveToCluster_def seedIfLocal_def ImageAvailableLocally_def imageHosts_def installTargetProviders_def Init_def
    newClusterctl_def countInventory_def Move_def verifyMoved_def Let_def
  by (intro calls_intros NewClient_noDelete install_noDelete seed_noDelete) simp_all

lemma handover_noDelete: "calls noDelete (ejectHandover E o1 cfg f c)"
  unfolding ejectHandover_def checkSelfManageable_def pauseCluster_def pauseOnce_def Let_def
  by (intro calls_intros move_noDelete) simp_all

definition letGo :: "cliEnv \<Rightarrow> options \<Rightarrow> genesisConfig \<Rightarrow> ejectFlags \<Rightarrow> history \<Rightarrow> bool" where
  "letGo E o1 cfg f h \<longleftrightarrow> \<not> efDryRun f \<and> \<not> efKeepBootstrap f \<and>
     (\<exists>s. polled (BootstrapKubeconfig o1) cfg s h \<and> ready s) \<and>
     (if efSelfManage f then moved (BootstrapKubeconfig o1) (workloadPath o1 (cfgNamespace cfg) (cfgName cfg)) cfg h
      else paused (BootstrapKubeconfig o1) cfg h) \<and>
     recorded E o1 cfg (ejectedMode f) h \<and>
     (\<exists>cls. (Kube (BootstrapKubeconfig o1) ListLiveClusters, CClusters (Inr cls)) \<in> set h \<and>
        filter (stillManaged (cfgNamespace cfg)) cls = [])"

definition goneLast :: "cliEnv \<Rightarrow> options \<Rightarrow> genesisConfig \<Rightarrow> ejectFlags \<Rightarrow> history \<Rightarrow> clireq \<Rightarrow> bool" where
  "goneLast E o1 cfg f h q \<longleftrightarrow> noDelete q \<or>
     q = Tool (KindDelete (bcClusterName (gcBootstrap cfg)) (BootstrapKubeconfig o1)) \<and> letGo E o1 cfg f h"

lemma ensures_clustersRemaining:
  "ensures (clustersRemaining c ns) (\<lambda>r h. \<exists>cls. (Kube c ListLiveClusters, CClusters (Inr cls)) \<in> set h \<and>
     (r = [] \<longrightarrow> filter (stillManaged ns) cls = []))"
proof -
  have e: "sortStrings (map g xs) = [] \<longleftrightarrow> xs = []" for g :: "liveCluster \<Rightarrow> string" and xs
    using sortStrings_set [of "map g xs"] by (metis list.map_disc_iff set_empty)
  show ?thesis unfolding ensures_def clustersRemaining_def by (auto simp: wp_simps e split: sum.split)
qed

lemma finish_goneLast:
  assumes "\<not> efDryRun f" "\<exists>s. polled (BootstrapKubeconfig o1) cfg s h \<and> ready s"
    "if efSelfManage f then moved (BootstrapKubeconfig o1) (workloadPath o1 (cfgNamespace cfg) (cfgName cfg)) cfg h
     else paused (BootstrapKubeconfig o1) cfg h"
  shows "wp (goneLast E o1 cfg f) (ejectFinish E o1 cfg f (BootstrapKubeconfig o1)) (\<lambda>_ _. True) h"
proof -
  let ?b = "BootstrapKubeconfig o1" and ?w = "workloadPath o1 (cfgNamespace cfg) (cfgName cfg)"
  let ?J = "\<lambda>h. (\<exists>s. polled ?b cfg s h \<and> ready s) \<and> (if efSelfManage f then moved ?b ?w cfg h else paused ?b cfg h)"
  have J: "stays ?J"
    by (cases "efSelfManage f") (simp_all, (intro stays_and stays_ex stays_polled stays_const stays_moved stays_paused)+)
  have del: "wp (goneLast E o1 cfg f) (deleteBootstrap (bcClusterName (gcBootstrap cfg)) ?b) (\<lambda>_ _. True) h'" if "letGo E o1 cfg f h'" for h'
    using that unfolding deleteBootstrap_def kindDelete_def by (auto simp: wp_simps goneLast_def split: sum.split)
  have rem: "wp (goneLast E o1 cfg f) (bindE (clustersRemaining ?b (cfgNamespace cfg)) (\<lambda>remaining.
      if efKeepBootstrap f then Ret (Inr ()) else if length remaining > 0 then Ret (Inr ())
      else deleteBootstrap (bcClusterName (gcBootstrap cfg)) ?b)) (\<lambda>_ _. True) h'" if "recorded E o1 cfg (ejectedMode f) h'" "?J h'" for h'
  proof (rule wp_step [where P = noDelete and J = "\<lambda>h. recorded E o1 cfg (ejectedMode f) h \<and> ?J h"])
    show "calls noDelete (clustersRemaining ?b (cfgNamespace cfg))"
      unfolding clustersRemaining_def by (intro calls_intros) simp_all
    show "stays (\<lambda>h. recorded E o1 cfg (ejectedMode f) h \<and> ?J h)" by (intro stays_and stays_recorded J)
    show "wp (goneLast E o1 cfg f) (if efKeepBootstrap f then Ret (Inr ()) else if length r > 0 then Ret (Inr ())
        else deleteBootstrap (bcClusterName (gcBootstrap cfg)) ?b) (\<lambda>_ _. True) h2"
      if "\<exists>cls. (Kube ?b ListLiveClusters, CClusters (Inr cls)) \<in> set h2 \<and> (r = [] \<longrightarrow> filter (stillManaged (cfgNamespace cfg)) cls = [])"
        "recorded E o1 cfg (ejectedMode f) h2 \<and> ?J h2" for r h2
    proof -
      have "letGo E o1 cfg f h2" if "\<not> efKeepBootstrap f" "r = []"
        unfolding letGo_def using that assms(1) \<open>recorded E o1 cfg (ejectedMode f) h2 \<and> ?J h2\<close>
          \<open>\<exists>cls. (Kube ?b ListLiveClusters, CClusters (Inr cls)) \<in> set h2 \<and> (r = [] \<longrightarrow> filter (stillManaged (cfgNamespace cfg)) cls = [])\<close>
        by blast
      then show ?thesis using del [of h2] by (simp add: wp_cases)
    qed
  qed (use that in \<open>auto simp: goneLast_def intro: ensures_clustersRemaining\<close>)
  show ?thesis
    unfolding ejectFinish_def
  proof (rule wp_step [where P = noDelete and J = ?J and I = "\<lambda>_. recorded E o1 cfg (ejectedMode f)"])
    show "calls noDelete (wrapE s (remember E o1 cfg (ejectedMode f)))" for s
      unfolding remember_def registryPut_def by (intro calls_intros) simp_all
    show "ensures (wrapE s (remember E o1 cfg (ejectedMode f))) (\<lambda>_. recorded E o1 cfg (ejectedMode f))" for s
      by (simp add: ensures_remember)
  qed (use assms J rem in \<open>auto simp: goneLast_def\<close>)
qed


lemma eject_goneLast:
  assumes "cutoff (ejectCommand E o1 f) evs" "LoadOptions E o1 = Inr cfg" "i < length evs"
  shows "goneLast E o1 cfg f (take i evs) (fst (evs ! i))"
proof -
  let ?b = "BootstrapKubeconfig o1" and ?w = "workloadPath o1 (cfgNamespace cfg) (cfgName cfg)"
  let ?G = "goneLast E o1 cfg f" and ?T = "\<lambda>_ _. True"
  let ?rdy = "\<lambda>h. \<exists>s. polled ?b cfg s h \<and> ready s"
  have nd: "noDelete q \<Longrightarrow> ?G h q" for h q by (simp add: goneLast_def)
  have R: "stays ?rdy" by (intro stays_and stays_ex stays_polled stays_const)
  have fin: "wp ?G (if efDryRun f then Ret (Inr ()) else ejectFinish E o1 cfg f ?b) ?T h" if "?rdy h"
    "efDryRun f \<or> (if efSelfManage f then moved ?b ?w cfg h else paused ?b cfg h)" for h
    using that finish_goneLast [of f o1 cfg h E] by (auto simp: wp_cases)
  have hand: "ensures (ejectHandover E o1 cfg f ?b) (\<lambda>_ h. efDryRun f \<or> (if efSelfManage f then moved ?b ?w cfg h else paused ?b cfg h))"
    using ensures_ejectHandover [of f ?b o1 E cfg] by (cases "efDryRun f") simp_all
  have two: "wp ?G (bindE (ejectHandover E o1 cfg f ?b) (\<lambda>_. if efDryRun f then Ret (Inr ()) else ejectFinish E o1 cfg f ?b)) ?T h" if "?rdy h" for h
    by (rule wp_step [OF handover_noDelete nd hand R that]) (simp_all add: fin del: if_split)
  have one: "wp ?G (bindE (ejectPrepare E o1 cfg f) (\<lambda>c. bindE (ejectHandover E o1 cfg f c)
      (\<lambda>_. if efDryRun f then Ret (Inr ()) else ejectFinish E o1 cfg f c))) ?T h" for h
  proof (rule wp_step [OF prepare_noDelete nd ensures_ejectPrepare stays_const TrueI])
    fix c h2
    assume c: "c = ?b \<and> (\<exists>s. polled c cfg s h2 \<and> ready s)"
    show "wp ?G (bindE (ejectHandover E o1 cfg f c) (\<lambda>_. if efDryRun f then Ret (Inr ()) else ejectFinish E o1 cfg f c)) ?T h2"
      by (rule two [of h2, folded conjunct1 [OF c]]) (use c in auto)
  qed simp_all
  have guard: "calls noDelete (requireGenesisManaged E o1 cfg)"
    unfolding requireGenesisManaged_def registryGet_def by (intro calls_intros) simp_all
  have "wp ?G (ejectCommand E o1 f) ?T []"
    unfolding ejectCommand_def assms(2) sum.case
    by (rule wp_step [OF guard nd ensures_True stays_const TrueI TrueI one])
  then show ?thesis by (rule wp_cutoff [OF _ assms(1,3)])
qed

text \<open>
  C3. \<^verbatim>\<open>eject\<close> deletes the genesis node last. At whatever point it is interrupted, and whatever the
  API servers, clusterctl, kind and the registry answer, the only kind cluster it ever deletes is
  the configured bootstrap cluster, and before that it has seen the cluster complete and ready,
  seen it handed over (paused, or moved, with as many hosts and host machines in the target as
  the genesis node held), recorded that in the registry, and listed the genesis node's clusters
  without finding one in another namespace that is not paused. It never does so in a dry run or
  with \<^verbatim>\<open>--keep-bootstrap\<close>.
\<close>

theorem eject_deletes_genesis_last:
  assumes "cutoff (ejectCommand E o1 f) evs" "LoadOptions E o1 = Inr cfg" "i < length evs"
  shows "goneLast E o1 cfg f (take i evs) (fst (evs ! i))"
  by (rule eject_goneLast [OF assms])

definition exampleFlags :: ejectFlags where
  "exampleFlags = \<lparr>efDryRun = False, efKeepBootstrap = False, efSelfManage = False, efProviderImage = [], efWaitTimeout = seconds 60\<rparr>"

lemma exampleUp_prepare:
  "outcome (exampleUp others) (ejectPrepare exampleCE exampleOptions exampleLoaded exampleFlags) = Some (Inr (BootstrapKubeconfig exampleOptions))"
proof -
  have "outcome (exampleUp others) (GetKubeconfig m n ns) = Some (Inr [])" "outcome (exampleUp others) (writeKubeconfig p k) = Some (Inr ())" for m n ns p k
    by (simp_all add: GetKubeconfig_def newClusterctl_def writeKubeconfig_def) (simp_all add: exampleUp_def)
  then show ?thesis
    by (simp add: ejectPrepare_def Let_def exampleFlags_def exampleUp_client exampleUp_summary exampleUp_ready exampleUp_remember)
qed

lemma exampleUp_handover:
  "outcome (exampleUp others) (ejectHandover exampleCE exampleOptions exampleLoaded exampleFlags c) = Some (Inr ())"
proof -
  have n: "defaultRetries = Suc 3" by (simp add: defaultRetries_def)
  have "outcome (exampleUp others) (pauseOnce c k) = Some (Inr ())" for k
    by (simp add: pauseOnce_def exampleUp_def)
  then have "outcome (exampleUp others) (retryOnConflict defaultRetries (pauseOnce c k)) = Some (Inr ())" for k
    unfolding n retryOnConflict.simps by simp
  then show ?thesis
    unfolding ejectHandover_def pauseCluster_def Let_def by (simp add: exampleFlags_def)
qed

definition exampleDelete :: clireq where
  "exampleDelete = Tool (KindDelete (bcClusterName (gcBootstrap exampleLoaded)) (BootstrapKubeconfig exampleOptions))"

lemma exampleUp_finish:
  assumes "filter (stillManaged (cfgNamespace exampleLoaded)) others = []"
  shows "outcome (exampleUp others) (ejectFinish exampleCE exampleOptions exampleLoaded exampleFlags c) = Some (Inr ())"
  "exampleDelete \<in> set (requests (exampleUp others) (ejectFinish exampleCE exampleOptions exampleLoaded exampleFlags c))"
proof -
  let ?d = "deleteBootstrap (bcClusterName (gcBootstrap exampleLoaded)) (BootstrapKubeconfig exampleOptions)"
  have d: "outcome (exampleUp others) ?d = Some (Inr ())" "exampleDelete \<in> set (requests (exampleUp others) ?d)"
    by (simp_all add: deleteBootstrap_def kindDelete_def) (simp_all add: exampleUp_def wrapE_def exampleDelete_def)
  have r: "outcome (exampleUp others) (clustersRemaining c (cfgNamespace exampleLoaded)) = Some (Inr [])" for c
    using assms by (simp add: clustersRemaining_def exampleUp_def sortStrings_def)
  show "outcome (exampleUp others) (ejectFinish exampleCE exampleOptions exampleLoaded exampleFlags c) = Some (Inr ())"
    "exampleDelete \<in> set (requests (exampleUp others) (ejectFinish exampleCE exampleOptions exampleLoaded exampleFlags c))"
    using d by (simp_all add: ejectFinish_def r exampleUp_remember, simp_all add: exampleFlags_def)
qed

lemma exampleUp_eject:
  assumes "filter (stillManaged (cfgNamespace exampleLoaded)) others = []"
  shows "outcome (exampleUp others) (ejectCommand exampleCE exampleOptions exampleFlags) = Some (Inr ())"
  "q \<in> set (requests (exampleUp others) (ejectHandover exampleCE exampleOptions exampleLoaded exampleFlags (BootstrapKubeconfig exampleOptions))) \<or>
   q = exampleDelete \<Longrightarrow> q \<in> set (requests (exampleUp others) (ejectCommand exampleCE exampleOptions exampleFlags))"
proof -
  have dry: "efDryRun exampleFlags = False" by (simp add: exampleFlags_def)
  show "outcome (exampleUp others) (ejectCommand exampleCE exampleOptions exampleFlags) = Some (Inr ())"
    "q \<in> set (requests (exampleUp others) (ejectHandover exampleCE exampleOptions exampleLoaded exampleFlags (BootstrapKubeconfig exampleOptions))) \<or>
     q = exampleDelete \<Longrightarrow> q \<in> set (requests (exampleUp others) (ejectCommand exampleCE exampleOptions exampleFlags))"
    using exampleUp_finish [OF assms]
    by (auto simp: ejectCommand_def exampleLoad exampleUp_guard exampleUp_prepare exampleUp_handover dry)
qed

lemma exampleUp_alone: "filter (stillManaged (cfgNamespace exampleLoaded)) [] = []" by simp

theorem eject_deletes_genesis_last_witness:
  "\<exists>evs i. fst (evs ! i) = exampleDelete \<and> letGo exampleCE exampleOptions exampleLoaded exampleFlags (take i evs)"
proof -
  from requests_nth [OF exampleUp_eject(1) [OF exampleUp_alone] exampleUp_eject(2) [OF exampleUp_alone disjI2 [OF refl]]] obtain evs i where
    e: "replay (ejectCommand exampleCE exampleOptions exampleFlags) evs = Some (Inr ())"
    "i < length evs" "fst (evs ! i) = exampleDelete" by (elim exE conjE)
  have "letGo exampleCE exampleOptions exampleLoaded exampleFlags (take i evs)"
    using eject_deletes_genesis_last [OF replay_cutoff [OF e(1)] exampleLoad e(2)]
    by (simp add: goneLast_def noDelete_def e(3) exampleDelete_def)
  then show ?thesis using e(3) by (intro exI [of _ evs] exI [of _ i] conjI)
qed


subsection \<open>A released cluster is only paused\<close>

text \<open>Calls that change nothing on any API server but the genesis node's own life.\<close>

definition quiet :: "string \<Rightarrow> clireq \<Rightarrow> bool" where
  "quiet b q \<longleftrightarrow> (case q of
     Kube c k \<Rightarrow> c = b \<and> (case k of
         GetLiveCluster _ \<Rightarrow> True | ListLiveClusters \<Rightarrow> True | ListLiveMachines _ _ \<Rightarrow> True | ListHostsIn _ \<Rightarrow> True
       | ListHostMachinesIn _ \<Rightarrow> True | GetHostAt _ \<Rightarrow> True | ListControlPlanes _ _ \<Rightarrow> True | ListDeployments _ _ \<Rightarrow> True
       | ListNodes \<Rightarrow> True | _ \<Rightarrow> False)
   | Remote _ \<Rightarrow> False
   | Tool t \<Rightarrow> (case t of NewClusterctl \<Rightarrow> True | ClusterctlKubeconfig m _ _ \<Rightarrow> m = b | KindDelete _ p \<Rightarrow> p = b | _ \<Rightarrow> False)
   | _ \<Rightarrow> True)"

lemma quiet_simps [simp]:
  "quiet b (File x1)" "quiet b (Registry d x2)" "quiet b (LoadKubeconfig p)" "quiet b (BuildClient p)"
  "quiet b (Kube b (GetLiveCluster key))" "quiet b (Kube b ListLiveClusters)" "quiet b (Kube b (ListLiveMachines ns n))"
  "quiet b (Kube b (ListHostsIn m))" "quiet b (Kube b (ListHostMachinesIn ns2))"
  "quiet b (Tool NewClusterctl)" "quiet b (Tool (ClusterctlKubeconfig b c2 c3))" "quiet b (Tool (KindDelete k1 b))"
  by (simp_all add: quiet_def)

definition onlyPauses :: "options \<Rightarrow> genesisConfig \<Rightarrow> history \<Rightarrow> clireq \<Rightarrow> bool" where
  "onlyPauses o1 cfg h q \<longleftrightarrow> quiet (BootstrapKubeconfig o1) q \<or>
     (\<exists>cl. (Kube (BootstrapKubeconfig o1) (GetLiveCluster (cfgNamespace cfg, cfgName cfg)), CCluster (Inr cl)) \<in> set h \<and>
        lcPaused cl \<noteq> Some True \<and> q = Kube (BootstrapKubeconfig o1) (UpdateLiveCluster (cl\<lparr>lcPaused := Some True\<rparr>)))"

lemma calls_wp: "wp (\<lambda>_. P) p (\<lambda>_ _. True) h \<Longrightarrow> calls P p"
  by (induction p arbitrary: h) auto

lemma calls_hintE_client:
  assumes "calls P (f p)" "P (LoadKubeconfig p)" "P (BuildClient p)"
  shows "calls P (bindE (hintE s (NewClient p)) f)"
  by (rule calls_wp [of _ _ "[]"]) (use assms in \<open>auto simp: NewClient_def wp_simps wp_calls split: sum.split\<close>)

lemma prepare_quiet: "calls (quiet (BootstrapKubeconfig o1)) (ejectPrepare E o1 cfg f)"
proof -
  have s: "calls (quiet b) (clusterSummary E b cfg)" for b
    unfolding clusterSummary_def by (intro calls_intros) simp_all
  have k: "calls (quiet b) (GetKubeconfig b n ns)" "calls (quiet b) (writeKubeconfig p x)" "calls (quiet b) (remember E o1 cfg md)" for b n ns p x md
    unfolding GetKubeconfig_def newClusterctl_def writeKubeconfig_def remember_def registryPut_def by (intro calls_intros; simp)+
  show ?thesis
    unfolding ejectPrepare_def Let_def
    by (rule calls_hintE_client) ((intro calls_intros s k; simp), simp_all)
qed

lemma finish_quiet: "calls (quiet (BootstrapKubeconfig o1)) (ejectFinish E o1 cfg f (BootstrapKubeconfig o1))"
  unfolding ejectFinish_def clustersRemaining_def deleteBootstrap_def kindDelete_def remember_def registryPut_def
  by (intro calls_intros) simp_all

lemma pause_onlyPauses:
  "wp (onlyPauses o1 cfg) (pauseCluster (BootstrapKubeconfig o1) cfg) (\<lambda>_ _. True) h"
proof -
  have "wp (onlyPauses o1 cfg) (pauseOnce (BootstrapKubeconfig o1) (cfgNamespace cfg, cfgName cfg)) (\<lambda>_ _. True) h'" for h'
    unfolding pauseOnce_def by (auto simp: wp_simps onlyPauses_def split: sum.split)
  then have "wp (onlyPauses o1 cfg) (retryOnConflict n (pauseOnce (BootstrapKubeconfig o1) (cfgNamespace cfg, cfgName cfg))) (\<lambda>_ _. True) h" for n
    using retry_wp [of "\<lambda>_. True"] by blast
  then show ?thesis unfolding pauseCluster_def Let_def wp_wrapE by (rule wp_mono) simp
qed

text \<open>
  C22. \<^verbatim>\<open>eject\<close> without \<^verbatim>\<open>--self-manage\<close> releases the cluster by one field. Whatever is answered and
  wherever it stops, it never applies, deletes or moves anything, never reaches a host or the
  workload cluster, and the only object it writes is the cluster as the genesis node just
  returned it, unpaused, with \<^verbatim>\<open>spec.paused\<close> set.
\<close>

theorem eject_release_only_pauses:
  assumes "cutoff (ejectCommand E o1 f) evs" "LoadOptions E o1 = Inr cfg" "\<not> efSelfManage f" "i < length evs"
  shows "onlyPauses o1 cfg (take i evs) (fst (evs ! i))"
proof -
  let ?b = "BootstrapKubeconfig o1" and ?G = "onlyPauses o1 cfg" and ?T = "\<lambda>_ _. True"
  have q: "quiet ?b q \<Longrightarrow> ?G h q" for h q by (simp add: onlyPauses_def)
  have wq: "wp ?G p ?T h" if "calls (quiet ?b) p" for p h
    by (rule wp_mono [OF wp_weaken [OF wp_calls [OF that]]]) (simp_all add: q)
  have fin: "wp ?G (if efDryRun f then Ret (Inr ()) else ejectFinish E o1 cfg f ?b) ?T h" for h
    by (simp add: wq finish_quiet)
  have hand: "wp ?G (bindE (ejectHandover E o1 cfg f ?b) (\<lambda>_. if efDryRun f then Ret (Inr ()) else ejectFinish E o1 cfg f ?b)) ?T h" for h
  proof -
    have "wp ?G (ejectHandover E o1 cfg f ?b) ?T h"
      using assms(3) by (simp add: ejectHandover_def pause_onlyPauses)
    then show ?thesis unfolding wp_bindE by (rule wp_mono) (simp_all add: wq finish_quiet split: sum.split)
  qed
  have guard: "calls (quiet ?b) (requireGenesisManaged E o1 cfg)"
    unfolding requireGenesisManaged_def registryGet_def by (intro calls_intros) simp_all
  have one: "wp ?G (bindE (ejectPrepare E o1 cfg f) (\<lambda>c. bindE (ejectHandover E o1 cfg f c)
      (\<lambda>_. if efDryRun f then Ret (Inr ()) else ejectFinish E o1 cfg f c))) ?T h" for h
  proof (rule wp_step [OF prepare_quiet q ensures_ejectPrepare stays_const TrueI])
    fix c h2
    assume "c = ?b \<and> (\<exists>s. polled c cfg s h2 \<and> ready s)"
    then show "wp ?G (bindE (ejectHandover E o1 cfg f c) (\<lambda>_. if efDryRun f then Ret (Inr ()) else ejectFinish E o1 cfg f c)) ?T h2"
      by (elim conjE) (simp only: hand)
  qed simp_all
  have "wp ?G (ejectCommand E o1 f) ?T []"
    unfolding ejectCommand_def assms(2) sum.case
    by (rule wp_step [OF guard q ensures_True stays_const TrueI TrueI one])
  then show ?thesis by (rule wp_cutoff [OF _ assms(1,4)])
qed

definition exampleReleased :: liveCluster where
  "exampleReleased = \<lparr>lcMeta = exampleMeta ''lab'', lcPaused = Some True, lcPhase = ''Provisioning'',
     lcEndpoint = \<lparr>epHost = [], epPort = 0\<rparr>\<rparr>"

theorem eject_release_only_pauses_witness:
  "\<exists>evs i. fst (evs ! i) = Kube (BootstrapKubeconfig exampleOptions) (UpdateLiveCluster exampleReleased) \<and>
     onlyPauses exampleOptions exampleLoaded (take i evs) (fst (evs ! i))"
proof -
  let ?q = "Kube (BootstrapKubeconfig exampleOptions) (UpdateLiveCluster exampleReleased)"
  have n: "defaultRetries = Suc 3" by (simp add: defaultRetries_def)
  have p: "?q \<in> set (requests (exampleUp []) (pauseOnce (BootstrapKubeconfig exampleOptions) k))" for k
    by (simp add: pauseOnce_def exampleUp_def exampleReleased_def)
  have "?q \<in> set (requests (exampleUp []) (ejectHandover exampleCE exampleOptions exampleLoaded exampleFlags (BootstrapKubeconfig exampleOptions)))"
    unfolding ejectHandover_def pauseCluster_def Let_def n retryOnConflict.simps using p by (simp add: exampleFlags_def wrapE_def)
  from requests_nth [OF exampleUp_eject(1) [OF exampleUp_alone] exampleUp_eject(2) [OF exampleUp_alone disjI1 [OF this]]] obtain evs i where
    e: "replay (ejectCommand exampleCE exampleOptions exampleFlags) evs = Some (Inr ())" "i < length evs" "fst (evs ! i) = ?q"
    by (elim exE conjE)
  have "\<not> efSelfManage exampleFlags" by (simp add: exampleFlags_def)
  from eject_release_only_pauses [OF replay_cutoff [OF e(1)] exampleLoad this e(2)] e(3)
  show ?thesis by (intro exI [of _ evs] exI [of _ i] conjI)
qed

definition ownRecord :: "genesisConfig \<Rightarrow> clireq \<Rightarrow> bool" where
  "ownRecord cfg q \<longleftrightarrow> (case q of Registry d k \<Rightarrow> k = RegistryGet (cfgNamespace cfg) (cfgName cfg) \<or> (\<exists>r. k = RegistryPut r) | _ \<Rightarrow> True)"

lemma ownRecord_simps [simp]:
  "ownRecord cfg (File x1)" "ownRecord cfg (LoadKubeconfig p)" "ownRecord cfg (BuildClient p)" "ownRecord cfg (Kube c k)"
  "ownRecord cfg (Remote r)" "ownRecord cfg (Tool t)" "ownRecord cfg (Registry d (RegistryPut cr))"
  "ownRecord cfg (Registry d (RegistryGet (cfgNamespace cfg) (cfgName cfg)))"
  by (simp_all add: ownRecord_def)

lemma eject_body_calls:
  assumes "\<And>q. (\<forall>d k. q \<noteq> Registry d k) \<Longrightarrow> P q"
    and "\<And>m r. m \<in> {Managed, ejectedMode f} \<Longrightarrow> recordFor E o1 cfg m = Inr r \<Longrightarrow> P (Registry (opStateDir o1) (RegistryPut r))"
  shows "calls P (bindE (ejectPrepare E o1 cfg f) (\<lambda>c. bindE (ejectHandover E o1 cfg f c)
    (\<lambda>_. if efDryRun f then Ret (Inr ()) else ejectFinish E o1 cfg f c)))"
proof -
  have r: "calls P (remember E o1 cfg m)" if "m \<in> {Managed, ejectedMode f}" for m
    unfolding remember_def registryPut_def
    by (cases "recordFor E o1 cfg m") (simp_all add: calls_wrapE calls_perform assms(2) [OF that])
  have c: "calls P (NewClient p)" for p by (rule NewClient_calls) (simp_all add: assms(1))
  have i: "calls P (installProvider E k img)" for k img
    unfolding installProvider_def ApplyObjects_def by (intro calls_intros c) (simp_all add: assms(1))
  have m: "calls P (moveToCluster E req)" for req
    unfolding moveToCluster_def seedIfLocal_def ImageAvailableLocally_def imageHosts_def installTargetProviders_def Init_def
      newClusterctl_def countInventory_def Move_def verifyMoved_def seedProviderImage_def seedHost_def importImage_def
      cliSshConfigFor_def Let_def
    by (intro calls_intros calls_remote c i) (simp_all add: assms(1))
  have p: "calls P (ejectPrepare E o1 cfg f)"
    unfolding ejectPrepare_def Let_def clusterSummary_def GetKubeconfig_def newClusterctl_def writeKubeconfig_def
    by (intro calls_intros c r) (simp_all add: assms(1))
  have h: "calls P (ejectHandover E o1 cfg f x)" for x
    unfolding ejectHandover_def checkSelfManageable_def pauseCluster_def pauseOnce_def Let_def
    by (intro calls_intros m) (simp_all add: assms(1))
  have e: "calls P (ejectFinish E o1 cfg f x)" for x
    unfolding ejectFinish_def clustersRemaining_def deleteBootstrap_def kindDelete_def
    by (intro calls_intros r) (simp_all add: assms(1))
  show ?thesis by (intro calls_intros p h e)
qed

lemma eject_ownRecord:
  assumes "LoadOptions E o1 = Inr cfg"
  shows "calls (ownRecord cfg) (ejectCommand E o1 f)"
proof -
  have "ownRecord cfg q" if "\<forall>d k. q \<noteq> Registry d k" for q using that by (cases q) (simp_all add: ownRecord_def)
  then have body: "calls (ownRecord cfg) (bindE (ejectPrepare E o1 cfg f) (\<lambda>c. bindE (ejectHandover E o1 cfg f c)
      (\<lambda>_. if efDryRun f then Ret (Inr ()) else ejectFinish E o1 cfg f c)))"
    by (rule eject_body_calls) (simp_all add: ownRecord_def)
  have g: "calls (ownRecord cfg) (requireGenesisManaged E o1 cfg)"
    unfolding requireGenesisManaged_def registryGet_def by (intro calls_intros) simp_all
  show ?thesis unfolding ejectCommand_def assms sum.case by (rule calls_bindE [OF g body])
qed

text \<open>
  \<^verbatim>\<open>eject\<close> takes every paused cluster for a released one. With a second cluster that is only paused
  (for maintenance, say), in its own namespace, the genesis node that manages it is deleted,
  whatever the registry records of that cluster: eject reads no record but its own.
\<close>

definition exampleMaintenance :: liveCluster where
  "exampleMaintenance = \<lparr>lcMeta = (exampleMeta ''prod'')\<lparr>mNamespace := ''prod''\<rparr>, lcPaused = Some True,
     lcPhase = ''Provisioned'', lcEndpoint = \<lparr>epHost = ''10.0.0.2'', epPort = 6443\<rparr>\<rparr>"

theorem eject_deletes_genesis_under_paused_cluster:
  "calls (ownRecord exampleLoaded) (ejectCommand exampleCE exampleOptions exampleFlags) \<and>
   (\<exists>evs i. replay (ejectCommand exampleCE exampleOptions exampleFlags) evs = Some (Inr ()) \<and> fst (evs ! i) = exampleDelete \<and>
     (Kube (BootstrapKubeconfig exampleOptions) ListLiveClusters, CClusters (Inr [exampleMaintenance])) \<in> set (take i evs))"
proof -
  let ?srv = "exampleUp [exampleMaintenance]" and ?p = "ejectCommand exampleCE exampleOptions exampleFlags"
  have other: "filter (stillManaged (cfgNamespace exampleLoaded)) [exampleMaintenance] = []"
    by (simp add: stillManaged_def exampleMaintenance_def)
  from requests_nth [OF exampleUp_eject(1) [OF other] exampleUp_eject(2) [OF other disjI2 [OF refl]]] obtain evs i where
    e: "replay ?p evs = Some (Inr ())" "i < length evs" "fst (evs ! i) = exampleDelete" "\<forall>e\<in>set evs. snd e = ?srv (fst e)"
    by (elim exE conjE)
  have "letGo exampleCE exampleOptions exampleLoaded exampleFlags (take i evs)"
    using eject_goneLast [OF replay_cutoff [OF e(1)] exampleLoad e(2)]
    by (simp add: goneLast_def noDelete_def e(3) exampleDelete_def)
  then obtain cls where c: "(Kube (BootstrapKubeconfig exampleOptions) ListLiveClusters, CClusters (Inr cls)) \<in> set (take i evs)"
    unfolding letGo_def by (elim exE conjE)
  from bspec [OF e(4) in_set_takeD [OF c]] have "cls = [exampleMaintenance]" by (simp add: exampleUp_def)
  then show ?thesis using c e(1,3) eject_ownRecord [OF exampleLoad] by (intro conjI exI [of _ evs] exI [of _ i]) simp_all
qed



subsection \<open>Self-management and the registry guard\<close>

text \<open>
  C35. Eject lets a cluster manage itself exactly when it can be rolled: three control plane replicas
  or more, a free (Available, unclaimed) control plane host, and a free worker host when the
  configuration has worker pools. The check reads the pool of hosts once.
\<close>

theorem checkSelfManageable_iff:
  "replay (checkSelfManageable E c cfg) [(Kube c (ListHostsIn (Some (cfgNamespace cfg))), CHosts (Inr hosts))] = Some (Inr ()) \<longleftrightarrow>
   3 \<le> sint (ccControlPlaneReplicas (gcCluster cfg)) \<and>
   (\<exists>h\<in>set hosts. stPhase (hStatus h) = HostPhaseAvailable \<and> stClaimRef (hStatus h) = None \<and> mapGet (mLabels (hMeta h)) RoleLabel = RoleControlPlane) \<and>
   (gcWorkers cfg = [] \<or>
    (\<exists>h\<in>set hosts. stPhase (hStatus h) = HostPhaseAvailable \<and> stClaimRef (hStatus h) = None \<and> mapGet (mLabels (hMeta h)) RoleLabel = RoleWorker))"
proof -
  have free: "spare hosts role = 0 \<longleftrightarrow> \<not> (\<exists>h\<in>set hosts. stPhase (hStatus h) = HostPhaseAvailable \<and> stClaimRef (hStatus h) = None \<and>
      mapGet (mLabels (hMeta h)) RoleLabel = role)" for role
    by (auto simp: spare_def filter_empty_conv)
  have "selfManageProblems cfg hosts = [] \<longleftrightarrow> 3 \<le> sint (ccControlPlaneReplicas (gcCluster cfg)) \<and>
      spare hosts RoleControlPlane \<noteq> 0 \<and> (gcWorkers cfg = [] \<or> spare hosts RoleWorker \<noteq> 0)"
    by (auto simp: selfManageProblems_def minSelfManagedControlPlanes_def Let_def)
  then show ?thesis
    unfolding free by (simp add: checkSelfManageable_def bindE_def wrapE_def perform_def Let_def)
qed

lemma initCommand_guarded:
  "LoadOptions E o1 = Inr cfg \<Longrightarrow> wp (guarded o1 cfg) (initCommand E nm o1 img ld t) (\<lambda>_ _. True) h"
  by (simp add: initCommand_def wp_requireGenesisManaged)

lemma ejectCommand_guarded:
  "LoadOptions E o1 = Inr cfg \<Longrightarrow> wp (guarded o1 cfg) (ejectCommand E o1 f) (\<lambda>_ _. True) h"
  by (simp add: ejectCommand_def wp_requireGenesisManaged)

lemma commands_start:
  assumes "LoadOptions E o1 = Inr cfg" "RenderConfig (ceConfig E) cfg = Inr objs"
    "p \<in> {initCommand E nm o1 img ld t, clusterCreate E o1 False w t, clusterDelete E o1 True t, ejectCommand E o1 f}"
  shows "\<exists>k. p = bindE (requireGenesisManaged E o1 cfg) k"
  using assms(3) unfolding initCommand_def clusterCreate_def createApply_def clusterDelete_def ejectCommand_def assms(1,2)
    sum.case if_False if_True not_True_eq_False bindE_assoc
  by (elim insertE emptyE) (simp only:, rule exI, rule refl)+

text \<open>
  C15. The registry decides who may act. \<^verbatim>\<open>init\<close>, \<^verbatim>\<open>cluster create\<close>, \<^verbatim>\<open>cluster delete\<close> and \<^verbatim>\<open>eject\<close> make no call
  of any kind, except to read the cluster's own record, before that record was read and found
  absent or managed; and once it says that the cluster was released or manages itself, the
  command is over, with an error, after that one read.
\<close>

theorem commands_obey_registry:
  assumes "LoadOptions E o1 = Inr cfg" "RenderConfig (ceConfig E) cfg = Inr objs"
    "p \<in> {initCommand E nm o1 img ld t, clusterCreate E o1 False w t, clusterDelete E o1 True t, ejectCommand E o1 f}"
  shows "(\<forall>evs i. cutoff p evs \<and> i < length evs \<longrightarrow> guarded o1 cfg (take i evs) (fst (evs ! i))) \<and>
    (\<forall>r. rcMode r \<noteq> Managed \<longrightarrow>
       (\<exists>e. replay p [(Registry (opStateDir o1) (RegistryGet (cfgNamespace cfg) (cfgName cfg)), CRecord (Inr (Some r)))] = Some (Inl e)))"
proof
  have "wp (guarded o1 cfg) p (\<lambda>_ _. True) []"
    using assms(3) initCommand_guarded [OF assms(1)] clusterCreate_guarded [OF assms(1)] clusterDelete_guarded [OF assms(1)]
      ejectCommand_guarded [OF assms(1)] by (elim insertE emptyE) simp_all
  then show "\<forall>evs i. cutoff p evs \<and> i < length evs \<longrightarrow> guarded o1 cfg (take i evs) (fst (evs ! i))"
    using wp_cutoff by blast
  obtain k where p: "p = bindE (requireGenesisManaged E o1 cfg) k" using commands_start [OF assms] ..
  show "\<forall>r. rcMode r \<noteq> Managed \<longrightarrow>
      (\<exists>e. replay p [(Registry (opStateDir o1) (RegistryGet (cfgNamespace cfg) (cfgName cfg)), CRecord (Inr (Some r)))] = Some (Inl e))"
    unfolding p requireGenesisManaged_def registryGet_def by (simp add: bindE_def perform_def)
qed

theorem commands_obey_registry_witness:
  "\<exists>e. replay (ejectCommand exampleCE exampleOptions exampleFlags)
     [(Registry (opStateDir exampleOptions) (RegistryGet (cfgNamespace exampleLoaded) (cfgName exampleLoaded)),
       CRecord (Inr (Some (exampleRecord ''lab'' ''lab'' Released))))] = Some (Inl e)"
proof -
  obtain objs where r: "RenderConfig (ceConfig exampleCE) exampleLoaded = Inr objs"
    using exampleLoaded_renders by (auto simp: exampleCliEnv_def)
  have m: "rcMode (exampleRecord ''lab'' ''lab'' Released) \<noteq> Managed" by code_simp
  show ?thesis
    using commands_obey_registry [OF exampleLoad r insertI2 [OF insertI2 [OF insertI2 [OF singletonI]]], THEN conjunct2, rule_format, OF m] .
qed



subsection \<open>The waits end\<close>

interpretation crd_wait: polling "waitForCRD noMatch c namespace deadline" "\<lambda>k. bind (perform (Kube c (ListHostsIn (Some namespace))) hostsOf) (\<lambda>r. case r of
     Inr _ \<Rightarrow> Ret (Inr ())
   | Inl e \<Rightarrow> if \<not> noMatch e then Ret (Inl (wrapf ''wait for the Host CRD'' e))
       else bind (perform ClockNow timeOf) (\<lambda>now.
         if deadline < now then Ret (Inl (errorf ''the Host CRD did not become available in time''))
         else bind (perform (Wait crdInterval) elapsedOf) k))" crdInterval "Inl deadlineExceeded" 3 for noMatch c namespace deadline
proof
  let ?pass = "\<lambda>k :: bool \<Rightarrow> unit result cli. bind (perform (Kube c (ListHostsIn (Some namespace))) hostsOf) (\<lambda>r. case r of
     Inr _ \<Rightarrow> Ret (Inr ())
   | Inl e \<Rightarrow> if \<not> noMatch e then Ret (Inl (wrapf ''wait for the Host CRD'' e))
       else bind (perform ClockNow timeOf) (\<lambda>now.
         if deadline < now then Ret (Inl (errorf ''the Host CRD did not become available in time''))
         else bind (perform (Wait crdInterval) elapsedOf) k))"
  show "0 < crdInterval" by (simp add: crdInterval_def seconds_def)
  show "waitForCRD noMatch c namespace deadline T =
      ?pass (\<lambda>elapsed. if \<not> elapsed \<or> T < crdInterval then Ret (Inl deadlineExceeded)
        else waitForCRD noMatch c namespace deadline (T - crdInterval))" for T
    by (rule waitForCRD.simps)
  show "callsAtMost (?pass k) (3 + m)" if "\<And>e. callsAtMost (k e) m" for k m
    unfolding numeral_3_eq_3 add_Suc add_0 by (intro branch_intros callsAtMost_perform_bind that)
  show "total (?pass k)" if "\<And>e. total (k e)" for k
    by (intro branch_intros total_bind total_perform that; simp)
qed

text \<open>
  C18. Every wait of the command line ends. Against any partner that answers every call, in whatever
  way, the loops of \<^verbatim>\<open>cluster create\<close>, \<^verbatim>\<open>cluster delete\<close>, \<^verbatim>\<open>cluster status --watch\<close> and \<^verbatim>\<open>init\<close> return
  a result, after at most \<open>5 * (T div 15s + 1)\<close>, \<open>2 * (T div 10s + 1)\<close>, \<open>7 * (T div 15s + 1)\<close> and
  \<open>3 * (T div 2s + 1)\<close> calls, where \<open>T\<close> is the timeout.
\<close>

theorem waits_end:
  assumes "\<And>h q. typed q (srv h q)"
  shows "(\<exists>evs x. execute srv (waitForCluster E c cfg T) [] = (evs, Some x) \<and> length evs \<le> 5 * (nat (T div seconds 15) + 1)) \<and>
    (\<exists>evs x. execute srv (waitForClusterGone c key T) [] = (evs, Some x) \<and> length evs \<le> 2 * (nat (T div seconds 10) + 1)) \<and>
    (\<exists>evs x. execute srv (statusLoop E r c watch T) [] = (evs, Some x) \<and> length evs \<le> 7 * (nat (T div seconds 15) + 1)) \<and>
    (\<exists>evs x. execute srv (waitForCRD noMatch c namespace deadline T) [] = (evs, Some x) \<and> length evs \<le> 3 * (nat (T div seconds 2) + 1))"
  using ready_wait.ends [of srv, OF assms] gone_wait.ends [of srv, OF assms] watch.ends [of srv, OF assms] crd_wait.ends [of srv, OF assms]
  unfolding pollInterval_def goneInterval_def crdInterval_def by (intro conjI)

theorem waits_end_witness:
  "\<exists>evs x. execute (\<lambda>_. exampleAnswer) (waitForCluster exampleCE ''/root/.kg/bootstrap.kubeconfig'' exampleLoaded (seconds 60)) [] =
     (evs, Some x) \<and> length evs \<le> 25"
proof -
  have t: "\<And>(h :: history) q. typed q ((\<lambda>_. exampleAnswer) h q)" by (rule exampleAnswer_typed)
  have n: "5 * (nat (seconds 60 div seconds 15) + 1) = 25" by (simp add: seconds_def)
  show ?thesis
    using waits_end [OF t, of exampleCE "''/root/.kg/bootstrap.kubeconfig''" exampleLoaded "seconds 60"] unfolding n by blast
qed

end
