(* ===== verification/KG_CliConfig.thy ===== *)
theory KG_CliConfig
  imports KG_CliCluster
begin

text \<open>
  \<^verbatim>\<open>config init\<close> and \<^verbatim>\<open>config validate\<close> (\<^verbatim>\<open>cli/config.go\<close>) and the version line
  (\<^verbatim>\<open>version/version.go\<close>). The sample configuration is the constant of the code, byte for byte.
\<close>

subsection \<open>The starter configuration\<close>

text \<open>\<^verbatim>\<open>strings.Replace\<close> with a count of one and a non-empty old string.\<close>

fun replaceFirst :: "string \<Rightarrow> string \<Rightarrow> string \<Rightarrow> string" where
  "replaceFirst old new s =
     (if hasPrefix s old then new @ drop (length old) s
      else case s of [] \<Rightarrow> [] | c # cs \<Rightarrow> c # replaceFirst old new cs)"

declare replaceFirst.simps [simp del]

definition sshKeyMark :: string where "sshKeyMark = ''__SSH_KEY__''"

definition sampleLines :: "string list" where
  "sampleLines = [
     ''apiVersion: kgenesis.io/v1alpha1'',
     ''kind: GenesisConfig'',
     [],
     ''cluster:'',
     ''  name: lab'',
     ''  # Defaults to the cluster name. Each cluster gets its own namespace: it is'',
     ''  # what keeps one cluster'' @ [CHR 0x27] @ ''s machines out of another'' @ [CHR 0x27] @ ''s host pool, and what lets'',
     ''  # a single cluster be ejected while the genesis node keeps the rest.'',
     ''  # namespace: lab'',
     ''  # The version kubeadm installs on the hosts. There is no default: pick the'',
     ''  # version you actually want rather than inheriting whatever kg was built'',
     ''  # against.'',
     ''  kubernetesVersion: v1.34.1'',
     [],
     ''  # Every node joins through this address. With virtualIP enabled below, kube-vip'',
     ''  # raises it on whichever control plane host holds the lease, so it must be a'',
     ''  # free address on the control plane hosts'' @ [CHR 0x27] @ '' subnet.'',
     ''  controlPlaneEndpoint:'',
     ''    host: 10.10.0.100'',
     ''    port: 6443'',
     [],
     ''  # Leave at 0 to use every host with role control-plane. etcd needs an odd count.'',
     ''  controlPlaneReplicas: 0'',
     [],
     ''  network:'',
     ''    podCIDR: 10.244.0.0/16'',
     ''    serviceCIDR: 10.96.0.0/12'',
     [],
     ''  # Applied to the workload cluster once its API server answers. kg does'',
     ''  # not bundle a CNI: give it manifests, so the version is yours to pin and an'',
     ''  # air-gapped install works the same way. For a chart-based CNI, render it once:'',
     ''  #'',
     ''  #   helm template cilium cilium/cilium --version 1.16.5 '' @ [CHR 0x5C],
     ''  #     --namespace kube-system > cni/cilium.yaml'',
     ''  #'',
     ''  # Without this the nodes come up NotReady.'',
     ''  cni:'',
     ''    manifests: []'',
     [],
     ''  virtualIP:'',
     ''    enabled: true'',
     ''    # Leave empty to let kube-vip pick the interface holding the default route.'',
     ''    interface: '' @ [CHR 0x22, CHR 0x22],
     [],
     ''  # Run on every node around kubeadm, for whatever this fleet needs that'',
     ''  # kg does not model. They run under set -e, so a command that is only'',
     ''  # sometimes necessary has to tolerate its own absence.'',
     ''  # preKubeadmCommands:'',
     ''  #   - /opt/vendor/prepare-nic.sh'',
     ''  # postKubeadmCommands:'',
     ''  #   - systemctl enable --now node-exporter'',
     [],
     ''  # kubeadm preflight checks to downgrade to warnings, by their kubeadm name.'',
     ''  # Keep the list as short as the hardware allows.'',
     ''  # ignorePreflightErrors:'',
     ''  #   - NumCPU'',
     [],
     ''# Defaults for every host. Any host may override them.'',
     ''ssh:'',
     ''  user: root'',
     ''  port: 22'',
     ''  privateKeyPath: __SSH_KEY__'',
     ''  # Strict pins each host'' @ [CHR 0x27] @ ''s key (set publicKey per host), TOFU trusts the first'',
     ''  # connection and pins it, Insecure accepts any key.'',
     ''  hostKeyPolicy: TOFU'',
     [],
     ''hosts:'',
     ''  - name: cp-1'',
     ''    address: 10.10.0.11'',
     ''    role: control-plane'',
     ''  - name: cp-2'',
     ''    address: 10.10.0.12'',
     ''    role: control-plane'',
     ''  - name: cp-3'',
     ''    address: 10.10.0.13'',
     ''    role: control-plane'',
     ''  - name: worker-1'',
     ''    address: 10.10.0.21'',
     ''    role: worker'',
     ''  - name: worker-2'',
     ''    address: 10.10.0.22'',
     ''    role: worker'',
     [],
     ''# Optional. Without this block every host with role worker lands in one pool.'',
     ''# workers:'',
     ''#   - name: gpu'',
     ''#     replicas: 2'',
     ''#     hostSelector:'',
     ''#       kgenesis.io/role: worker'',
     ''#       accelerator: gpu'',
     ''#     nodeLabels:'',
     ''#       node.kubernetes.io/accelerator: gpu'',
     ''#     nodeTaints:'',
     ''#       - key: accelerator'',
     ''#         value: gpu'',
     ''#         effect: NoSchedule'',
     [],
     ''bootstrap:'',
     ''  clusterName: kgenesis-bootstrap'',
     ''  # Pin the Cluster API providers. Empty tracks the latest release.'',
     ''  capiVersion: '' @ [CHR 0x22, CHR 0x22]]"

definition sampleConfig :: string where
  "sampleConfig = concat (map (\<lambda>l. l @ [CHR 0x0A]) sampleLines)"

definition keyCandidates :: "string list" where
  "keyCandidates = [''id_ed25519'', ''id_ecdsa'', ''id_rsa'']"

fun firstKey :: "string \<Rightarrow> string list \<Rightarrow> string option cli" where
  "firstKey home [] = Ret None"
| "firstKey home (candidate # cs) =
     bind (perform (File (StatFile (pathJoin [home, ''.ssh'', candidate]))) unitOf) (\<lambda>r.
       case r of Inr _ \<Rightarrow> Ret (Some candidate) | Inl _ \<Rightarrow> firstKey home cs)"

definition starterConfig :: "cliEnv \<Rightarrow> string cli" where
  "starterConfig E =
     bind (case userHomeDir (ceConfig E) of Inl _ \<Rightarrow> Ret None | Inr dir \<Rightarrow> firstKey dir keyCandidates) (\<lambda>found.
     Ret (replaceFirst sshKeyMark (''~/.ssh/'' @ (case found of None \<Rightarrow> ''id_ed25519'' | Some candidate \<Rightarrow> candidate)) sampleConfig))"

text \<open>The file modes, 0700 for the directory and 0600 for the file, are not values of the model.\<close>

definition configInit :: "cliEnv \<Rightarrow> options \<Rightarrow> bool \<Rightarrow> unit result cli" where
  "configInit E o1 force =
     bind (perform (File (StatFile (opConfigPath o1))) unitOf) (\<lambda>r.
     if r = Inr () \<and> \<not> force then Ret (Inl (errorf (opConfigPath o1 @ '' already exists; pass --force to overwrite it'')))
     else
       (let dir = pathDir (opConfigPath o1)
        in bindE (if dir \<noteq> [] \<and> dir \<noteq> ''.'' then wrapE (''create '' @ dir) (perform (File (MkdirAll dir)) unitOf) else Ret (Inr ())) (\<lambda>_.
           bind (starterConfig E) (\<lambda>starter.
           wrapE (''write '' @ opConfigPath o1) (perform (File (WriteFileAt (opConfigPath o1) starter)) unitOf)))))"

definition configValidate :: "cliEnv \<Rightarrow> options \<Rightarrow> genesisConfig result" where
  "configValidate E o1 = LoadOptions E o1"

subsection \<open>The version line\<close>

text \<open>What the linker and the Go runtime fix: the variables of \<^verbatim>\<open>version.go\<close>, and the build settings \<^verbatim>\<open>ReadBuildInfo\<close> finds.\<close>

record buildStamp =
  bsVersion :: string
  bsGitCommit :: string
  bsBuildDate :: string
  bsImage :: string
  bsGoos :: string
  bsGoarch :: string
  bsGoVersion :: string
  bsSettings :: "(string \<times> string) list option"

definition vcsRevision :: "buildStamp \<Rightarrow> string" where
  "vcsRevision B =
     (case bsSettings B of
        None \<Rightarrow> []
      | Some settings \<Rightarrow>
          (case List.find (\<lambda>s. fst s = ''vcs.revision'') settings of
             None \<Rightarrow> []
           | Some s \<Rightarrow> if length (snd s) > 12 then take 12 (snd s) else snd s))"

definition versionString :: "buildStamp \<Rightarrow> string \<Rightarrow> string" where
  "versionString B name =
     (let commit0 = (if bsGitCommit B = [] then vcsRevision B else bsGitCommit B);
          commit = (if commit0 = [] then ''unknown'' else commit0)
      in name @ '' '' @ bsVersion B @ '' (commit '' @ commit @ '', '' @ bsGoos B @ ''/'' @ bsGoarch B @ '', '' @ bsGoVersion B @ '')'' @
         (if bsBuildDate B \<noteq> [] then '', built '' @ bsBuildDate B else []) @
         (if bsImage B \<noteq> [] then [CHR 0x0A] @ ''controller image '' @ bsImage B else []))"

definition versionCommand :: "buildStamp \<Rightarrow> cliEnv \<Rightarrow> unit result cli" where
  "versionCommand B E = perform (WriteOut (versionString B (ceBinary E) @ [CHR 0x0A])) unitOf"

subsection \<open>What config init writes\<close>

lemma replaceFirst_append:
  assumes "c \<notin> set s" "old = c # cs"
  shows "replaceFirst old new (s @ t) = s @ replaceFirst old new t"
  using assms(1)
proof (induction s)
  case (Cons d s)
  then have "\<not> hasPrefix ((d # s) @ t) old" using assms(2) by auto
  moreover have "replaceFirst old new (s @ t) = s @ replaceFirst old new t" "c \<noteq> d" using Cons by simp_all
  ultimately show ?case using assms(2) by (subst replaceFirst.simps) simp
qed simp

lemma replaceFirst_here: "old \<noteq> [] \<Longrightarrow> replaceFirst old new (old @ t) = new @ t"
  by (subst replaceFirst.simps) simp

text \<open>The sample with a key path in its place.\<close>

definition starterText :: "string \<Rightarrow> string" where
  "starterText key = concat (map (\<lambda>l. l @ [CHR 0x0A]) (sampleLines[61 := ''  privateKeyPath: ~/.ssh/'' @ key]))"

lemma sample_split: "sampleLines = take 61 sampleLines @ (''  privateKeyPath: '' @ sshKeyMark) # drop 62 sampleLines"
  by (simp add: sampleLines_def sshKeyMark_def)

lemma sample_free: "list_all (\<lambda>l. CHR ''_'' \<notin> set l) (take 61 sampleLines)"
  by (simp add: sampleLines_def)

lemma starterText_replaces: "replaceFirst sshKeyMark (''~/.ssh/'' @ key) sampleConfig = starterText key"
proof -
  let ?l = "\<lambda>l. l @ [CHR 0x0A]"
  have free: "CHR ''_'' \<notin> set (concat (map ?l (take 61 sampleLines)) @ ''  privateKeyPath: '')"
    using sample_free by (auto simp: list_all_iff)
  have n: "length sampleLines > 61" by code_simp
  have mark: "sshKeyMark = CHR ''_'' # ''_SSH_KEY__''" by (simp add: sshKeyMark_def)
  have whole: "sampleConfig = (concat (map ?l (take 61 sampleLines)) @ ''  privateKeyPath: '') @ sshKeyMark @ [CHR 0x0A] @ concat (map ?l (drop 62 sampleLines))"
    unfolding sampleConfig_def by (subst sample_split) simp
  have upd: "sampleLines[61 := x] = take 61 sampleLines @ x # drop 62 sampleLines" for x
    using n by (simp add: upd_conv_take_nth_drop)
  show ?thesis
    unfolding whole replaceFirst_append [OF free mark] starterText_def upd
    using replaceFirst_here [of sshKeyMark] by (simp add: mark)
qed

definition writesStarter :: "options \<Rightarrow> bool \<Rightarrow> history \<Rightarrow> clireq \<Rightarrow> bool" where
  "writesStarter o1 force h q \<longleftrightarrow> (\<exists>p. q = File (StatFile p)) \<or>
     (force \<or> (\<exists>e. (File (StatFile (opConfigPath o1)), CUnit (Inl e)) \<in> set h)) \<and>
     (q = File (MkdirAll (pathDir (opConfigPath o1))) \<or>
      (\<exists>key\<in>set keyCandidates. q = File (WriteFileAt (opConfigPath o1) (starterText key))))"

text \<open>
  C40. \<^verbatim>\<open>config init\<close> keeps an existing configuration. Whatever the file system answers and wherever the
  command stops, it writes nothing unless it was told to overwrite or the configuration path could
  not be read; and all it ever writes there is the sample with one of the three usual key names
  in the line of the SSH key, no placeholder left.
\<close>

theorem config_init_keeps_existing:
  assumes "cutoff (configInit E o1 force) evs" "i < length evs"
  shows "writesStarter o1 force (take i evs) (fst (evs ! i))"
proof -
  let ?G = "writesStarter o1 force"
  have key: "wp ?G (firstKey home cs) (\<lambda>r _. r = None \<or> (\<exists>key\<in>set cs. r = Some key)) h" for home cs h
    by (induction cs arbitrary: h) (auto simp: wp_simps writesStarter_def split: sum.split intro: wp_mono)
  let ?p = "opConfigPath o1"
  let ?w = "\<lambda>h. force \<or> (\<exists>e. (File (StatFile ?p), CUnit (Inl e)) \<in> set h)"
  have w: "stays ?w" by (auto simp: stays_def)
  have starter: "wp ?G (starterConfig E) (\<lambda>x _. \<exists>key\<in>set keyCandidates. x = starterText key) h" for h
  proof -
    have "wp ?G (case userHomeDir (ceConfig E) of Inl _ \<Rightarrow> Ret None | Inr dir \<Rightarrow> firstKey dir keyCandidates)
        (\<lambda>r _. r = None \<or> (\<exists>key\<in>set keyCandidates. r = Some key)) h"
      by (simp add: key split: sum.split)
    then show ?thesis
      unfolding starterConfig_def wp_bind starterText_replaces
      by (rule wp_mono) (auto simp: keyCandidates_def)
  qed
  have put: "wp ?G (bind (starterConfig E) (\<lambda>x. wrapE t (perform (File (WriteFileAt ?p x)) unitOf))) (\<lambda>_ _. True) h" if "?w h" for t h
    unfolding wp_bind
    by (rule wp_mono [OF wp_conj [OF starter wp_stays [OF w _ that], THEN wp_weaken]])
      (auto simp: wp_simps writesStarter_def)
  have mk: "wp ?G (bindE (if b then wrapE u (perform (File (MkdirAll (pathDir ?p))) unitOf) else Ret (Inr ()))
      (\<lambda>_. bind (starterConfig E) (\<lambda>x. wrapE t (perform (File (WriteFileAt ?p x)) unitOf)))) (\<lambda>_ _. True) h" if "?w h" for b u t h
    using that put by (auto simp: wp_bindE [of _ "if b then _ else _"] wp_cases wp_perform wp_wrapE writesStarter_def split: sum.split)
  have last: "wp ?G (if r = Inr () \<and> \<not> force then Ret (Inl e) else
      bindE (if b then wrapE u (perform (File (MkdirAll (pathDir ?p))) unitOf) else Ret (Inr ()))
        (\<lambda>_. bind (starterConfig E) (\<lambda>x. wrapE t (perform (File (WriteFileAt ?p x)) unitOf)))) (\<lambda>_ _. True) [(File (StatFile ?p), CUnit r)]"
    for r e b u t
  proof (cases "r = Inr () \<and> \<not> force")
    case False
    have "?w [(File (StatFile ?p), CUnit r)]" using False by (cases r) auto
    then show ?thesis unfolding if_not_P [OF False] by (rule mk)
  qed simp
  have "wp ?G (configInit E o1 force) (\<lambda>_ _. True) []"
    unfolding configInit_def Let_def wp_bind [of _ "perform (File (StatFile ?p)) unitOf"] wp_perform reply_sel
    by (intro conjI allI impI) (simp add: writesStarter_def, simp only: append_Nil, rule last)
  then show ?thesis by (rule wp_cutoff [OF _ assms])
qed

definition exampleFresh :: "clireq \<Rightarrow> cliresp" where
  "exampleFresh q = (case q of File (StatFile p) \<Rightarrow> CUnit (Inl (errorf ''no such file'')) | _ \<Rightarrow> CUnit (Inr ()))"

theorem config_init_keeps_existing_witness:
  "\<exists>evs i. fst (evs ! i) = File (WriteFileAt (opConfigPath exampleOptions) (starterText ''id_ed25519'')) \<and>
     writesStarter exampleOptions False (take i evs) (fst (evs ! i))"
proof -
  let ?p = "configInit exampleCE exampleOptions False"
  let ?q = "File (WriteFileAt (opConfigPath exampleOptions) (starterText ''id_ed25519''))"
  have key: "outcome exampleFresh (firstKey home cs) = Some None" for home cs
    by (induction cs) (simp_all add: exampleFresh_def)
  have "outcome exampleFresh (starterConfig exampleCE) = Some (starterText ''id_ed25519'')"
    unfolding starterConfig_def starterText_replaces by (simp add: key split: sum.split)
  then have "outcome exampleFresh ?p = Some (Inr ())" "?q \<in> set (requests exampleFresh ?p)"
    unfolding configInit_def Let_def
    by (simp_all add: wrapE_def, (auto simp: exampleFresh_def)+)
  from requests_nth [OF this] obtain evs i where e: "replay ?p evs = Some (Inr ())" "i < length evs" "fst (evs ! i) = ?q"
    by (elim exE conjE)
  from config_init_keeps_existing [OF replay_cutoff [OF e(1)] e(2)] e(3)
  show ?thesis by (intro exI [of _ evs] exI [of _ i] conjI)
qed

end
