(* ===== verification/KG_System.thy ===== *)
theory KG_System
  imports KG_HostClusterController KG_Eject KG_CliConfig
begin

text \<open>
  The parts put together. A command of the CLI talks to the registry; the registry keeps its
  records in files. Here the registry calls of a run are answered by the functions of
  \<^verbatim>\<open>registry/registry.go\<close> on a file store that the run leaves to the next command.
\<close>

subsection \<open>Commands on a real registry\<close>

definition errorOf :: "goerror option \<Rightarrow> unit result" where
  "errorOf e = (case e of None \<Rightarrow> Inr () | Some x \<Rightarrow> Inl x)"

text \<open>
  One call on the store: a registry call of the state directory runs the registry's own function,
  with the clock, the temporary name and the failing step left open; any other call may touch
  other files, but no record of this registry.
\<close>

definition stepServed :: "codec \<Rightarrow> string \<Rightarrow> clireq \<Rightarrow> cliresp \<Rightarrow> fsys \<Rightarrow> fsys \<Rightarrow> bool" where
  "stepServed C dir q r fs fs' \<longleftrightarrow>
     (if \<exists>k. q = Registry dir k
      then (\<forall>ns n. q = Registry dir (RegistryGet ns n) \<longrightarrow> fs' = fs \<and> r = CRecord (Get C dir fs ns n)) \<and>
        (q = Registry dir RegistryList \<longrightarrow> fs' = fs \<and> r = CRecords (ListRecords C dir fs)) \<and>
        (\<forall>rec. q = Registry dir (RegistryPut rec) \<longrightarrow>
           (\<exists>now rnd fault e. Put C dir now rnd fault rec fs = (fs', e) \<and> r = CUnit (errorOf e))) \<and>
        (\<forall>ns n. q = Registry dir (RegistryForget ns n) \<longrightarrow>
           (\<exists>refused e. Forget dir refused ns n fs = (fs', e) \<and> r = CUnit (errorOf e)))
      else fsReadErr fs' = fsReadErr fs \<and> (\<forall>ns n. Get C dir fs' ns n = Get C dir fs ns n))"

inductive served :: "codec \<Rightarrow> string \<Rightarrow> fsys \<Rightarrow> history \<Rightarrow> fsys \<Rightarrow> bool" for C dir where
  served_Nil: "served C dir fs [] fs"
| served_Cons: "stepServed C dir q r fs fs1 \<Longrightarrow> served C dir fs1 evs fs' \<Longrightarrow> served C dir fs ((q, r) # evs) fs'"

inductive_simps served_simps [simp]: "served C dir fs [] fs'" "served C dir fs (e # evs) fs'"

lemma served_append: "served C dir fs (e1 @ e2) fs' \<longleftrightarrow> (\<exists>fs1. served C dir fs e1 fs1 \<and> served C dir fs1 e2 fs')"
  by (induction e1 arbitrary: fs) auto

text \<open>Calls that write no record.\<close>

definition writesNoRecord :: "string \<Rightarrow> clireq \<Rightarrow> bool" where
  "writesNoRecord dir q \<longleftrightarrow> (\<forall>k. q = Registry dir k \<longrightarrow> (\<exists>ns n. k = RegistryGet ns n) \<or> k = RegistryList)"

lemma stepServed_readErr: "stepServed C dir q r fs fs' \<Longrightarrow> fsReadErr fs' = fsReadErr fs"
proof -
  assume s: "stepServed C dir q r fs fs'"
  show ?thesis
  proof (cases "\<exists>k. q = Registry dir k")
    case True
    then obtain k where k: "q = Registry dir k" ..
    show ?thesis
      using s unfolding k stepServed_def by (cases k) (auto dest: Put_readErr Forget_readErr)
  qed (use s in \<open>simp add: stepServed_def\<close>)
qed

lemma served_readErr: "served C dir fs evs fs' \<Longrightarrow> fsReadErr fs' = fsReadErr fs"
  by (induction rule: served.induct) (auto dest: stepServed_readErr)

lemma stepServed_keeps: "stepServed C dir q r fs fs' \<Longrightarrow> writesNoRecord dir q \<Longrightarrow> Get C dir fs' ns n = Get C dir fs ns n"
  by (auto simp: stepServed_def writesNoRecord_def split: if_splits)

lemma served_keeps:
  "served C dir fs evs fs' \<Longrightarrow> \<forall>e\<in>set evs. writesNoRecord dir (fst e) \<Longrightarrow> Get C dir fs' ns n = Get C dir fs ns n"
  by (induction rule: served.induct) (auto dest: stepServed_keeps)

text \<open>What a program adds to a history consists of its own calls.\<close>

lemma wp_adds: "calls P p \<Longrightarrow> wp (\<lambda>_ _. True) p (\<lambda>_ h'. \<exists>new. h' = h @ new \<and> (\<forall>e\<in>set new. P (fst e))) h"
proof (induction p arbitrary: h)
  case (Call q k)
  have "wp (\<lambda>_ _. True) (k r) (\<lambda>_ h'. \<exists>new. h' = h @ new \<and> (\<forall>e\<in>set new. P (fst e))) (h @ [(q, r)])" for r
  proof (rule wp_mono [OF Call.IH [OF rangeI]])
    show "calls P (k r)" using Call.prems by simp
    fix a h' assume "\<exists>new. h' = (h @ [(q, r)]) @ new \<and> (\<forall>e\<in>set new. P (fst e))"
    then obtain new where "h' = (h @ [(q, r)]) @ new" "\<forall>e\<in>set new. P (fst e)" by (elim exE conjE)
    then show "\<exists>new. h' = h @ new \<and> (\<forall>e\<in>set new. P (fst e))"
      using Call.prems by (intro exI [of _ "(q, r) # new"]) simp
  qed
  then show ?case by simp
qed simp_all

text \<open>The last record a run wrote.\<close>

definition lastWrote :: "string \<Rightarrow> clusterRecord \<Rightarrow> history \<Rightarrow> bool" where
  "lastWrote dir r h \<longleftrightarrow> (\<exists>pre new. h = pre @ (Registry dir (RegistryPut r), CUnit (Inr ())) # new \<and>
     (\<forall>e\<in>set new. writesNoRecord dir (fst e)))"

lemma served_lastWrote:
  assumes "served C dir fs h fs'" "lastWrote dir r h" "\<And>now. roundTrips C (stamp now r)"
    and "fsReadErr fs (storePath dir (rcNamespace r) (rcName r)) = None"
  shows "\<exists>now. Get C dir fs' (rcNamespace r) (rcName r) = Inr (Some (stamp now r))"
proof -
  obtain pre new where h: "h = pre @ (Registry dir (RegistryPut r), CUnit (Inr ())) # new" "\<forall>e\<in>set new. writesNoRecord dir (fst e)"
    using assms(2) unfolding lastWrote_def by (elim exE conjE)
  obtain fs1 fs2 where s: "served C dir fs pre fs1" "stepServed C dir (Registry dir (RegistryPut r)) (CUnit (Inr ())) fs1 fs2"
    "served C dir fs2 new fs'"
    using assms(1) unfolding h(1) served_append served_simps by auto
  obtain now rnd fault e where p: "Put C dir now rnd fault r fs1 = (fs2, e)" "errorOf e = Inr ()"
    using s(2) by (auto simp: stepServed_def)
  have "e = None" using p(2) by (cases e) (simp_all add: errorOf_def)
  have "fsReadErr fs1 (storePath dir (rcNamespace r) (rcName r)) = None" using served_readErr [OF s(1)] assms(4) by simp
  from Put_Get [OF p(1) [unfolded \<open>e = None\<close>] assms(3) this]
  have "Get C dir fs' (rcNamespace r) (rcName r) = Inr (Some (stamp now r))" unfolding served_keeps [OF s(3) h(2)] .
  then show ?thesis ..
qed

lemma finish_lastWrote:
  "ensures (ejectFinish E o1 cfg f c) (\<lambda>_ h. \<exists>r. recordFor E o1 cfg (ejectedMode f) = Inr r \<and> lastWrote (opStateDir o1) r h)"
proof (cases "recordFor E o1 cfg (ejectedMode f)")
  case (Inr r)
  let ?rest = "\<lambda>_::unit. bindE (clustersRemaining c (cfgNamespace cfg)) (\<lambda>remaining.
      if efKeepBootstrap f then Ret (Inr ()) else if length remaining > 0 then Ret (Inr ())
      else deleteBootstrap (bcClusterName (gcBootstrap cfg)) (BootstrapKubeconfig o1))"
  have calls: "calls (writesNoRecord (opStateDir o1)) (?rest u)" for u
    unfolding clustersRemaining_def deleteBootstrap_def kindDelete_def
    by (intro calls_intros) (simp_all add: writesNoRecord_def)
  have last: "lastWrote (opStateDir o1) r h'" if "h' = (h @ [(Registry (opStateDir o1) (RegistryPut r), CUnit (Inr ()))]) @ new"
    "\<forall>e\<in>set new. writesNoRecord (opStateDir o1) (fst e)" for h h' new
    using that unfolding lastWrote_def by (intro exI [of _ h] exI [of _ new]) simp
  have "wp (\<lambda>_ _. True) (?rest ()) (\<lambda>x h'. lastWrote (opStateDir o1) r h') (h @ [(Registry (opStateDir o1) (RegistryPut r), CUnit (Inr ()))])" for h
    by (rule wp_mono [OF wp_adds [OF calls]]) (elim exE conjE, rule last)
  then have "wp (\<lambda>_ _. True) (?rest ()) (\<lambda>x h'. x = Inr () \<longrightarrow> lastWrote (opStateDir o1) r h') (h @ [(Registry (opStateDir o1) (RegistryPut r), CUnit (Inr ()))])" for h
    by (rule wp_mono) simp
  then show ?thesis
    unfolding ensures_def ejectFinish_def remember_def Inr sum.case registryPut_def wp_bindE [of _ "wrapE _ _"] wp_wrapE wp_perform
    by (simp add: Inr split: sum.split)
qed (simp add: ensures_def ejectFinish_def remember_def wp_bindE wp_wrapE)

lemma eject_lastWrote:
  assumes "LoadOptions E o1 = Inr cfg" "\<not> efDryRun f"
  shows "ensures (ejectCommand E o1 f) (\<lambda>_ h. \<exists>r. recordFor E o1 cfg (ejectedMode f) = Inr r \<and> lastWrote (opStateDir o1) r h)"
proof -
  let ?J = "\<lambda>h. \<exists>r. recordFor E o1 cfg (ejectedMode f) = Inr r \<and> lastWrote (opStateDir o1) r h"
  have a: "ensures (bindE (ejectHandover E o1 cfg f c) (\<lambda>_. if efDryRun f then Ret (Inr ()) else ejectFinish E o1 cfg f c))
      (\<lambda>_ h. ?J h \<and> (\<exists>u::unit. True))" for c
    by (rule ensures_bindE [OF ensures_True stays_const]) (simp add: assms(2) finish_lastWrote)
  have b: "ensures (bindE (ejectPrepare E o1 cfg f) (\<lambda>c. bindE (ejectHandover E o1 cfg f c)
      (\<lambda>_. if efDryRun f then Ret (Inr ()) else ejectFinish E o1 cfg f c))) (\<lambda>_ h. (?J h \<and> (\<exists>u::unit. True)) \<and> (\<exists>c::string. True))"
    by (rule ensures_bindE [OF ensures_True stays_const a])
  have "ensures (ejectCommand E o1 f) (\<lambda>_ h. ((?J h \<and> (\<exists>u::unit. True)) \<and> (\<exists>c::string. True)) \<and> (\<exists>u::unit. True))"
    unfolding ejectCommand_def assms(1) sum.case
    by (rule ensures_bindE [OF ensures_True stays_const b])
  then show ?thesis by (rule ensures_mono) simp
qed

text \<open>
  C4. A cluster that was ejected stays ejected. After \<^verbatim>\<open>eject\<close> returned success against a registry kept
  in files, whatever the other parts answered, each of \<^verbatim>\<open>init\<close>, \<^verbatim>\<open>cluster create\<close>, \<^verbatim>\<open>cluster delete\<close> and
  \<^verbatim>\<open>eject\<close> run next on the same configuration reads the record eject left, which says released or
  self-managed, and returns an error without any other call. The hypotheses are that the JSON
  encoder returns what it was given and that the record's file can be read.
\<close>

theorem ejected_cluster_is_refused:
  assumes "LoadOptions E o1 = Inr cfg" "RenderConfig (ceConfig E) cfg = Inr objs" "\<not> efDryRun f"
    and "replay (ejectCommand E o1 f) evs = Some (Inr ())" "served C (opStateDir o1) fs evs fs'"
    and "\<And>r. roundTrips C r" "fsReadErr fs (storePath (opStateDir o1) (cfgNamespace cfg) (cfgName cfg)) = None"
    and "p \<in> {initCommand E nm o1 img ld t, clusterCreate E o1 False w t, clusterDelete E o1 True t, ejectCommand E o1 f2}"
    and "replay p evs' = Some x" "served C (opStateDir o1) fs' evs' fs''"
  shows "\<exists>e r. x = Inl e \<and> rcMode r = ejectedMode f \<and>
    evs' = [(Registry (opStateDir o1) (RegistryGet (cfgNamespace cfg) (cfgName cfg)), CRecord (Inr (Some r)))]"
proof -
  obtain r where r: "recordFor E o1 cfg (ejectedMode f) = Inr r" "lastWrote (opStateDir o1) r evs"
    using ensures_replay [OF eject_lastWrote [OF assms(1,3)] assms(4)] by (elim exE conjE)
  have id: "rcNamespace r = cfgNamespace cfg" "rcName r = cfgName cfg" "rcMode r = ejectedMode f"
    using r(1) by (auto simp: recordFor_def recordOfIdentity_def Let_def split: sum.splits)
  obtain now where g: "Get C (opStateDir o1) fs' (cfgNamespace cfg) (cfgName cfg) = Inr (Some (stamp now r))"
    using served_lastWrote [OF assms(5) r(2) assms(6)] assms(7) unfolding id by blast
  have m: "rcMode (stamp now r) = ejectedMode f" "ejectedMode f \<noteq> Managed"
    by (simp_all add: stamp_def id(3) ejectedMode_def mode_defs)
  obtain k where p: "p = bindE (requireGenesisManaged E o1 cfg) k" using commands_start [OF assms(1,2,8)] ..
  let ?q = "Registry (opStateDir o1) (RegistryGet (cfgNamespace cfg) (cfgName cfg))"
  obtain reply es where evs': "evs' = (?q, reply) # es"
    using assms(9) unfolding p requireGenesisManaged_def registryGet_def
    by (cases evs') (auto simp: bindE_def perform_def split: if_splits)
  have reply: "reply = CRecord (Inr (Some (stamp now r)))"
    using assms(10) g unfolding evs' by (auto simp: stepServed_def)
  have "x = Inl (notGenesisManaged E (stamp now r)) \<and> es = []"
    using assms(9) m unfolding p requireGenesisManaged_def registryGet_def evs' reply
    by (cases es) (auto simp: bindE_def perform_def)
  then show ?thesis using m(1) unfolding evs' reply by (intro exI [of _ "notGenesisManaged E (stamp now r)"] exI [of _ "stamp now r"]) simp
qed

subsection \<open>A run of eject on a registry in files\<close>

definition modeRecord :: "string \<Rightarrow> clusterRecord" where
  "modeRecord m = (case recordFor exampleCE exampleOptions exampleLoaded m of Inr r \<Rightarrow> stamp 5 r | Inl _ \<Rightarrow> KG_Registry.exampleRecord)"

definition modeCodec :: codec where
  "modeCodec = \<lparr>marshalRecord = (\<lambda>r. if r = modeRecord Managed then Inr ''m'' else if r = modeRecord Released then Inr ''r'' else Inl (errorf ''json'')),
     unmarshalRecord = (\<lambda>d. if d = ''m'' @ [CHR 0x0A] then Inr (modeRecord Managed)
       else if d = ''r'' @ [CHR 0x0A] then Inr (modeRecord Released) else Inl (errorf ''json''))\<rparr>"

lemma modeCodec_ok: "roundTrips modeCodec r"
  by (auto simp: roundTrips_def modeCodec_def)

lemma modeRecord_put:
  assumes "m \<in> {Managed, Released}" "recordFor exampleCE exampleOptions exampleLoaded m = Inr r"
  shows "\<exists>fs'. Put modeCodec (opStateDir exampleOptions) 5 ''x'' None r fs = (fs', None)"
proof -
  have n: "cfgName exampleLoaded \<noteq> []" "cfgNamespace exampleLoaded \<noteq> []" by code_simp+
  have wd: "isAbs wd" if "ceGetwd exampleCE = Inr wd" for wd using that by (auto simp: exampleCliEnv_def isAbs_def)
  have "ValidateRecord (stamp 5 r) = None" using recordFor_valid [OF assms(2) n _ wd] assms(1) by auto
  moreover have "stamp 5 r = modeRecord m" using assms(2) by (simp add: modeRecord_def)
  then have "\<exists>data. marshalRecord modeCodec (stamp 5 r) = Inr data" using assms(1) by (auto simp: modeCodec_def)
  ultimately show ?thesis by (auto simp: Put_def Let_def)
qed

definition onlyPuts :: "clireq \<Rightarrow> bool" where
  "onlyPuts q \<longleftrightarrow> (\<forall>d k. q = Registry d k \<longrightarrow> d = opStateDir exampleOptions \<and>
     (\<exists>m r. m \<in> {Managed, Released} \<and> recordFor exampleCE exampleOptions exampleLoaded m = Inr r \<and> k = RegistryPut r))"

lemma exampleUp_served:
  "\<forall>e\<in>set evs. onlyPuts (fst e) \<and> snd e = exampleUp [] (fst e) \<Longrightarrow>
   \<exists>fs'. served modeCodec (opStateDir exampleOptions) fs evs fs'"
proof (induction evs arbitrary: fs)
  case (Cons e evs)
  have "\<exists>fs1. stepServed modeCodec (opStateDir exampleOptions) (fst e) (snd e) fs fs1"
  proof (cases "\<exists>k. fst e = Registry (opStateDir exampleOptions) k")
    case True
    then obtain k where k: "fst e = Registry (opStateDir exampleOptions) k" ..
    have "onlyPuts (fst e)" using Cons.prems by simp
    then have "\<exists>m r. m \<in> {Managed, Released} \<and> recordFor exampleCE exampleOptions exampleLoaded m = Inr r \<and> k = RegistryPut r"
      unfolding onlyPuts_def k by simp
    then obtain m r where m: "m \<in> {Managed, Released}" "recordFor exampleCE exampleOptions exampleLoaded m = Inr r" "k = RegistryPut r"
      by (elim exE conjE)
    note r = m(1,2) k [unfolded m(3)]
    obtain fs' where p: "Put modeCodec (opStateDir exampleOptions) 5 ''x'' None r fs = (fs', None)"
      using modeRecord_put [OF r(1,2)] ..
    have "snd e = CUnit (errorOf None)" using Cons.prems r(3) by (simp add: exampleUp_def errorOf_def)
    then have "stepServed modeCodec (opStateDir exampleOptions) (fst e) (snd e) fs fs'"
      unfolding stepServed_def r(3) using p by auto
    then show ?thesis ..
  next
    case False
    then have "stepServed modeCodec (opStateDir exampleOptions) (fst e) (snd e) fs fs" by (simp add: stepServed_def)
    then show ?thesis ..
  qed
  then obtain fs1 where s: "stepServed modeCodec (opStateDir exampleOptions) (fst e) (snd e) fs fs1" ..
  obtain fs' where "served modeCodec (opStateDir exampleOptions) fs1 evs fs'" using Cons by auto
  then show ?case using s by (intro exI [of _ fs']) (cases e, auto)
qed (auto intro: served_Nil)

lemma exampleEject_served:
  "\<exists>evs fs'. replay (ejectCommand exampleCE exampleOptions exampleFlags) evs = Some (Inr ()) \<and>
     served modeCodec (opStateDir exampleOptions) exampleFs evs fs'"
proof -
  let ?body = "bindE (ejectPrepare exampleCE exampleOptions exampleLoaded exampleFlags) (\<lambda>c. bindE (ejectHandover exampleCE exampleOptions exampleLoaded exampleFlags c)
      (\<lambda>_. if efDryRun exampleFlags then Ret (Inr ()) else ejectFinish exampleCE exampleOptions exampleLoaded exampleFlags c))"
  let ?get = "Registry (opStateDir exampleOptions) (RegistryGet (cfgNamespace exampleLoaded) (cfgName exampleLoaded))"
  have mode: "ejectedMode exampleFlags = Released" by (simp add: ejectedMode_def exampleFlags_def)
  have calls: "calls onlyPuts ?body"
    by (rule eject_body_calls) (auto simp: onlyPuts_def mode)
  have "outcome (exampleUp []) ?body = Some (Inr ())"
    using exampleUp_eject(1) [OF exampleUp_alone] by (simp add: ejectCommand_def exampleLoad exampleUp_guard)
  from outcome_requests [OF this] obtain evs where
    e: "replay ?body evs = Some (Inr ())" "\<forall>e\<in>set evs. snd e = exampleUp [] (fst e)" by (elim exE conjE)
  have own: "\<forall>e\<in>set evs. onlyPuts (fst e)" using calls_replay [OF calls e(1)] by blast
  obtain fs' where s: "served modeCodec (opStateDir exampleOptions) exampleFs evs fs'"
    using exampleUp_served [of evs exampleFs] e(2) own by blast
  have "replay (ejectCommand exampleCE exampleOptions exampleFlags) ((?get, CRecord (Inr None)) # evs) = Some (Inr ())"
    using e(1) by (simp add: ejectCommand_def exampleLoad requireGenesisManaged_def registryGet_def bindE_def perform_def)
  moreover have "stepServed modeCodec (opStateDir exampleOptions) ?get (CRecord (Inr None)) exampleFs exampleFs"
    by (simp add: stepServed_def Get_def readRecord_def fsRead_def exampleFs_def notExist_def)
  then have "served modeCodec (opStateDir exampleOptions) exampleFs ((?get, CRecord (Inr None)) # evs) fs'"
    using s by auto
  ultimately show ?thesis by (intro exI [of _ "(?get, CRecord (Inr None)) # evs"] exI [of _ fs']) (rule conjI)
qed

theorem ejected_cluster_is_refused_witness:
  "\<exists>evs fs' evs' r e. replay (ejectCommand exampleCE exampleOptions exampleFlags) evs = Some (Inr ()) \<and>
     served modeCodec (opStateDir exampleOptions) exampleFs evs fs' \<and>
     replay (ejectCommand exampleCE exampleOptions exampleFlags) evs' = Some (Inl e) \<and>
     evs' = [(Registry (opStateDir exampleOptions) (RegistryGet (cfgNamespace exampleLoaded) (cfgName exampleLoaded)),
       CRecord (Inr (Some r)))] \<and> rcMode r = Released"
proof -
  let ?p = "ejectCommand exampleCE exampleOptions exampleFlags"
  let ?get = "Registry (opStateDir exampleOptions) (RegistryGet (cfgNamespace exampleLoaded) (cfgName exampleLoaded))"
  obtain objs where obj: "RenderConfig (ceConfig exampleCE) exampleLoaded = Inr objs"
    using exampleLoaded_renders by (auto simp: exampleCliEnv_def)
  obtain evs fs' where e: "replay ?p evs = Some (Inr ())" "served modeCodec (opStateDir exampleOptions) exampleFs evs fs'"
    using exampleEject_served by (elim exE conjE)
  have dry: "\<not> efDryRun exampleFlags" by (simp add: exampleFlags_def)
  have mode: "ejectedMode exampleFlags = Released" by (simp add: ejectedMode_def exampleFlags_def)
  have readable: "fsReadErr exampleFs p = None" for p by (simp add: exampleFs_def)
  obtain r where r: "recordFor exampleCE exampleOptions exampleLoaded (ejectedMode exampleFlags) = Inr r" "lastWrote (opStateDir exampleOptions) r evs"
    using ensures_replay [OF eject_lastWrote [OF exampleLoad dry] e(1)] by (elim exE conjE)
  have id: "rcNamespace r = cfgNamespace exampleLoaded" "rcName r = cfgName exampleLoaded" "rcMode r = Released"
    using r(1) by (auto simp: recordFor_def recordOfIdentity_def Let_def mode split: sum.splits)
  obtain now where g: "Get modeCodec (opStateDir exampleOptions) fs' (cfgNamespace exampleLoaded) (cfgName exampleLoaded) = Inr (Some (stamp now r))"
    using served_lastWrote [OF e(2) r(2) modeCodec_ok readable] unfolding id by blast
  let ?evs' = "[(?get, CRecord (Inr (Some (stamp now r))))]"
  have "rcMode (stamp now r) \<noteq> Managed" by (simp add: stamp_def id(3) mode_defs)
  then obtain x where x: "replay ?p ?evs' = Some x"
    by (simp add: ejectCommand_def exampleLoad requireGenesisManaged_def registryGet_def bindE_def perform_def)
  have s: "served modeCodec (opStateDir exampleOptions) fs' ?evs' fs'" using g by (simp add: stepServed_def)
  from ejected_cluster_is_refused [OF exampleLoad obj dry e(1,2) modeCodec_ok readable insertI2 [OF insertI2 [OF insertI2 [OF singletonI]]] x s]
  obtain y z where y: "x = Inl y" "rcMode z = ejectedMode exampleFlags" "?evs' = [(?get, CRecord (Inr (Some z)))]" by (elim exE conjE)
  show ?thesis
    by (intro exI [of _ evs] exI [of _ fs'] exI [of _ ?evs'] exI [of _ z] exI [of _ y] conjI e)
      (use x y mode in simp_all)
qed


subsection \<open>From the configuration to the machine\<close>

text \<open>
  C14. The controller dials what the configuration says, with the parameters the CLI uses. For each
  host of a rendered configuration there are a Host and a Secret among the objects such that the
  controller's \<^verbatim>\<open>sshConfigFor\<close>, given that secret, and the CLI's \<^verbatim>\<open>sshConfigFor\<close>, given the key file,
  produce the same address, port, user, credential and policy. Only the expected host key can
  differ: on first contact the controller has one under Strict alone, the CLI whenever one is
  configured. The hypotheses are that the fingerprints tell the credentials in use apart and
  that the host has a credential.
\<close>

theorem controller_dials_the_configuration:
  assumes "RenderConfig E cfg = Inr objs" "distinct (map hcfName (gcHosts cfg))"
    and "inj_on fingerprintOf (credentials E cfg)" "h \<in> set (gcHosts cfg)"
    and "credentialOf E h = Inr cr" "crPrivateKey cr \<noteq> [] \<or> crPassword cr \<noteq> []"
  shows "\<exists>ho\<in>set (obHosts objs). \<exists>s\<in>set (obSecrets objs). hName ho = hcfName h \<and>
    replay (sshConfigFor ho) [(GetSecret (mNamespace (scMeta s), mName (scMeta s)), RSecret (Inr s))] =
      Some (Inr ((cliSshConfig h (crPrivateKey cr))\<lparr>cfKnownPublicKey :=
        (if hcfHostKeyPolicy h = PolicyStrict then hcfPublicKey h else [])\<rparr>)) \<and>
    (\<exists>evs. replay (cliSshConfigFor h) evs = Some (Inr (cliSshConfig h (crPrivateKey cr))))"
proof -
  obtain ho s where r: "ho \<in> set (obHosts objs)" "s \<in> set (obSecrets objs)" "ho = renderHost cfg h (hsSSHSecretRef (hSpec ho))"
    "mNamespace (scMeta s) = mNamespace (hMeta ho)" "mName (scMeta s) = hsSSHSecretRef (hSpec ho)"
    "mapGet (scData s) ''private_key'' = crPrivateKey cr" "mapGet (scData s) ''passphrase'' = crPassphrase cr"
    "mapGet (scData s) ''password'' = crPassword cr"
    using host_secret [OF assms(1-4)] assms(5) by auto
  have cred: "crPassphrase cr = hcfPassphrase h" "crPassword cr = hcfPassword h"
    using assms(5) by (auto simp: credentialOf_def Let_def split: if_splits sum.splits)
  have spec: "hName ho = hcfName h" "hsAddress (hSpec ho) = hcfAddress h" "hsPort (hSpec ho) = sint (hcfPort h)" "hsUser (hSpec ho) = hcfUser h"
    "hsHostKeyPolicy (hSpec ho) = hcfHostKeyPolicy h" "hsPublicKey (hSpec ho) = hcfPublicKey h" "stObservedPublicKey (hStatus ho) = []"
    by (subst r(3), simp add: renderHost_def)+
  have conf: "configOf ho s = (cliSshConfig h (crPrivateKey cr))\<lparr>cfKnownPublicKey := (if hcfHostKeyPolicy h = PolicyStrict then hcfPublicKey h else [])\<rparr>"
    using r(6-8) by (simp add: configOf_def cliSshConfig_def spec cred SecretKeyPrivateKey_def SecretKeyPassphrase_def SecretKeyPassword_def)
  have ctl: "replay (sshConfigFor ho) [(GetSecret (mNamespace (scMeta s), mName (scMeta s)), RSecret (Inr s))] = Some (Inr (configOf ho s))"
    using assms(6) cred by (auto simp: sshConfigFor_def getSecret_def Let_def conf cliSshConfig_def r(4,5))
  have "\<exists>evs. replay (cliSshConfigFor h) evs = Some (Inr (cliSshConfig h (crPrivateKey cr)))"
  proof (cases "hcfPrivateKeyPath h = []")
    case True
    then have "crPrivateKey cr = []" using assms(5) by (auto simp: credentialOf_def Let_def)
    then show ?thesis using True by (intro exI [of _ "[]"]) (simp add: cliSshConfigFor_def)
  next
    case False
    then show ?thesis
      by (intro exI [of _ "[(File (ReadFileAt (hcfPrivateKeyPath h)), CText (Inr (crPrivateKey cr)))]"])
        (simp add: cliSshConfigFor_def wrapE_def bindE_def perform_def)
  qed
  then show ?thesis using r(1,2) ctl spec(1) unfolding conf by blast
qed

text \<open>
  So a host key configured under the TOFU policy binds the CLI alone: on first contact the
  controller takes any key, where \<^verbatim>\<open>inventory check\<close> refuses every key but the configured one.
\<close>

lemma tofu_ignores_configured_key:
  assumes "hcfHostKeyPolicy h = PolicyTOFU" "hcfPublicKey h \<noteq> []"
    and "\<not> sameAuthorizedKey L (hcfPublicKey h) presented"
  shows "hostKeyCallback L ((cliSshConfig h key)\<lparr>cfKnownPublicKey := []\<rparr>) addr presented = Inr ()"
    and "\<exists>e. hostKeyCallback L (cliSshConfig h key) addr presented = Inl e"
  using assms by (auto simp: hostKeyCallback_def cliSshConfig_def PolicyTOFU_def PolicyStrict_def PolicyInsecure_def Let_def)

theorem controller_dials_the_configuration_witness:
  "\<exists>objs ho s c. RenderConfig (ceConfig exampleCE) exampleLoaded = Inr objs \<and> ho \<in> set (obHosts objs) \<and> s \<in> set (obSecrets objs) \<and>
     replay (sshConfigFor ho) [(GetSecret (mNamespace (scMeta s), mName (scMeta s)), RSecret (Inr s))] = Some (Inr c) \<and>
     cfPrivateKey c = ''text''"
proof -
  obtain objs where r: "RenderConfig (exampleEnv exampleTwo) exampleLoaded = Inr objs" using exampleLoaded_renders by blast
  have "gcHosts exampleLoaded \<noteq> []" by code_simp
  then obtain h where h: "h \<in> set (gcHosts exampleLoaded)" by (cases "gcHosts exampleLoaded") auto
  have i: "inj_on fingerprintOf (credentials (exampleEnv exampleTwo) exampleLoaded)" by (simp add: exampleLoaded_credentials)
  obtain cr where cr: "credentialOf (exampleEnv exampleTwo) h = Inr cr" by (simp add: exampleEnv_credentialOf)
  then have "cr \<in> credentials (exampleEnv exampleTwo) exampleLoaded" using h by (auto simp: credentials_def)
  then have k: "crPrivateKey cr = ''text''" by (simp add: exampleLoaded_credentials)
  then have "crPrivateKey cr \<noteq> [] \<or> crPassword cr \<noteq> []" by simp
  from controller_dials_the_configuration [OF r exampleLoaded_valid(2) i h cr this] obtain ho s where
    w: "ho \<in> set (obHosts objs)" "s \<in> set (obSecrets objs)"
      "replay (sshConfigFor ho) [(GetSecret (mNamespace (scMeta s), mName (scMeta s)), RSecret (Inr s))] =
        Some (Inr ((cliSshConfig h (crPrivateKey cr))\<lparr>cfKnownPublicKey := (if hcfHostKeyPolicy h = PolicyStrict then hcfPublicKey h else [])\<rparr>))"
    by (elim bexE conjE)
  have e: "ceConfig exampleCE = exampleEnv exampleTwo" by (simp add: exampleCliEnv_def)
  show ?thesis
    unfolding e by (intro exI [of _ objs] exI [of _ ho] exI [of _ s] exI conjI, rule r, rule w(1), rule w(2), rule w(3))
      (simp add: cliSshConfig_def k)
qed

text \<open>
  C27. What is loaded can be deployed. A configuration that \<^verbatim>\<open>Load\<close> accepts and the renderer renders
  contains its HostCluster, once, with the configured endpoint, and the cluster reconciler reports that
  object provisioned and keeps it so: the wait of every machine for its cluster infrastructure
  ends.
\<close>

theorem loaded_cluster_is_provisioned:
  assumes "Load E path = Inr cfg" "RenderConfig E cfg = Inr objs" "conditionsLib K" "finalizersLib K"
  shows "\<exists>hc. filter (\<lambda>ob. \<exists>x. ob = OHostCluster x) (AllObjects objs) = [OHostCluster hc] \<and>
    hcEndpointHost hc = epHost (ccControlPlaneEndpoint (gcCluster cfg)) \<and>
    hcEndpointPort hc = sint (epPort (ccControlPlaneEndpoint (gcCluster cfg))) \<and>
    (\<forall>n. hcProvisioned ((reconcileCluster K ^^ Suc n) hc) = Some True)"
proof -
  let ?hc = "renderHostCluster cfg"
  have pools: "filter (\<lambda>ob. \<exists>x. ob = OHostCluster x) (concat (map (poolObjects cfg) ws)) = []" for ws
    by (induction ws) (simp_all add: poolObjects_def split: prod.split)
  have one: "filter (\<lambda>ob. \<exists>x. ob = OHostCluster x) (AllObjects objs) = [OHostCluster ?hc]"
    by (rule RenderConfig_parts [OF assms(2)]) (simp add: AllObjects_def pools filter_map o_def)
  have set: "endpointSet ?hc" "mDeletionTimestamp (hcMeta ?hc) = None"
    using Load_checked [OF assms(1)] by (simp_all add: endpointSet_def renderHostCluster_def freshMeta_def signed_eq_0_iff)
  have keep: "endpointSet (reconcileCluster K hc) = endpointSet hc" "mDeletionTimestamp (hcMeta (reconcileCluster K hc)) = mDeletionTimestamp (hcMeta hc)" for hc
    by (simp_all add: reconcileCluster_def endpointSet_def clusterReady_def clusterFinalizers_def Let_def)
  have "endpointSet ((reconcileCluster K ^^ n) ?hc) \<and> mDeletionTimestamp (hcMeta ((reconcileCluster K ^^ n) ?hc)) = None" for n
    by (induction n) (simp_all add: set keep)
  then have "hcProvisioned ((reconcileCluster K ^^ Suc n) ?hc) = Some True" for n
    using reconcileCluster_live(1) [OF _ assms(4,3)] by simp
  then show ?thesis using one by (intro exI [of _ ?hc]) (simp add: renderHostCluster_def)
qed

theorem loaded_cluster_is_provisioned_witness:
  "\<exists>objs hc. RenderConfig (exampleEnv exampleTwo) exampleLoaded = Inr objs \<and> OHostCluster hc \<in> set (AllObjects objs) \<and>
     hcProvisioned (reconcileCluster exampleK8s hc) = Some True"
proof -
  obtain objs where r: "RenderConfig (exampleEnv exampleTwo) exampleLoaded = Inr objs" using exampleLoaded_renders by blast
  have l: "Load (exampleEnv exampleTwo) ''/etc/kg/kg.yaml'' = Inr exampleLoaded"
    using exampleTwo_loads by (simp add: exampleLoaded_def)
  obtain hc where hc: "filter (\<lambda>ob. \<exists>x. ob = OHostCluster x) (AllObjects objs) = [OHostCluster hc]"
    "\<forall>n. hcProvisioned ((reconcileCluster exampleK8s ^^ Suc n) hc) = Some True"
    using loaded_cluster_is_provisioned [OF l r exampleK8s_ok] by (elim exE conjE)
  have "OHostCluster hc \<in> set (filter (\<lambda>ob. \<exists>x. ob = OHostCluster x) (AllObjects objs))" unfolding hc(1) by simp
  then have "OHostCluster hc \<in> set (AllObjects objs)" by simp
  moreover have "hcProvisioned (reconcileCluster exampleK8s hc) = Some True" using spec [OF hc(2), of 0] by simp
  ultimately show ?thesis using r by blast
qed


text \<open>
  The labels of a configured host go over its role: with the role label among them, the rendered
  host is offered under the label's role, while validation and the counts of the CLI go by the
  configured one.
\<close>

lemma role_label_overridden:
  assumes "hcfLabels h = [(RoleLabel, v)]"
  shows "mapGet (mLabels (hMeta (renderHost cfg h s))) RoleLabel = v"
  using assms by (simp add: renderHost_def hostLabels_def freshMeta_def mapGet_def)

end
