(* ===== verification/KG_Progress.thy ===== *)
theory KG_Progress
  imports KG_CliCluster
begin

text \<open>
  Progress of the waiting commands. \<^verbatim>\<open>KG_CliCluster\<close> says what \<^verbatim>\<open>cluster create --wait\<close> and
  \<^verbatim>\<open>cluster delete\<close> do when they succeed; here they do succeed: against a genesis node that takes
  the writes and brings the cluster up, or lets it go, within the timeout, both commands return
  without an error. The clock of these statements is the number of polling intervals that passed:
  a call takes no time, so of a real timeout they speak about what the calls leave of it.
\<close>

subsection \<open>Executions of composed programs\<close>

lemma execute_bind:
  "execute srv (bind p f) h = (case execute srv p h of (h', r) \<Rightarrow> (case r of None \<Rightarrow> (h', None) | Some a \<Rightarrow> execute srv (f a) h'))"
  by (induction p arbitrary: h) (simp_all split: prod.split)

lemma execute_perform [simp]: "execute srv (perform q sel) h = (h @ [(q, srv h q)], sel (srv h q))"
  by (simp add: perform_def split: option.split)

lemma execute_bind_Some [simp]: "execute srv p h = (h', Some a) \<Longrightarrow> execute srv (bind p f) h = execute srv (f a) h'"
  by (simp add: execute_bind)

lemma execute_bindE_Inr [simp]: "execute srv p h = (h', Some (Inr a)) \<Longrightarrow> execute srv (bindE p f) h = execute srv (f a) h'"
  by (simp add: bindE_def)

lemma execute_errors_Inr [simp]:
  "execute srv p h = (h', Some (Inr a)) \<Longrightarrow> execute srv (wrapE s p) h = (h', Some (Inr a))"
  "execute srv p h = (h', Some (Inr a)) \<Longrightarrow> execute srv (hintE s p) h = (h', Some (Inr a))"
  by (simp_all add: wrapE_def hintE_def)

subsection \<open>The clock\<close>

definition isWait :: "clireq \<Rightarrow> bool" where
  "isWait q = (case q of Wait d \<Rightarrow> True | _ \<Rightarrow> False)"

definition waits :: "history \<Rightarrow> nat" where
  "waits h = length (filter (\<lambda>e. isWait (fst e)) h)"

lemma waits_simps [simp]:
  "waits [] = 0" "waits (h @ h') = waits h + waits h'" "waits (e # h) = (if isWait (fst e) then 1 else 0) + waits h"
  by (simp_all add: waits_def)

lemma isWait_simps [simp]:
  "isWait (Wait d)" "\<not> isWait (Kube c k)" "\<not> isWait (Registry dir g)" "\<not> isWait (LoadKubeconfig p)" "\<not> isWait (BuildClient p)"
  by (simp_all add: isWait_def)

text \<open>
  A polling loop reaches its goal. Each pass either ends with \<open>good\<close> or waits one interval, and a
  pass that starts after \<open>m\<close> intervals ends with \<open>good\<close>; then the loop ends with \<open>good\<close> if \<open>m\<close>
  intervals fit in the deadline.
\<close>

context polling
begin

lemma reaches:
  assumes "\<And>h k. clock h < m \<Longrightarrow> (\<exists>h'. execute srv (pass k) h = (h', Some good)) \<or>
      (\<exists>h'. clock h' = Suc (clock h) \<and> execute srv (pass k) h = execute srv (k True) h')"
    and "\<And>h k. clock h = m \<Longrightarrow> \<exists>h'. execute srv (pass k) h = (h', Some good)"
    and "clock h \<le> m" "int (m - clock h) * d \<le> T"
  shows "\<exists>h'. execute srv (loop T) h = (h', Some good)"
  using assms(3,4)
proof (induction "m - clock h" arbitrary: h T)
  case 0
  then show ?case unfolding unfolds [of T] by (intro assms(2)) simp
next
  case (Suc n)
  let ?k = "\<lambda>elapsed. if \<not> elapsed \<or> T < d then Ret late else loop (T - d)"
  have lt: "clock h < m" using Suc.hyps(2) by simp
  have room: "(int n + 1) * d \<le> T" using Suc.hyps(2) Suc.prems(2) by (metis of_nat_Suc add.commute)
  moreover have "0 \<le> int n * d" using interval by simp
  ultimately have T: "\<not> T < d" "int n * d \<le> T - d" by (simp_all add: algebra_simps)
  have "\<exists>h''. execute srv (loop (T - d)) h' = (h'', Some good)" if "clock h' = Suc (clock h)" for h'
  proof (rule Suc.hyps(1))
    show left: "n = m - clock h'" "clock h' \<le> m" using that Suc.hyps(2) lt by simp_all
    show "int (m - clock h') * d \<le> T - d" unfolding left(1) [symmetric] by (rule T(2))
  qed
  then show ?case unfolding unfolds [of T] using assms(1) [OF lt, of ?k] T(1) by auto
qed

end


subsection \<open>A partner that cooperates\<close>

text \<open>
  A genesis node and a registry that take every write, and a context that is not cancelled. The
  registry gives the cluster as managed or does not know it. What else they answer is left open.
\<close>

definition cooperative :: "(history \<Rightarrow> clireq \<Rightarrow> cliresp) \<Rightarrow> bool" where
  "cooperative srv \<longleftrightarrow> (\<forall>h. (\<forall>d. srv h (Wait d) = CElapsed True) \<and>
     (\<forall>p. srv h (LoadKubeconfig p) = CUnit (Inr ()) \<and> srv h (BuildClient p) = CUnit (Inr ())) \<and>
     (\<forall>c x. srv h (Kube c (ApplyObject x)) = CUnit (Inr ())) \<and>
     (\<forall>c x. srv h (Kube c (DeleteLiveCluster x)) = CUnit (Inr ())) \<and>
     (\<forall>d r. srv h (Registry d (RegistryPut r)) = CUnit (Inr ())) \<and>
     (\<forall>d ns n. srv h (Registry d (RegistryForget ns n)) = CUnit (Inr ())) \<and>
     (\<forall>d ns n. \<exists>r. srv h (Registry d (RegistryGet ns n)) = CRecord (Inr r) \<and> (\<forall>x. r = Some x \<longrightarrow> rcMode x = Managed)) \<and>
     (\<forall>c ns. \<exists>hs. srv h (Kube c (ListHostsIn ns)) = CHosts (Inr hs)))"

lemma cooperative_replies:
  assumes "cooperative srv"
  shows "srv h (Wait d) = CElapsed True" "srv h (LoadKubeconfig p) = CUnit (Inr ())" "srv h (BuildClient p) = CUnit (Inr ())"
    "srv h (Kube c (ApplyObject x)) = CUnit (Inr ())" "srv h (Kube c (DeleteLiveCluster cl)) = CUnit (Inr ())"
    "srv h (Registry dir (RegistryPut rec)) = CUnit (Inr ())" "srv h (Registry dir (RegistryForget ns n)) = CUnit (Inr ())"
    "\<exists>r. srv h (Registry dir (RegistryGet ns n)) = CRecord (Inr r) \<and> (\<forall>x. r = Some x \<longrightarrow> rcMode x = Managed)"
    "\<exists>hs. srv h (Kube c (ListHostsIn m)) = CHosts (Inr hs)"
  using assms unfolding cooperative_def by blast+

lemma cooperative_guard:
  assumes "cooperative srv"
  shows "\<exists>h'. execute srv (requireGenesisManaged E o1 cfg) h = (h', Some (Inr ())) \<and> waits h' = waits h"
proof -
  let ?q = "Registry (opStateDir o1) (RegistryGet (cfgNamespace cfg) (cfgName cfg))"
  obtain r where r: "srv h ?q = CRecord (Inr r)" "\<forall>x. r = Some x \<longrightarrow> rcMode x = Managed"
    using cooperative_replies(8) [OF assms] by blast
  have "execute srv (registryGet o1 (cfgNamespace cfg) (cfgName cfg)) h = (h @ [(?q, CRecord (Inr r))], Some (Inr r))"
    by (simp add: registryGet_def r(1))
  then show ?thesis using r(2) by (cases r) (simp_all add: requireGenesisManaged_def)
qed

lemma cooperative_client:
  assumes "cooperative srv"
  shows "\<exists>h'. execute srv (NewClient p) h = (h', Some (Inr p)) \<and> waits h' = waits h"
  by (simp add: NewClient_def cooperative_replies [OF assms])

lemma cooperative_apply:
  assumes "cooperative srv"
  shows "\<exists>h'. execute srv (Apply c objs) h = (h', Some (Inr ())) \<and> waits h' = waits h"
  unfolding Apply_def
proof (induction objs arbitrary: h)
  case (Cons a objs)
  show ?case using Cons.IH [of "h @ [(Kube c (ApplyObject a), CUnit (Inr ()))]"] by (simp add: cooperative_replies [OF assms])
qed simp

subsection \<open>Deleting\<close>

lemma cooperative_released:
  assumes "cooperative srv"
  shows "\<exists>h'. execute srv (bindE (reportReleasedHosts c ns) (\<lambda>_. Ret (Inr ()))) h = (h', Some (Inr ()))"
proof -
  obtain hs where "srv h (Kube c (ListHostsIn (Some ns))) = CHosts (Inr hs)" using cooperative_replies(9) [OF assms] by blast
  then show ?thesis by (simp add: reportReleasedHosts_def)
qed

lemma gone_in_time:
  assumes "cooperative srv" "\<And>h. srv h (Kube c (GetLiveCluster key)) = CCluster (if waits h < m then Inr (cl h) else Inl nf)"
    "ekind nf = ErrNotFound" "waits h = 0" "int m * seconds 10 \<le> T"
  shows "\<exists>h'. execute srv (waitForClusterGone c key T) h = (h', Some (Inr ()))"
proof (rule gone_wait.reaches [where clock = waits and m = m])
  let ?q = "Kube c (GetLiveCluster key)"
  let ?rest = "\<lambda>k (r :: liveCluster result). case r of
     Inl e \<Rightarrow> if ekind e = ErrNotFound then bindE (reportReleasedHosts c (fst key)) (\<lambda>_. Ret (Inr ())) else Ret (Inl e)
   | Inr _ \<Rightarrow> bind (perform (Wait goneInterval) elapsedOf) k"
  fix h and k :: "bool \<Rightarrow> unit result cli"
  have run: "execute srv (bind (perform ?q liveOf) (?rest k)) h =
      execute srv (?rest k (if waits h < m then Inr (cl h) else Inl nf)) (h @ [(?q, srv h ?q)])"
    by (rule execute_bind_Some) (simp add: assms(2))
  show "(\<exists>h'. execute srv (bind (perform ?q liveOf) (?rest k)) h = (h', Some (Inr ()))) \<or>
      (\<exists>h'. waits h' = Suc (waits h) \<and> execute srv (bind (perform ?q liveOf) (?rest k)) h = execute srv (k True) h')"
    if "waits h < m"
    unfolding run using that
    by (intro disjI2 exI [of _ "(h @ [(?q, srv h ?q)]) @ [(Wait goneInterval, CElapsed True)]"])
      (simp add: cooperative_replies [OF assms(1)])
  show "\<exists>h'. execute srv (bind (perform ?q liveOf) (?rest k)) h = (h', Some (Inr ()))" if "waits h = m"
    unfolding run using that by (simp add: assms(3) cooperative_released [OF assms(1)])
qed (use assms(4,5) in \<open>simp_all add: goneInterval_def\<close>)


text \<open>
  C20. \<^verbatim>\<open>cluster delete\<close> completes. Against a genesis node that lets the Cluster go after \<open>m\<close> polling
  intervals, takes the deletion and lists its hosts, and a registry that works, the command
  returns without an error whenever \<open>m\<close> intervals of ten seconds fit in its timeout, and it has
  dropped the entry of the cluster from the registry.
\<close>

theorem clusterDelete_completes:
  assumes "LoadOptions E o1 = Inr cfg" "cooperative srv"
    "\<And>h. srv h (Kube (BootstrapKubeconfig o1) (GetLiveCluster (cfgNamespace cfg, cfgName cfg))) =
       CCluster (if waits h < m then Inr (cl h) else Inl nf)"
    "ekind nf = ErrNotFound" "int m * seconds 10 \<le> T"
  shows "\<exists>evs. execute srv (clusterDelete E o1 True T) [] = (evs, Some (Inr ())) \<and>
    (Registry (opStateDir o1) (RegistryForget (cfgNamespace cfg) (cfgName cfg)), CUnit (Inr ())) \<in> set evs"
proof -
  let ?c = "BootstrapKubeconfig o1" and ?key = "(cfgNamespace cfg, cfgName cfg)"
  let ?get = "Kube ?c (GetLiveCluster ?key)" and ?forget = "Registry (opStateDir o1) (RegistryForget (cfgNamespace cfg) (cfgName cfg))"
  obtain h1 where g: "execute srv (requireGenesisManaged E o1 cfg) [] = (h1, Some (Inr ()))" "waits h1 = 0"
    using cooperative_guard [OF assms(2), of E o1 cfg "[]"] by auto
  obtain h2 where n: "execute srv (NewClient ?c) h1 = (h2, Some (Inr ?c))" "waits h2 = 0"
    using cooperative_client [OF assms(2), of ?c h1] g(2) by auto
  have forget: "execute srv (registryForget o1 (cfgNamespace cfg) (cfgName cfg)) h = (h @ [(?forget, CUnit (Inr ()))], Some (Inr ()))" for h
    by (simp add: registryForget_def cooperative_replies [OF assms(2)])
  have "\<exists>h. execute srv (deleteFrom o1 cfg ?c T) h2 = (h @ [(?forget, CUnit (Inr ()))], Some (Inr ()))"
  proof (cases m)
    case 0
    then show ?thesis by (simp add: deleteFrom_def Let_def assms(3,4) forget)
  next
    case (Suc k)
    let ?h3 = "(h2 @ [(?get, srv h2 ?get)]) @ [(Kube ?c (DeleteLiveCluster (cl h2)), CUnit (Inr ()))]"
    have "waits ?h3 = 0" using n(2) by simp
    then obtain h4 where w: "execute srv (waitForClusterGone ?c ?key T) ?h3 = (h4, Some (Inr ()))"
      using gone_in_time [OF assms(2,3,4) _ assms(5), of ?h3] by blast
    have "execute srv (deleteFrom o1 cfg ?c T) h2 =
        execute srv (bindE (waitForClusterGone ?c ?key T) (\<lambda>_. registryForget o1 (cfgNamespace cfg) (cfgName cfg))) ?h3"
      using n(2) Suc by (simp add: deleteFrom_def Let_def assms(3) cooperative_replies [OF assms(2)])
    then show ?thesis using w by (simp add: forget)
  qed
  then obtain h where "execute srv (clusterDelete E o1 True T) [] = (h @ [(?forget, CUnit (Inr ()))], Some (Inr ()))"
    using g(1) n(1) by (auto simp: clusterDelete_def assms(1))
  then show ?thesis by simp
qed


subsection \<open>Creating\<close>

text \<open>
  The machines of the cluster as the genesis node lists them: \<open>ms i\<close> after \<open>i\<close> intervals. None of
  them ever fails its bootstrap.
\<close>

definition comesUp :: "(history \<Rightarrow> clireq \<Rightarrow> cliresp) \<Rightarrow> string \<Rightarrow> genesisConfig \<Rightarrow> (nat \<Rightarrow> liveMachine list) \<Rightarrow> bool" where
  "comesUp srv c cfg ms \<longleftrightarrow> (\<forall>h.
     (\<exists>cl. srv h (Kube c (GetLiveCluster (cfgNamespace cfg, cfgName cfg))) = CCluster (Inr cl)) \<and>
     srv h (Kube c (ListLiveMachines (cfgNamespace cfg) (cfgName cfg))) = CMachines (Inr (ms (waits h))) \<and>
     (\<exists>hms. srv h (Kube c (ListHostMachinesIn (cfgNamespace cfg))) = CHostMachines (Inr hms) \<and>
        (\<forall>hm\<in>set hms. bootstrapFailure hm = None)))"

lemma comesUp_summary:
  assumes "cooperative srv" "comesUp srv c cfg ms"
  shows "\<exists>h' s. execute srv (clusterSummary E c cfg) h = (h', Some (Inr s)) \<and> waits h' = waits h \<and> suFailures s = [] \<and>
    (\<exists>cl hs hms. s = summaryOf cfg cl (ms (waits h)) hs hms)"
proof -
  let ?q1 = "Kube c (GetLiveCluster (cfgNamespace cfg, cfgName cfg))" and ?q2 = "Kube c (ListLiveMachines (cfgNamespace cfg) (cfgName cfg))"
  let ?q3 = "Kube c (ListHostsIn (Some (cfgNamespace cfg)))" and ?q4 = "Kube c (ListHostMachinesIn (cfgNamespace cfg))"
  have up: "\<exists>cl. srv h ?q1 = CCluster (Inr cl)" "srv h ?q2 = CMachines (Inr (ms (waits h)))"
      "\<exists>hms. srv h ?q4 = CHostMachines (Inr hms) \<and> (\<forall>hm\<in>set hms. bootstrapFailure hm = None)" for h
    using assms(2) unfolding comesUp_def by blast+
  obtain cl where r1: "srv h ?q1 = CCluster (Inr cl)" using up(1) by blast
  let ?h2 = "(h @ [(?q1, srv h ?q1)]) @ [(?q2, CMachines (Inr (ms (waits h))))]"
  obtain hs where r3: "srv ?h2 ?q3 = CHosts (Inr hs)" using cooperative_replies(9) [OF assms(1)] by blast
  let ?h3 = "?h2 @ [(?q3, CHosts (Inr hs))]"
  obtain hms where r4: "srv ?h3 ?q4 = CHostMachines (Inr hms)" "\<forall>hm\<in>set hms. bootstrapFailure hm = None" using up(3) by blast
  have none: "List.map_filter bootstrapFailure hms = []" using r4(2) by (induction hms) (simp_all add: List.map_filter_simps)
  have "execute srv (clusterSummary E c cfg) h = (?h3 @ [(?q4, CHostMachines (Inr hms))], Some (Inr (summaryOf cfg cl (ms (waits h)) hs hms)))"
    using r1 r3 r4(1) by (simp add: clusterSummary_def up(2))
  moreover have "suFailures (summaryOf cfg cl (ms (waits h)) hs hms) = []" by (simp add: summaryOf_def none)
  ultimately show ?thesis by (intro exI conjI) (assumption, simp, assumption, rule refl)
qed

lemma ready_in_time:
  assumes "cooperative srv" "comesUp srv c cfg ms" "\<And>cl hs hms. ready (summaryOf cfg cl (ms m) hs hms)"
    "waits h = 0" "int m * seconds 15 \<le> T"
  shows "\<exists>h'. execute srv (waitForCluster E c cfg T) h = (h', Some (Inr ()))"
proof (rule ready_wait.reaches [where clock = waits and m = m])
  let ?rest = "\<lambda>k s. if ready s then Ret (Inr ()) else if suFailures s \<noteq> [] then Ret (Inl (newBootstrapFailedError (suFailures s)))
     else bind (perform (Wait pollInterval) elapsedOf) k"
  fix h and k :: "bool \<Rightarrow> unit result cli"
  obtain h' s where s: "execute srv (clusterSummary E c cfg) h = (h', Some (Inr s))" "waits h' = waits h" "suFailures s = []"
    "\<exists>cl hs hms. s = summaryOf cfg cl (ms (waits h)) hs hms" using comesUp_summary [OF assms(1,2), of E h] by blast
  have run: "execute srv (bindE (clusterSummary E c cfg) (?rest k)) h = execute srv (?rest k s) h'" by (simp add: s(1))
  show "(\<exists>h'. execute srv (bindE (clusterSummary E c cfg) (?rest k)) h = (h', Some (Inr ()))) \<or>
      (\<exists>h'. waits h' = Suc (waits h) \<and> execute srv (bindE (clusterSummary E c cfg) (?rest k)) h = execute srv (k True) h')"
    unfolding run
  proof (cases "ready s")
    case False
    then show "(\<exists>h''. execute srv (?rest k s) h' = (h'', Some (Inr ()))) \<or>
        (\<exists>h''. waits h'' = Suc (waits h) \<and> execute srv (?rest k s) h' = execute srv (k True) h'')"
      by (intro disjI2 exI [of _ "h' @ [(Wait pollInterval, CElapsed True)]"]) (simp add: s(2,3) cooperative_replies [OF assms(1)])
  qed simp
  show "\<exists>h'. execute srv (bindE (clusterSummary E c cfg) (?rest k)) h = (h', Some (Inr ()))" if "waits h = m"
    unfolding run using s(4) assms(3) that by auto
qed (use assms(4,5) in \<open>simp_all add: pollInterval_def\<close>)

subsection \<open>Installing the CNI\<close>

text \<open>
  What the CNI step needs: kubeconfig files that can be looked up and written, a kubeconfig of the
  workload cluster from clusterctl, and for every configured manifest a source that is read or fetched and whose text
  decodes to documents, which the workload cluster takes.
\<close>

definition decodes :: "cliEnv \<Rightarrow> string \<Rightarrow> bool" where
  "decodes E data \<longleftrightarrow> (\<exists>docs. DecodeManifest (ceDecode E) data = Inr docs)"

definition offers :: "cliEnv \<Rightarrow> (clireq \<Rightarrow> cliresp) \<Rightarrow> string \<Rightarrow> bool" where
  "offers E answer source \<longleftrightarrow>
     (if isURL source
      then answer (HttpRequest source) = CUnit (Inr ()) \<and>
        (\<exists>status data. answer (HttpGet source) = CHttp (Inr (200, status, Inr data)) \<and> decodes E data)
      else \<exists>data. answer (File (ReadFileAt source)) = CText (Inr data) \<and> decodes E data)"

definition servesCNI :: "cliEnv \<Rightarrow> (history \<Rightarrow> clireq \<Rightarrow> cliresp) \<Rightarrow> genesisConfig \<Rightarrow> bool" where
  "servesCNI E srv cfg \<longleftrightarrow> (\<forall>h. srv h (Tool NewClusterctl) = CUnit (Inr ()) \<and>
     (\<forall>p. srv h (File (StatFile p)) = CUnit (Inr ()) \<and> srv h (File (MkdirAll p)) = CUnit (Inr ())) \<and>
     (\<forall>p k. srv h (File (WriteFileAt p k)) = CUnit (Inr ())) \<and>
     (\<forall>m n ns. \<exists>k. srv h (Tool (ClusterctlKubeconfig m n ns)) = CText (Inr k)) \<and>
     (\<forall>c d. srv h (Kube c (ApplyDoc d)) = CUnit (Inr ())) \<and>
     (\<forall>source\<in>set (cniManifests (ccCNI (gcCluster cfg))). offers E (srv h) source))"

lemma servesCNI_replies:
  assumes "servesCNI E srv cfg"
  shows "srv h (Tool NewClusterctl) = CUnit (Inr ())" "srv h (File (StatFile p)) = CUnit (Inr ())"
    "srv h (File (MkdirAll p)) = CUnit (Inr ())" "srv h (File (WriteFileAt p k)) = CUnit (Inr ())"
    "srv h (Kube c (ApplyDoc d)) = CUnit (Inr ())"
    "\<exists>k. srv h (Tool (ClusterctlKubeconfig m n ns)) = CText (Inr k)"
    "source \<in> set (cniManifests (ccCNI (gcCluster cfg))) \<Longrightarrow> offers E (srv h) source"
  using assms unfolding servesCNI_def by blast+

lemma fetch_completes:
  assumes "servesCNI E srv cfg"
  shows "\<exists>h'. execute srv (fetchKubeconfig E o1 cfg management path) h = (h', Some (Inr path))"
proof -
  note r = servesCNI_replies [OF assms]
  let ?h1 = "h @ [(File (StatFile management), CUnit (Inr ()))]"
  let ?h2 = "?h1 @ [(Tool NewClusterctl, CUnit (Inr ()))]"
  obtain k where k: "srv ?h2 (Tool (ClusterctlKubeconfig management (cfgName cfg) (cfgNamespace cfg))) = CText (Inr k)"
    using r(6) by blast
  have get: "execute srv (GetKubeconfig management (cfgName cfg) (cfgNamespace cfg)) ?h1 =
      (?h2 @ [(Tool (ClusterctlKubeconfig management (cfgName cfg) (cfgNamespace cfg)), CText (Inr k))], Some (Inr k))"
    using k by (simp add: GetKubeconfig_def newClusterctl_def r)
  have writes: "\<exists>h'. execute srv (writeKubeconfig path k) h0 = (h', Some (Inr ()))" for h0
    by (simp add: writeKubeconfig_def r)
  then obtain h3 where "execute srv (writeKubeconfig path k)
      (?h2 @ [(Tool (ClusterctlKubeconfig management (cfgName cfg) (cfgNamespace cfg)), CText (Inr k))]) = (h3, Some (Inr ()))"
    by blast
  then show ?thesis using get by (simp add: fetchKubeconfig_def stat_def r)
qed

lemma workload_completes:
  assumes "cooperative srv" "servesCNI E srv cfg"
  shows "\<exists>h' path. execute srv (requireWorkloadKubeconfig E o1 cfg) h = (h', Some (Inr path))"
proof -
  let ?q = "Registry (opStateDir o1) (RegistryGet (cfgNamespace cfg) (cfgName cfg))"
  obtain r where r: "srv h ?q = CRecord (Inr r)" "\<forall>x. r = Some x \<longrightarrow> rcMode x = Managed"
    using cooperative_replies(8) [OF assms(1)] by blast
  have get: "execute srv (registryGet o1 (cfgNamespace cfg) (cfgName cfg)) h = (h @ [(?q, CRecord (Inr r))], Some (Inr r))"
    by (simp add: registryGet_def r(1))
  have fetch: "\<exists>h' p. execute srv (fetchKubeconfig E o1 cfg m path) (h @ [(?q, CRecord (Inr r))]) = (h', Some (Inr p))" for m path
    using fetch_completes [OF assms(2)] by blast
  have mode: "Managed \<noteq> Released" by (simp add: Managed_def Released_def)
  show ?thesis using get r(2) fetch mode by (cases r) (simp_all add: requireWorkloadKubeconfig_def)
qed

lemma manifest_completes:
  assumes "servesCNI E srv cfg" "source \<in> set (cniManifests (ccCNI (gcCluster cfg)))"
  shows "\<exists>h' data docs. execute srv (readManifest source) h = (h', Some (Inr data)) \<and> DecodeManifest (ceDecode E) data = Inr docs"
proof (cases "isURL source")
  case True
  let ?h1 = "h @ [(HttpRequest source, CUnit (Inr ()))]"
  have o: "offers E (srv h) source" "offers E (srv ?h1) source" using servesCNI_replies(7) [OF assms(1) assms(2)] by blast+
  have r: "srv h (HttpRequest source) = CUnit (Inr ())" using o(1) True by (simp add: offers_def)
  obtain status data docs where g: "srv ?h1 (HttpGet source) = CHttp (Inr (200, status, Inr data))" "DecodeManifest (ceDecode E) data = Inr docs"
    using o(2) True unfolding offers_def decodes_def by auto
  have "execute srv (readManifest source) h = (?h1 @ [(HttpGet source, CHttp (Inr (200, status, Inr data)))], Some (Inr data))"
    using True g(1) r by (auto simp: readManifest_def isURL_def)
  then show ?thesis using g(2) by blast
next
  case False
  have "offers E (srv h) source" using servesCNI_replies(7) [OF assms(1) assms(2)] .
  then obtain data docs where g: "srv h (File (ReadFileAt source)) = CText (Inr data)" "DecodeManifest (ceDecode E) data = Inr docs"
    using False unfolding offers_def decodes_def by auto
  have "execute srv (readManifest source) h = (h @ [(File (ReadFileAt source), CText (Inr data))], Some (Inr data))"
    using False g(1) by (simp add: readManifest_def isURL_def)
  then show ?thesis using g(2) by blast
qed

lemma docs_complete:
  assumes "servesCNI E srv cfg"
  shows "\<exists>h'. execute srv (ApplyObjects c docs) h = (h', Some (Inr ()))"
  unfolding ApplyObjects_def
proof (induction docs arbitrary: h)
  case (Cons d docs)
  show ?case using Cons.IH [of "h @ [(Kube c (ApplyDoc d), CUnit (Inr ()))]"] by (simp add: servesCNI_replies [OF assms])
qed simp

lemma execute_eachE:
  assumes "\<And>x h. x \<in> set xs \<Longrightarrow> \<exists>h'. execute srv (f x) h = (h', Some (Inr ()))"
  shows "\<exists>h'. execute srv (eachE f xs) h = (h', Some (Inr ()))"
  using assms
proof (induction xs arbitrary: h)
  case (Cons x xs)
  obtain h1 where "execute srv (f x) h = (h1, Some (Inr ()))" using Cons.prems [of x h] by auto
  then show ?case using Cons.IH [of h1] Cons.prems by simp
qed simp

lemma cni_completes:
  assumes "servesCNI E srv cfg"
  shows "\<exists>h'. execute srv (installCNI E c cfg) h = (h', Some (Inr ()))"
  unfolding installCNI_def
proof (rule execute_eachE)
  fix source h
  assume "source \<in> set (cniManifests (ccCNI (gcCluster cfg)))"
  from manifest_completes [OF assms this] obtain h1 data docs where
    m: "execute srv (readManifest source) h = (h1, Some (Inr data))" "DecodeManifest (ceDecode E) data = Inr docs"
    by blast
  obtain h2 where "execute srv (ApplyObjects c docs) h1 = (h2, Some (Inr ()))" using docs_complete [OF assms] by blast
  then show "\<exists>h'. execute srv (bindE (readManifest source) (\<lambda>data.
      wrapE (''apply '' @ source) (ApplyManifest (ceDecode E) c data))) h = (h', Some (Inr ()))"
    using m by (simp add: ApplyManifest_def)
qed

text \<open>
  C19. \<^verbatim>\<open>cluster create --wait\<close> completes. Against a genesis node that takes the objects and whose
  machines all run after \<open>m\<close> polling intervals, none having failed, the command returns without
  an error whenever \<open>m\<close> intervals of fifteen seconds fit in its timeout. The configuration
  renders and its record can be written; if it names CNI manifests, these can be read and decode,
  clusterctl hands out the kubeconfig, and the workload cluster takes the documents.
\<close>

theorem clusterCreate_completes:
  assumes "LoadOptions E o1 = Inr cfg" "RenderConfig (ceConfig E) cfg = Inr objs" "recordFor E o1 cfg Managed = Inr r"
    "HasCNI (ccCNI (gcCluster cfg)) \<Longrightarrow> servesCNI E srv cfg" "cooperative srv" "comesUp srv (BootstrapKubeconfig o1) cfg ms"
    "\<And>cl hs hms. ready (summaryOf cfg cl (ms m) hs hms)" "int m * seconds 15 \<le> T"
  shows "\<exists>evs. execute srv (clusterCreate E o1 False True T) [] = (evs, Some (Inr ()))"
proof -
  let ?c = "BootstrapKubeconfig o1"
  obtain h1 where g: "execute srv (requireGenesisManaged E o1 cfg) [] = (h1, Some (Inr ()))" "waits h1 = 0"
    using cooperative_guard [OF assms(5), of E o1 cfg "[]"] by auto
  obtain h2 where n: "execute srv (NewClient ?c) h1 = (h2, Some (Inr ?c))" "waits h2 = 0"
    using cooperative_client [OF assms(5), of ?c h1] g(2) by auto
  obtain h3 where a: "execute srv (Apply ?c (AllObjects objs)) h2 = (h3, Some (Inr ()))" "waits h3 = 0"
    using cooperative_apply [OF assms(5), of ?c "AllObjects objs" h2] n(2) by auto
  obtain h4 where p: "execute srv (remember E o1 cfg Managed) h3 = (h4, Some (Inr ()))" "waits h4 = 0"
    using a(2) by (simp add: remember_def assms(3) registryPut_def cooperative_replies [OF assms(5)])
  obtain h5 where w: "execute srv (waitForCluster E ?c cfg T) h4 = (h5, Some (Inr ()))"
    using ready_in_time [OF assms(5,6,7) p(2) assms(8)] by blast
  have "execute srv (createApply E o1 cfg objs) [] = (h4, Some (Inr ?c))"
    by (simp add: createApply_def g(1) n(1) a(1) p(1))
  moreover have "\<exists>h6. execute srv (createWait E o1 cfg ?c T) h4 = (h6, Some (Inr ()))"
  proof (cases "HasCNI (ccCNI (gcCluster cfg))")
    case True
    note s = assms(4) [OF True]
    obtain h6 path where k: "execute srv (requireWorkloadKubeconfig E o1 cfg) h5 = (h6, Some (Inr path))"
      using workload_completes [OF assms(5) s] by blast
    obtain h7 where c: "execute srv (NewClient path) h6 = (h7, Some (Inr path))"
      using cooperative_client [OF assms(5)] by blast
    obtain h8 where "execute srv (installCNI E path cfg) h7 = (h8, Some (Inr ()))" using cni_completes [OF s] by blast
    then show ?thesis using w k c True by (simp add: createWait_def)
  qed (use w in \<open>simp add: createWait_def\<close>)
  ultimately show ?thesis by (auto simp: clusterCreate_def assms(1,2))
qed

subsection \<open>A node that takes two intervals\<close>

text \<open>The cluster's second machine runs after two intervals, and the Cluster is gone after two.\<close>

definition exampleSlow :: "history \<Rightarrow> clireq \<Rightarrow> cliresp" where
  "exampleSlow h q = (case q of
       Wait d \<Rightarrow> CElapsed True
     | Kube c (ListLiveMachines ns n) \<Rightarrow> CMachines (Inr (if waits h < 2 then [hd exampleMachines] else exampleMachines))
     | Kube c (ListHostMachinesIn ns) \<Rightarrow> CHostMachines (Inr [])
     | _ \<Rightarrow> exampleAnswer q)"

definition exampleGone :: goerror where
  "exampleGone = \<lparr>emsg = ''not found'', ekind = ErrNotFound\<rparr>"

definition exampleLeaving :: "history \<Rightarrow> clireq \<Rightarrow> cliresp" where
  "exampleLeaving h q = (case q of
       Kube c (GetLiveCluster k) \<Rightarrow> CCluster (if waits h < 2 then Inr exampleStray else Inl exampleGone)
     | _ \<Rightarrow> exampleSlow h q)"

lemma example_cooperative: "cooperative exampleSlow" "cooperative exampleLeaving"
  by (simp_all add: cooperative_def exampleLeaving_def exampleSlow_def)

theorem clusterDelete_completes_witness:
  "\<exists>evs. execute exampleLeaving (clusterDelete exampleCE exampleOptions True (seconds 60)) [] = (evs, Some (Inr ())) \<and>
    (Registry (opStateDir exampleOptions) (RegistryForget (cfgNamespace exampleLoaded) (cfgName exampleLoaded)), CUnit (Inr ())) \<in> set evs"
proof -
  have g: "exampleLeaving h (Kube (BootstrapKubeconfig exampleOptions) (GetLiveCluster (cfgNamespace exampleLoaded, cfgName exampleLoaded))) =
      CCluster (if waits h < 2 then Inr exampleStray else Inl exampleGone)" for h
    by (simp add: exampleLeaving_def)
  have n: "ekind exampleGone = ErrNotFound" by (simp add: exampleGone_def)
  have t: "int 2 * seconds 10 \<le> seconds 60" by (simp add: seconds_def)
  show ?thesis by (rule clusterDelete_completes [OF exampleLoad example_cooperative(2) g n t])
qed

text \<open>A configuration with a CNI manifest, which is one document.\<close>

definition exampleCni :: genesisConfig where
  "exampleCni = exampleTwo\<lparr>gcCluster := (gcCluster exampleTwo)\<lparr>ccCNI := \<lparr>cniManifests = [''https://example.com/cni.yaml'']\<rparr>\<rparr>\<rparr>"

definition exampleCniLoaded :: genesisConfig where
  "exampleCniLoaded = ApplyDefaults (resolvePaths (exampleEnv exampleCni) ''/etc/kg'' exampleCni)"

definition exampleCniCE :: cliEnv where
  "exampleCniCE = (exampleCliEnv (exampleEnv exampleCni))\<lparr>ceDecode := (\<lambda>_. [Inr [(''kind'', VStr ''DaemonSet'')]])\<rparr>"

lemma exampleCni_loads: "LoadOptions exampleCniCE exampleOptions = Inr exampleCniLoaded"
proof -
  have "Load (exampleEnv exampleCni) ''/etc/kg/kg.yaml'' = Inr exampleCniLoaded" by code_simp
  then show ?thesis by (simp add: LoadOptions_def exampleCniCE_def exampleCliEnv_def exampleOptions_def)
qed

lemma exampleCni_record: "\<exists>r. recordFor exampleCniCE exampleOptions exampleCniLoaded Managed = Inr r"
proof -
  have "isAbs (workloadPath exampleOptions (cfgNamespace exampleCniLoaded) (cfgName exampleCniLoaded))"
    "isAbs (BootstrapKubeconfig exampleOptions)" by code_simp+
  then show ?thesis by (simp add: recordFor_def recordOfIdentity_def absPath_def Let_def)
qed

lemma exampleCni_ready: "ready (summaryOf exampleCniLoaded cl exampleMachines hs hms)"
proof -
  have "ccControlPlaneReplicas (gcCluster exampleCniLoaded) = 1" "totalWorkers exampleCniLoaded = 1" by code_simp+
  moreover have "countMachines isRunning exampleMachines = 2" "countMachines (\<lambda>m. isControlPlane m \<and> isRunning m) exampleMachines = 1"
    by code_simp+
  ultimately show ?thesis by (simp add: ready_def summaryOf_def)
qed

theorem clusterCreate_completes_witness:
  "HasCNI (ccCNI (gcCluster exampleCniLoaded)) \<and>
   (\<exists>evs. execute exampleSlow (clusterCreate exampleCniCE exampleOptions False True (seconds 60)) [] = (evs, Some (Inr ())))"
proof -
  let ?ms = "\<lambda>i::nat. if i < 2 then [hd exampleMachines] else exampleMachines"
  obtain objs where r: "RenderConfig (ceConfig exampleCniCE) exampleCniLoaded = Inr objs"
    using RenderConfig_total [of "exampleEnv exampleCni" exampleCniLoaded] exampleEnv_credentialOf
    by (auto simp: exampleCniCE_def exampleCliEnv_def)
  obtain rec where rec: "recordFor exampleCniCE exampleOptions exampleCniLoaded Managed = Inr rec" using exampleCni_record by blast
  have sources: "cniManifests (ccCNI (gcCluster exampleCniLoaded)) = [''https://example.com/cni.yaml'']" by code_simp
  have cni: "servesCNI exampleCniCE exampleSlow exampleCniLoaded"
    by (simp add: servesCNI_def exampleSlow_def sources offers_def decodes_def DecodeManifest_def exampleCniCE_def)
  have up: "comesUp exampleSlow (BootstrapKubeconfig exampleOptions) exampleCniLoaded ?ms"
    by (simp add: comesUp_def exampleSlow_def)
  have ready: "ready (summaryOf exampleCniLoaded cl (?ms 2) hs hms)" for cl hs hms by (simp add: exampleCni_ready)
  have t: "int 2 * seconds 15 \<le> seconds 60" by (simp add: seconds_def)
  show ?thesis
    using clusterCreate_completes [OF exampleCni_loads r rec cni example_cooperative(1) up ready t]
    by (simp add: HasCNI_def sources)
qed

end
