(* ===== verification/Spec2Isabelle.thy ===== *)
theory Spec2Isabelle
  imports KG_ClaimSafety KG_System KG_Progress
begin

text \<open>
  Verification of kg, which turns prepared Linux hosts into Kubernetes clusters over SSH. A person
  writes a configuration of hosts and a cluster; the command line (\<^verbatim>\<open>cmd/kg\<close>, \<^verbatim>\<open>internal/cli\<close>) starts a
  genesis node, a kind cluster with Cluster API and the controllers of this repository
  (\<^verbatim>\<open>cmd/manager\<close>, \<^verbatim>\<open>internal/controller\<close>), renders the configuration to API objects and applies them.
  The controllers hand hosts to machines, run kubeadm on them over SSH (\<^verbatim>\<open>internal/ssh\<close>,
  \<^verbatim>\<open>internal/provisioner\<close>, \<^verbatim>\<open>internal/cloudinit\<close>) and report back in the objects. A registry of files
  (\<^verbatim>\<open>internal/registry\<close>) remembers on the local machine who manages which cluster; \<^verbatim>\<open>eject\<close> hands a cluster over
  to itself or releases it.

  \<^bold>\<open>How the program is modelled.\<close> Pure Go functions are HOL functions of the same name over the
  source's structs (records), strings (byte lists), \<^verbatim>\<open>int32\<close> (words) and maps (association lists where
  order or duplicates matter). An error is a value: \<open>'a result\<close> is \<open>goerror + 'a\<close>, the error with its
  text and the kind that \<^verbatim>\<open>errors.Is\<close> and \<^verbatim>\<open>apierrors\<close> ask for. Code that calls the outside is a value of
  \<open>('q, 'r, 'a) cmd\<close>: a program returns, or makes one call and goes on with its reply. \<open>replay\<close> runs a
  program on a list of calls with their replies, \<open>cutoff\<close> is a run that a crash ends after any call,
  \<open>execute\<close> runs it against a partner that sees the history. A statement about every list holds for every
  behaviour of the API server, the hosts, the file system and other writers between two calls.

  \<^bold>\<open>Theories\<close>, from the bottom up (files are under \<^verbatim>\<open>src/\<close>):

  \<^item> \<^verbatim>\<open>KG_Prelude\<close>: results, three-way comparators, Go's stable sort; the locales \<open>strict_weak\<close> and
    \<open>three_way\<close>. \<^verbatim>\<open>KG_GoStrings\<close>, \<^verbatim>\<open>KG_GoPath\<close>: the part of Go's \<^verbatim>\<open>strings\<close>, \<^verbatim>\<open>strconv\<close>, \<^verbatim>\<open>filepath\<close> and \<^verbatim>\<open>net\<close>
    that is used. \<^verbatim>\<open>KG_Prog\<close>: \<open>cmd\<close>, the calls of the controllers and the SSH layer, \<open>replay\<close>, \<open>cutoff\<close>, \<open>calls\<close>.
  \<^item> \<^verbatim>\<open>KG_ApiTypes\<close>: \<^verbatim>\<open>api/v1alpha1/*_types.go\<close>, \<^verbatim>\<open>internal/controller/helpers.go\<close> and the fields of other APIs that are
    read. Status phases and condition reasons are the source's constants.
  \<^item> \<^verbatim>\<open>KG_Shell\<close>, \<^verbatim>\<open>KG_Ssh\<close>: \<^verbatim>\<open>internal/ssh/client.go\<close>. Quoting with a reference shell reader; \<^verbatim>\<open>Dial\<close>, the host
    key callback, \<^verbatim>\<open>Run\<close>, \<^verbatim>\<open>RunSudo\<close>, \<^verbatim>\<open>WriteFile\<close>. \<^verbatim>\<open>KG_Sha256\<close>: \<^verbatim>\<open>crypto/sha256\<close>, for fingerprints and checksums.
  \<^item> \<^verbatim>\<open>KG_Connection\<close>: \<^verbatim>\<open>internal/controller/connection.go\<close>, from a Host and its Secret to a connection with a pinned key.
  \<^item> \<^verbatim>\<open>KG_CloudInit\<close>: \<^verbatim>\<open>internal/cloudinit/cloudinit.go\<close> and \<^verbatim>\<open>kubeadm.go\<close>, bootstrap data to a script, with the
    identity of the machine stamped into the kubeadm documents.
  \<^item> \<^verbatim>\<open>KG_Provisioner\<close>: \<^verbatim>\<open>internal/provisioner/provisioner.go\<close> and \<^verbatim>\<open>probe.go\<close>, the detached bootstrap run, what its files
    on the host say, and the probe of a host.
  \<^item> \<^verbatim>\<open>KG_Inventory\<close>: \<^verbatim>\<open>internal/inventory/order.go\<close>, the natural order of host names.
  \<^item> \<^verbatim>\<open>KG_HostController\<close>, \<^verbatim>\<open>KG_HostClusterController\<close>, \<^verbatim>\<open>KG_HostMachineController\<close>: the three reconcilers of
    \<^verbatim>\<open>internal/controller\<close>, whole reconciles with finalizers, guards and the deferred patch. \<^verbatim>\<open>KG_ClaimSafety\<close>: any number of
    claims interleaved call by call over one API server with optimistic concurrency (an \<open>inductive\<close> step relation).
  \<^item> \<^verbatim>\<open>KG_Config\<close>: \<^verbatim>\<open>internal/config/types.go\<close> and \<^verbatim>\<open>load.go\<close>, loading, defaults, validation. \<^verbatim>\<open>KG_Render\<close>:
    \<^verbatim>\<open>internal/render/render.go\<close> and \<^verbatim>\<open>controlplane.go\<close>, configuration to objects.
  \<^item> \<^verbatim>\<open>KG_Registry\<close>: \<^verbatim>\<open>internal/registry/registry.go\<close> over an explicit file system in which every step can fail
    and a crash can stop between any two; the locale \<open>record_store\<close>.
  \<^item> \<^verbatim>\<open>KG_CliProg\<close>: the calls of the command line, weakest preconditions over the history of calls, \<open>execute\<close>, the
    number of calls, and the locale \<open>polling\<close>. \<^verbatim>\<open>KG_Kube\<close>: \<^verbatim>\<open>internal/kube\<close>, \<^verbatim>\<open>internal/capi\<close>, \<^verbatim>\<open>internal/bootstrap\<close>.
  \<^item> \<^verbatim>\<open>KG_CliRegistry\<close>: \<^verbatim>\<open>cli/root.go\<close>, \<^verbatim>\<open>name.go\<close>, \<^verbatim>\<open>registry.go\<close>, \<^verbatim>\<open>kubeconfig.go\<close>. \<^verbatim>\<open>KG_CliCluster\<close>: \<^verbatim>\<open>cli/cluster.go\<close>, \<^verbatim>\<open>cni.go\<close>,
    \<^verbatim>\<open>clusters.go\<close>, \<^verbatim>\<open>registered_status.go\<close>. \<^verbatim>\<open>KG_CliInventory\<close>: \<^verbatim>\<open>cli/inventory.go\<close>. \<^verbatim>\<open>KG_Eject\<close>: \<^verbatim>\<open>cli/init.go\<close>,
    \<^verbatim>\<open>pivot.go\<close>, \<^verbatim>\<open>image.go\<close>, \<^verbatim>\<open>reset.go\<close>. \<^verbatim>\<open>KG_CliConfig\<close>: \<^verbatim>\<open>cli/config.go\<close>, \<^verbatim>\<open>version.go\<close> and \<^verbatim>\<open>internal/version\<close>.
  \<^item> \<^verbatim>\<open>KG_Progress\<close>: the waiting commands return without an error when the cluster comes up, or goes, in time.
  \<^item> \<^verbatim>\<open>KG_System\<close>: the parts put together: commands over a registry in files, the configuration through
    rendering to what the controllers dial and report.

  \<^bold>\<open>What is shown.\<close>

  \<^item> Claims: a host is given to at most one machine under any interleaving, only when it is free and usable, and
    a claim that was given stays until its machine is deleted, when its host is released for others (\<^verbatim>\<open>KG_ClaimSafety\<close>, \<^verbatim>\<open>KG_HostMachineController\<close>).
  \<^item> Machines: a bootstrap run is launched only after the host showed the checksum of another script and the
    rendered one was written there, a machine counts as provisioned only when its host shows that checksum and exit code zero, the finalizer
    goes only after the host was released or is gone; the host pool is probed before it is offered, and a claimed host is left to its machine until that is gone.
  \<^item> Hosts: credentials go only to a server whose key the policy accepts, first contact pins the key, a cut off
    start never reads as a run, status is a refinement of the files, quoting and here-documents read back,
    kubeadm documents carry the machine's identity.
  \<^item> Configuration: validation is equivalent to a declarative definition of validity, what \<^verbatim>\<open>Load\<close> returns is
    complete, valid and a fixed point of the defaults, rendered objects have distinct identities and every reference resolves.
  \<^item> Registry: the file store refines a map under any sequence of operations and faults, and a \<^verbatim>\<open>Put\<close> that
    dies anywhere leaves the old or the new state.
  \<^item> Commands: what each may do at each history, up to any interruption: guards come first, \<^verbatim>\<open>delete\<close> forgets only
    what is gone, \<^verbatim>\<open>eject\<close> deletes the genesis node last and only without clusters, a release only pauses; a
    successful \<^verbatim>\<open>create --wait\<close> has seen the cluster ready, every wait ends within its timeout and, when the
    cluster comes in time, without an error.

  \<^bold>\<open>Interfaces.\<close> \<open>strict_weak\<close> and \<open>three_way\<close> are what \<^verbatim>\<open>sort\<close> needs of a comparison (interpreted on \<^verbatim>\<open>strCompare\<close>, the
  chunk and name orders, the registry's order); \<open>record_store\<close> is what the commands need of the registry
  (interpreted on \<^verbatim>\<open>Get\<close>, \<^verbatim>\<open>Put\<close>, \<^verbatim>\<open>Forget\<close> over files); \<open>polling\<close> is a loop with an interval and a deadline
  (interpreted on the four waits of the command line).

  \<^bold>\<open>Parameters and hypotheses.\<close> Code that is not in the repository is an argument: \<open>k8sLib\<close> (label
  selectors, conditions, finalizers of Cluster API and apimachinery), \<open>sshLib\<close> (key parsing and formatting of
  \<^verbatim>\<open>golang.org/x/crypto/ssh\<close>), \<open>lib\<close> (YAML, gzip, \<^verbatim>\<open>fmt\<close> of non-strings), \<open>codec\<close> (\<^verbatim>\<open>encoding/json\<close>),
  \<open>configEnv\<close> (file reads, the home directory and the strict YAML decoder) and \<open>cliEnv\<close> (working directory, environment, build
  information, YAML). The hypotheses
  name documented behaviour: \<open>conditionsLib\<close> and \<open>finalizersLib\<close> (setting and finding), \<open>authorizedKeysLib\<close> (a key
  written as a line parses back), \<open>roundTrips\<close> (JSON reads back what it wrote), \<open>optimisticApi\<close> (an update lands on the
  version it was computed from). Each is shown to hold of a concrete instance in a witness.

  \<^bold>\<open>Bounds.\<close> No definition uses fuel. The polling loops recurse on what is left of the deadline and are
  proved total; a wait with timeout \<open>T\<close> makes at most \<open>5 * (T div 15s + 1)\<close> calls (\<^verbatim>\<open>waitForCluster\<close>),
  \<open>2 * (T div 10s + 1)\<close> (\<^verbatim>\<open>waitForClusterGone\<close>), \<open>7 * (T div 15s + 1)\<close> (\<^verbatim>\<open>statusLoop\<close>) and \<open>3 * (T div 2s + 1)\<close>
  (\<^verbatim>\<open>waitForCRD\<close>). The elapsed time of a pass itself is not counted, so a real run makes no more passes than the model's. \<^verbatim>\<open>retry.RetryOnConflict\<close> is five attempts, as
  its default backoff has. Replica counts are 32-bit words with the wrap-around of Go.

  \<^bold>\<open>Not modelled\<close>, and why. What commands print (only values written to files, the registry or an API
  count), file modes, contexts except as failing calls and cut-short waits, the scheduling of goroutines except
  the interleavings of the inventory check. The cobra command tree, flag parsing, \<^verbatim>\<open>SetupWithManager\<close>, \<^verbatim>\<open>cmd/kg\<close>, \<^verbatim>\<open>cmd/manager\<close>,
  \<^verbatim>\<open>groupversion_info.go\<close> and the loggers of \<^verbatim>\<open>capi.go\<close> are wiring of libraries; \<^verbatim>\<open>zz_generated.deepcopy.go\<close> is generated and copies values that the
  model never shares; \<^verbatim>\<open>hint_darwin.go\<close> and \<^verbatim>\<open>hint_other.go\<close> are a text; \<^verbatim>\<open>assets.go\<close> is an embedded file, whose bytes are a
  parameter; \<^verbatim>\<open>sshtest\<close> supports tests. The shell scripts the code sends are modelled as text, and by what their
  commands do to the files of a host (\<open>posixHost\<close> in \<^verbatim>\<open>KG_Provisioner\<close>); kubeadm, containerd and the
  controllers of Cluster API are the outside.
\<close>

end
